(* ===== verification/Prelude.thy ===== *)
theory Prelude
  imports Main "HOL-Library.AList" "HOL-Library.Multiset" "HOL-Library.Sublist"
begin

text \<open>
  The semantic base shared by every component of the library: Go errors, Go maps as
  association lists with an explicit iteration order, the string functions of the Go
  standard library the sources call, and the effect type of Go code.

  A piece of Go code that reads or writes shared state is a \<open>proc\<close>: a tree of atomic
  steps on a world \<open>'w\<close> that ends in a value or in a panic. Keeping the single steps
  (instead of a state transformer) lets goroutines interleave; \<open>run\<close> is the uninterrupted
  execution, which keeps the effects made before a panic.
\<close>

named_theorems go_run
  "execution of Go code by the simplifier: run over every combinator"

section \<open>Errors\<close>

text \<open>A non-nil Go \<open>error\<close>: made by \<open>fmt.Errorf\<close>, wrapped with \<open>%w\<close>, or returned by
  code outside the repository. The nil error is \<open>None\<close> of \<open>error option\<close>.\<close>

datatype error = Errorf string | Wrapped string error | External string

text \<open>The text of an error, the argument of \<open>panic(err)\<close> and of \<open>%v\<close>; \<open>%w\<close> writes the wrapped
  error's text at the end of the message, as in every use of it in the sources.\<close>

primrec error_text :: "error \<Rightarrow> string" where
  "error_text (Errorf s) = s"
| "error_text (Wrapped s e) = s @ error_text e"
| "error_text (External s) = s"

section \<open>Go maps\<close>

text \<open>A Go map is an association list with distinct keys. The order in which \<open>range\<close>
  visits a map is not specified; an iteration takes the order as an argument, any
  function that permutes the entries.\<close>

type_synonym ('k, 'v) gomap = "('k \<times> 'v) list"

definition gomap_ok :: "('k, 'v) gomap \<Rightarrow> bool" where
  "gomap_ok m \<longleftrightarrow> distinct (map fst m)"

definition range_order :: "(('k, 'v) gomap \<Rightarrow> ('k, 'v) gomap) \<Rightarrow> bool" where
  "range_order ord \<longleftrightarrow> (\<forall>m. mset (ord m) = mset m)"

lemma range_order_id [simp]: "range_order (\<lambda>m. m)"
  by (simp add: range_order_def)

lemma range_order_rev [simp]: "range_order rev"
  by (simp add: range_order_def)

lemma range_order_set: "range_order ord \<Longrightarrow> set (ord m) = set m"
  unfolding range_order_def by (metis set_mset_mset)

lemma range_order_Nil: "range_order ord \<Longrightarrow> ord [] = []"
  unfolding range_order_def by (metis mset_zero_iff)

lemma range_order_length: "range_order ord \<Longrightarrow> length (ord m) = length m"
  unfolding range_order_def by (metis size_mset)

lemma range_order_ok: "range_order ord \<Longrightarrow> gomap_ok (ord m) = gomap_ok m"
  unfolding range_order_def gomap_ok_def by (metis mset_eq_imp_distinct_iff mset_map)

lemma map_of_range_order:
  assumes "range_order ord" and "gomap_ok m"
  shows "map_of (ord m) = map_of m"
proof (rule map_of_eqI)
  show "set (map fst (ord m)) = set (map fst m)"
    using assms(1) by (simp add: range_order_set)
next
  have d: "distinct (map fst (ord m))" "distinct (map fst m)"
    using assms range_order_ok [of ord m] by (auto simp: gomap_ok_def)
  show "\<forall>k \<in> set (map fst (ord m)). map_of (ord m) k = map_of m k"
  proof
    fix k
    assume "k \<in> set (map fst (ord m))"
    then obtain v where "(k, v) \<in> set (ord m)" by auto
    with d range_order_set [OF assms(1)] show "map_of (ord m) k = map_of m k"
      by (metis map_of_is_SomeI)
  qed
qed

lemma gomap_ok_Nil [simp]: "gomap_ok []"
  by (simp add: gomap_ok_def)

lemma gomap_ok_update [simp]: "gomap_ok m \<Longrightarrow> gomap_ok (AList.update k v m)"
  by (simp add: gomap_ok_def distinct_update)

lemma gomap_ok_delete [simp]: "gomap_ok m \<Longrightarrow> gomap_ok (AList.delete k m)"
  by (simp add: gomap_ok_def distinct_delete)

lemma gomap_length_dom: "gomap_ok m \<Longrightarrow> length m = card (dom (map_of m))"
  unfolding gomap_ok_def by (metis dom_map_of_conv_image_fst length_map distinct_card set_map)

lemma finite_dom_gomap [simp]: "finite (dom (map_of (m :: ('k, 'v) gomap)))"
  by (rule finite_dom_map_of)

text \<open>A loop \<open>for k, v := range xs { out[k] = v }\<close> over a list with distinct keys.\<close>

lemma map_of_fold_update:
  assumes "distinct (map fst xs)"
  shows "map_of (fold (\<lambda>(k, v) m. AList.update k v m) xs m) = map_of m ++ map_of xs"
  using assms
proof (induction xs arbitrary: m)
  case Nil
  then show ?case by simp
next
  case (Cons x xs)
  obtain k v where x: "x = (k, v)" by (cases x)
  from Cons.prems x have new: "k \<notin> dom (map_of xs)"
    by (simp add: dom_map_of_conv_image_fst)
  have "map_of (fold (\<lambda>(k, v) m. AList.update k v m) (x # xs) m)
      = (map_of m)(k \<mapsto> v) ++ map_of xs"
    using Cons x by (simp add: update_conv')
  also have "\<dots> = map_of m ++ (map_of xs)(k \<mapsto> v)"
    using new by (auto simp: fun_eq_iff map_add_def split: option.splits)
  finally show ?case by (simp only: x map_of.simps fst_conv snd_conv)
qed

lemma gomap_ok_fold_update:
  "gomap_ok m \<Longrightarrow> gomap_ok (fold (\<lambda>(k, v) m. AList.update k v m) xs m)"
  by (induction xs arbitrary: m) auto

lemma map_of_filter_keys:
  "map_of (filter (\<lambda>(k, v). P k) xs) = (\<lambda>k. if P k then map_of xs k else None)"
  by (induction xs) (auto simp: fun_eq_iff)

section \<open>Strings\<close>

definition HasPrefix :: "string \<Rightarrow> string \<Rightarrow> bool" where
  "HasPrefix s pre = (take (length pre) s = pre)"

definition TrimPrefix :: "string \<Rightarrow> string \<Rightarrow> string" where
  "TrimPrefix s pre = (if HasPrefix s pre then drop (length pre) s else s)"

text \<open>\<open>strings.Cut\<close>: the text before and after the first occurrence of the separator.\<close>

fun Cut :: "string \<Rightarrow> string \<Rightarrow> (string \<times> string) option" where
  "Cut [] sep = (if sep = [] then Some ([], []) else None)"
| "Cut (c # s) sep =
     (if HasPrefix (c # s) sep then Some ([], drop (length sep) (c # s))
      else map_option (\<lambda>(b, a). (c # b, a)) (Cut s sep))"

fun Join :: "string list \<Rightarrow> string \<Rightarrow> string" where
  "Join [] sep = []"
| "Join [s] sep = s"
| "Join (s # t # ss) sep = s @ sep @ Join (t # ss) sep"

text \<open>\<open>%q\<close>, that is \<open>strconv.Quote\<close>, for strings of ASCII bytes.\<close>

definition hex_digit :: "nat \<Rightarrow> char" where
  "hex_digit d = ''0123456789abcdef'' ! (d mod 16)"

definition quote_char :: "char \<Rightarrow> string" where
  "quote_char c =
     (let n = of_char c :: nat in
      if n = 34 \<or> n = 92 then [CHR 0x5C, c]
      else if 32 \<le> n \<and> n < 127 then [c]
      else if n = 7 then CHR 0x5C # ''a''
      else if n = 8 then CHR 0x5C # ''b''
      else if n = 9 then CHR 0x5C # ''t''
      else if n = 10 then CHR 0x5C # ''n''
      else if n = 11 then CHR 0x5C # ''v''
      else if n = 12 then CHR 0x5C # ''f''
      else if n = 13 then CHR 0x5C # ''r''
      else [CHR 0x5C, CHR ''x'', hex_digit (n div 16), hex_digit n])"

definition Quote :: "string \<Rightarrow> string" where
  "Quote s = [CHR 0x22] @ concat (map quote_char s) @ [CHR 0x22]"

lemma HasPrefix_append [simp]: "HasPrefix (pre @ s) pre"
  by (simp add: HasPrefix_def)

lemma HasPrefix_Nil [simp]: "HasPrefix s []"
  by (simp add: HasPrefix_def)

lemma HasPrefix_iff: "HasPrefix s pre \<longleftrightarrow> (\<exists>t. s = pre @ t)"
  by (metis HasPrefix_append HasPrefix_def append_take_drop_id)

lemma TrimPrefix_append [simp]: "TrimPrefix (pre @ s) pre = s"
  by (simp add: TrimPrefix_def)

text \<open>The first occurrence of \<open>c # sep\<close> in \<open>s @ c # sep @ t\<close> is the one written there
  when the byte \<open>c\<close> does not occur in \<open>s\<close>.\<close>

lemma Cut_append:
  assumes "c \<notin> set s"
  shows "Cut (s @ (c # sep) @ t) (c # sep) = Some (s, t)"
  using assms by (induction s) (auto simp: HasPrefix_def)

lemma Cut_SomeD: "Cut s sep = Some (b, a) \<Longrightarrow> s = b @ sep @ a"
proof (induction s sep arbitrary: b a rule: Cut.induct)
  case (1 sep)
  then show ?case by (auto split: if_splits)
next
  case (2 c s sep)
  show ?case
  proof (cases "HasPrefix (c # s) sep")
    case True
    with "2.prems" have "b = []" and "a = drop (length sep) (c # s)" by auto
    with True show ?thesis
      by (metis HasPrefix_def append_Nil append_take_drop_id)
  next
    case False
    with "2.prems" obtain b' where "Cut s sep = Some (b', a)" and "b = c # b'" by auto
    with "2.IH" [OF False] show ?thesis by simp
  qed
qed

lemma Cut_None_iff:
  "sep \<noteq> [] \<Longrightarrow> Cut s sep = None \<longleftrightarrow> (\<forall>b a. s \<noteq> b @ sep @ a)"
proof (induction s)
  case Nil
  then show ?case by simp
next
  case (Cons c s)
  have "(\<exists>b a. c # s = b @ sep @ a) \<longleftrightarrow>
      HasPrefix (c # s) sep \<or> (\<exists>b a. s = b @ sep @ a)"
    by (metis HasPrefix_iff append_Cons append_Nil list.inject neq_Nil_conv)
  with Cons show ?case by auto
qed

text \<open>Splitting at the first separator byte is unique when the left part has none.\<close>

lemma append_sep_inject:
  assumes "c \<notin> set a" and "c \<notin> set a'"
  shows "a @ c # b = a' @ c # b' \<longleftrightarrow> a = a' \<and> b = b'"
proof
  assume eq: "a @ c # b = a' @ c # b'"
  have "takeWhile (\<lambda>x. x \<noteq> c) (a @ c # b) = a"
    using assms(1) by (subst takeWhile_append2) auto
  moreover have "takeWhile (\<lambda>x. x \<noteq> c) (a' @ c # b') = a'"
    using assms(2) by (subst takeWhile_append2) auto
  ultimately show "a = a' \<and> b = b'" using eq by auto
qed simp

section \<open>Effects\<close>

text \<open>One atomic step updates the world and continues with what it read in the world
  before the update.\<close>

datatype ('a, dead 'w) proc =
    Return 'a
  | Panic string
  | Step "'w \<Rightarrow> 'w" "'w \<Rightarrow> ('a, 'w) proc"

datatype 'a outcome = Normal 'a | Panicked string

primrec bind :: "('a, 'w) proc \<Rightarrow> ('a \<Rightarrow> ('b, 'w) proc) \<Rightarrow> ('b, 'w) proc" where
  "bind (Return a) f = f a"
| "bind (Panic m) f = Panic m"
| "bind (Step u k) f = Step u (\<lambda>w. bind (k w) f)"

definition andthen :: "('a, 'w) proc \<Rightarrow> ('b, 'w) proc \<Rightarrow> ('b, 'w) proc" where
  "andthen p q = bind p (\<lambda>_. q)"

definition act :: "('w \<Rightarrow> 'a \<times> 'w) \<Rightarrow> ('a, 'w) proc" where
  "act f = Step (\<lambda>w. snd (f w)) (\<lambda>w. Return (fst (f w)))"

definition modify :: "('w \<Rightarrow> 'w) \<Rightarrow> (unit, 'w) proc" where
  "modify f = Step f (\<lambda>_. Return ())"

definition gets :: "('w \<Rightarrow> 'a) \<Rightarrow> ('a, 'w) proc" where
  "gets f = Step (\<lambda>w. w) (\<lambda>w. Return (f w))"

text \<open>\<open>defer d()\<close>: the deferred call runs when the body returns and when it panics.\<close>

primrec deferred :: "('a, 'w) proc \<Rightarrow> (unit, 'w) proc \<Rightarrow> ('a, 'w) proc" where
  "deferred (Return a) d = bind d (\<lambda>_. Return a)"
| "deferred (Panic m) d = bind d (\<lambda>_. Panic m)"
| "deferred (Step u k) d = Step u (\<lambda>w. deferred (k w) d)"

primrec run :: "('a, 'w) proc \<Rightarrow> 'w \<Rightarrow> 'a outcome \<times> 'w" where
  "run (Return a) w = (Normal a, w)"
| "run (Panic m) w = (Panicked m, w)"
| "run (Step u k) w = run (k w) (u w)"

text \<open>\<open>for _, x := range xs { if err := f(x); err != nil { return err } }\<close>\<close>

primrec for_err :: "('a \<Rightarrow> (error option, 'w) proc) \<Rightarrow> 'a list \<Rightarrow> (error option, 'w) proc" where
  "for_err f [] = Return None"
| "for_err f (x # xs) =
     bind (f x) (\<lambda>err. case err of Some e \<Rightarrow> Return (Some e) | None \<Rightarrow> for_err f xs)"

lemma bind_assoc [simp]: "bind (bind p f) g = bind p (\<lambda>a. bind (f a) g)"
  by (induction p) auto

lemma bind_Return_right [simp]: "bind p Return = p"
  by (induction p) auto

lemma andthen_Return [simp]: "andthen (Return a) q = q"
  by (simp add: andthen_def)

lemma run_bind [go_run]:
  "run (bind p f) w =
     (case run p w of (Normal a, w') \<Rightarrow> run (f a) w' | (Panicked m, w') \<Rightarrow> (Panicked m, w'))"
  by (induction p arbitrary: w) auto

lemma run_andthen [go_run]:
  "run (andthen p q) w =
     (case run p w of (Normal a, w') \<Rightarrow> run q w' | (Panicked m, w') \<Rightarrow> (Panicked m, w'))"
  by (simp add: andthen_def run_bind)

lemma run_act [go_run]: "run (act f) w = (Normal (fst (f w)), snd (f w))"
  by (simp add: act_def)

lemma run_modify [go_run]: "run (modify f) w = (Normal (), f w)"
  by (simp add: modify_def)

lemma run_gets [go_run]: "run (gets f) w = (Normal (f w), w)"
  by (simp add: gets_def)

lemma run_deferred [go_run]:
  "run (deferred p d) w =
     (case run p w of
        (r, w') \<Rightarrow> (case run d w' of (Normal _, w'') \<Rightarrow> (r, w'') | (Panicked m, w'') \<Rightarrow> (Panicked m, w'')))"
proof (induction p arbitrary: w)
  case (Return a)
  show ?case by (simp add: run_bind split: prod.splits outcome.splits)
next
  case (Panic m)
  show ?case by (simp add: run_bind split: prod.splits outcome.splits)
next
  case (Step u k)
  show ?case by (simp add: Step)
qed

declare go_run [simp]

lemma run_cong_bind:
  "(\<And>a w. run (f a) w = run (g a) w) \<Longrightarrow> run (bind p f) w = run (bind p g) w"
  by (simp split: prod.split outcome.split)

lemma andthen_unit [simp]: "run (andthen p (Return ())) w = run p w"
  by (simp split: prod.split outcome.split)

text \<open>A fold in which every step succeeds.\<close>

lemma run_for_err_ok:
  assumes "\<And>x w. x \<in> set xs \<Longrightarrow> run (f x) w = (Normal None, g x w)"
  shows "run (for_err f xs) w = (Normal None, fold g xs w)"
  using assms by (induction xs arbitrary: w) auto

text \<open>Code that runs beside other code: \<open>rg_safe I R p w\<close> says that every step of \<open>p\<close>, taken in a
  world that is \<open>R\<close>-later than \<open>w\<close> and satisfies \<open>I\<close>, keeps \<open>I\<close> and is itself an \<open>R\<close>-step.\<close>

primrec rg_safe :: "('w \<Rightarrow> bool) \<Rightarrow> ('w \<Rightarrow> 'w \<Rightarrow> bool) \<Rightarrow> ('a, 'w) proc \<Rightarrow> 'w \<Rightarrow> bool" where
  "rg_safe I R (Return a) = (\<lambda>w. True)"
| "rg_safe I R (Panic m) = (\<lambda>w. True)"
| "rg_safe I R (Step u k) = (\<lambda>w. \<forall>w'. R w w' \<longrightarrow> I w' \<longrightarrow> I (u w') \<and> R w' (u w') \<and> rg_safe I R (k w') (u w'))"

lemma rg_safe_later:
  assumes "transp R" and "R w w'" and "rg_safe I R p w"
  shows "rg_safe I R p w'"
  using assms by (cases p) (auto dest: transpD)

lemma rg_safe_bind:
  assumes "rg_safe I R p w" and "\<And>a w. rg_safe I R (f a) w"
  shows "rg_safe I R (bind p f) w"
  using assms by (induction p arbitrary: w) auto

lemma rg_safe_andthen:
  assumes "rg_safe I R p w" and "\<And>w. rg_safe I R q w"
  shows "rg_safe I R (andthen p q) w"
  using assms by (simp add: andthen_def rg_safe_bind)

lemma rg_safe_deferred:
  assumes "rg_safe I R p w" and "\<And>w. rg_safe I R d w"
  shows "rg_safe I R (deferred p d) w"
  using assms(1) by (induction p arbitrary: w) (auto intro: rg_safe_bind assms(2))

lemma rg_safe_act:
  assumes "\<And>w'. R w w' \<Longrightarrow> I w' \<Longrightarrow> I (snd (f w')) \<and> R w' (snd (f w'))"
  shows "rg_safe I R (act f) w"
  using assms by (simp add: act_def)

lemma rg_safe_modify:
  assumes "\<And>w'. R w w' \<Longrightarrow> I w' \<Longrightarrow> I (u w') \<and> R w' (u w')"
  shows "rg_safe I R (modify u) w"
  using assms by (simp add: modify_def)

text \<open>A read followed by code that may rely on what was read.\<close>

lemma rg_safe_gets:
  assumes "reflp R" and "\<And>w'. R w w' \<Longrightarrow> I w' \<Longrightarrow> rg_safe I R (k (f w')) w'"
  shows "rg_safe I R (bind (gets f) k) w"
  using assms by (simp add: gets_def reflpD)

text \<open>A log as the world: the environment answers from the history of calls.\<close>

definition emit :: "'e \<Rightarrow> (unit, 'e list) proc" where
  "emit e = modify (\<lambda>l. l @ [e])"

definition ask :: "('e list \<Rightarrow> 'a) \<Rightarrow> 'e \<Rightarrow> ('a, 'e list) proc" where
  "ask oracle e = act (\<lambda>l. (oracle l, l @ [e]))"

lemma run_emit [simp]: "run (emit e) l = (Normal (), l @ [e])"
  by (simp add: emit_def)

lemma run_ask [simp]: "run (ask orc e) l = (Normal (orc l), l @ [e])"
  by (simp add: ask_def)

section \<open>Names of cluster objects\<close>

record namespaced_name =
  Namespace :: string
  Name :: string

text \<open>\<open>types.NamespacedName.String\<close>: namespace and name joined by a slash.\<close>

definition nn_String :: "namespaced_name \<Rightarrow> string" where
  "nn_String nn = Namespace nn @ ''/'' @ Name nn"

record gvr =
  Group :: string
  Version :: string
  Resource :: string

section \<open>Cluster objects\<close>

text \<open>What the sources use of \<open>metav1.Object\<close>. The rest of an object, its spec and status, is the
  extension of the record. A nil map is \<open>None\<close>.\<close>

record kobject =
  obj_Namespace :: string
  obj_Name :: string
  obj_Labels :: "(string, string) gomap option"
  obj_Annotations :: "(string, string) gomap option"
  obj_Finalizers :: "string list"
  obj_DeletionTimestamp :: "int option"

definition obj_nn :: "'z kobject_scheme \<Rightarrow> namespaced_name" where
  "obj_nn ob = \<lparr>Namespace = obj_Namespace ob, Name = obj_Name ob\<rparr>"

text \<open>\<open>m[k]\<close> on a possibly nil map of strings: the empty string when the key is absent.\<close>

definition str_index :: "(string, string) gomap option \<Rightarrow> string \<Rightarrow> string" where
  "str_index m k = (case m of None \<Rightarrow> [] | Some es \<Rightarrow> (case map_of es k of None \<Rightarrow> [] | Some v \<Rightarrow> v))"

end
