(* ===== verification/Handler.thy ===== *)
theory Handler
  imports Prelude
begin

text \<open>
  The package \<open>handler\<close>: handlers, lists of handlers with lookup by key, builders, and the
  two builder composers \<open>Chain\<close> (handler/chain.go) and \<open>Parallel\<close> (handler/parallel.go).
  The type \<open>'c\<close> is the type of contexts and \<open>'w\<close> the world; a builder may have effects and
  may panic, so it returns a \<open>proc\<close>.
\<close>

section \<open>Handlers and lists of handlers\<close>

record ('c, 'w) handler =
  ContextHandler :: "'c \<Rightarrow> (unit, 'w) proc"
  hid :: string

type_synonym ('c, 'w) builder = "('c, 'w) handler list \<Rightarrow> (('c, 'w) handler, 'w) proc"

type_synonym ('c, 'w) composer = "('c, 'w) builder list \<Rightarrow> (('c, 'w) builder, 'w) proc"

definition NewHandler :: "('c \<Rightarrow> (unit, 'w) proc) \<Rightarrow> string \<Rightarrow> ('c, 'w) handler" where
  "NewHandler h key = \<lparr>ContextHandler = h, hid = key\<rparr>"

definition NewHandlerFromFunc :: "('c \<Rightarrow> (unit, 'w) proc) \<Rightarrow> string \<Rightarrow> ('c, 'w) handler" where
  "NewHandlerFromFunc h key = \<lparr>ContextHandler = h, hid = key\<rparr>"

text \<open>\<open>NewTypeHandler\<close> takes its key from the type's name as printed by \<open>%T\<close>.\<close>

definition NewTypeHandler :: "string \<Rightarrow> ('c \<Rightarrow> (unit, 'w) proc) \<Rightarrow> ('c, 'w) handler" where
  "NewTypeHandler typeName h = \<lparr>ContextHandler = h, hid = typeName\<rparr>"

definition NextKey :: string where
  "NextKey = ''next''"

definition NoopHandler :: "('c, 'w) handler" where
  "NoopHandler = NewHandler (\<lambda>_. Return ()) NextKey"

definition Handler_Builder :: "('c, 'w) handler \<Rightarrow> ('c, 'w) builder" where
  "Handler_Builder h = (\<lambda>_. Return h)"

definition ID :: "('c, 'w) handler \<Rightarrow> string" where
  "ID h = hid h"

definition WithID :: "('c, 'w) handler \<Rightarrow> string \<Rightarrow> ('c, 'w) handler" where
  "WithID h key = \<lparr>ContextHandler = ContextHandler h, hid = key\<rparr>"

definition ToSet :: "('c, 'w) handler list \<Rightarrow> (string, ('c, 'w) handler) gomap" where
  "ToSet hs = fold (\<lambda>h m. AList.update (hid h) h m) hs []"

definition Find :: "('c, 'w) handler list \<Rightarrow> string \<Rightarrow> ('c, 'w) handler option" where
  "Find hs key = map_of (ToSet hs) key"

definition MustFind :: "('c, 'w) handler list \<Rightarrow> string \<Rightarrow> (('c, 'w) handler, 'w) proc" where
  "MustFind hs key =
     (case Find hs key of
        None \<Rightarrow> Panic (''handler with id '' @ key @ '' not found'')
      | Some h \<Rightarrow> Return h)"

definition MustOne :: "('c, 'w) handler list \<Rightarrow> (('c, 'w) handler, 'w) proc" where
  "MustOne hs =
     (if length hs \<noteq> 1 then Panic ''no or more than one handler found'' else Return (hs ! 0))"

definition Key_Find :: "string \<Rightarrow> ('c, 'w) handler list \<Rightarrow> ('c, 'w) handler option" where
  "Key_Find key hs = Find hs key"

definition Key_MustFind :: "string \<Rightarrow> ('c, 'w) handler list \<Rightarrow> (('c, 'w) handler, 'w) proc" where
  "Key_MustFind key hs = MustFind hs key"

text \<open>\<open>Builder.Handler\<close>: the natural handler of a builder, under a new key.\<close>

definition Builder_Handler :: "('c, 'w) builder \<Rightarrow> string \<Rightarrow> (('c, 'w) handler, 'w) proc" where
  "Builder_Handler f key = bind (f [NoopHandler]) (\<lambda>h. Return (WithID h key))"

lemmas handler_simps [simp] =
  NewHandler_def NewHandlerFromFunc_def NewTypeHandler_def NoopHandler_def WithID_def ID_def

section \<open>Chain\<close>

text \<open>The loop of \<open>Chain\<close> runs from the last child to the first; the list holds the
  children that are left, last first.\<close>

primrec chain_loop :: "('c, 'w) builder list \<Rightarrow> ('c, 'w) handler \<Rightarrow> (('c, 'w) handler, 'w) proc" where
  "chain_loop [] next = Return next"
| "chain_loop (b # bs) next = bind (b [next]) (chain_loop bs)"

definition Chain :: "('c, 'w) builder list \<Rightarrow> ('c, 'w) builder" where
  "Chain children = (\<lambda>_. chain_loop (rev children) NoopHandler)"

definition Chain_composer :: "('c, 'w) composer" where
  "Chain_composer children = Return (Chain children)"

section \<open>Parallel\<close>

text \<open>Goroutines interleave at atomic steps. A schedule is the list of the goroutines that
  move; a goroutine that has returned does not move, and when the schedule ends the ones
  that are left run to their end (the wait group blocks until all of them are done). A panic
  in a goroutine ends the program.\<close>

primrec run_rest :: "(unit, 'w) proc list \<Rightarrow> (unit, 'w) proc" where
  "run_rest [] = Return ()"
| "run_rest (p # ps) = andthen p (run_rest ps)"

primrec interleave :: "nat list \<Rightarrow> (unit, 'w) proc list \<Rightarrow> (unit, 'w) proc" where
  "interleave [] ps = run_rest ps"
| "interleave (i # is) ps =
     (if i < length ps then
        (case ps ! i of
           Return _ \<Rightarrow> interleave is ps
         | Panic m \<Rightarrow> Panic m
         | Step u k \<Rightarrow> Step u (\<lambda>w. interleave is (ps[i := k w])))
      else interleave is ps)"

text \<open>What each goroutine does: build the child with a no-op continuation and run it.\<close>

definition child_proc :: "'c \<Rightarrow> ('c, 'w) builder \<Rightarrow> (unit, 'w) proc" where
  "child_proc ctx c = bind (c [NoopHandler]) (\<lambda>h. ContextHandler h ctx)"

definition parallel_handle ::
    "('c \<Rightarrow> 'w \<Rightarrow> nat list) \<Rightarrow> ('c, 'w) builder list \<Rightarrow> ('c, 'w) handler list \<Rightarrow> 'c \<Rightarrow> (unit, 'w) proc" where
  "parallel_handle sched children next ctx =
     bind (gets (sched ctx)) (\<lambda>sch.
       andthen (interleave sch (map (child_proc ctx) children))
         (bind (MustOne next) (\<lambda>n. ContextHandler n ctx)))"

primrec parallel_ids :: "('c, 'w) builder list \<Rightarrow> (string list, 'w) proc" where
  "parallel_ids [] = Return []"
| "parallel_ids (c # cs) =
     bind (c [NoopHandler]) (\<lambda>h. bind (parallel_ids cs) (\<lambda>ids. Return (ID h # ids)))"

definition Parallel :: "('c \<Rightarrow> 'w \<Rightarrow> nat list) \<Rightarrow> ('c, 'w) composer" where
  "Parallel sched children =
     bind (parallel_ids children) (\<lambda>ids.
       Return (\<lambda>next. Return (NewHandler (parallel_handle sched children next)
         (''parallel['' @ Join ids '','' @ '']''))))"

section \<open>Lookup of handlers\<close>

lemma map_of_ToSet_fold:
  "map_of (fold (\<lambda>h m. AList.update (hid h) h m) hs m) key =
     (case find (\<lambda>h. hid h = key) (rev hs) of None \<Rightarrow> map_of m key | Some h \<Rightarrow> Some h)"
proof (induction hs rule: rev_induct)
  case Nil
  show ?case by simp
next
  case (snoc h hs)
  then show ?case by (simp add: update_conv')
qed

lemma Find_last: "Find hs key = find (\<lambda>h. hid h = key) (rev hs)"
  by (simp add: Find_def ToSet_def map_of_ToSet_fold split: option.split)

lemma Find_Some_hid: "Find hs key = Some h \<Longrightarrow> h \<in> set hs \<and> hid h = key"
  unfolding Find_last find_Some_iff by (metis nth_mem set_rev)

lemma Find_None_iff: "Find hs key = None \<longleftrightarrow> key \<notin> hid ` set hs"
  by (auto simp: Find_last find_None_iff)

lemma gomap_ok_ToSet: "gomap_ok (ToSet hs)"
proof -
  have "gomap_ok (fold (\<lambda>h m. AList.update (hid h) h m) hs m)" if "gomap_ok m" for m
    using that by (induction hs arbitrary: m) auto
  then show ?thesis by (simp add: ToSet_def)
qed

section \<open>Stages in a chain\<close>

text \<open>The idiom the package is made for: a stage does some work and then either stops (for
  example after it has requeued the key) or passes a context on to the next handler.\<close>

type_synonym ('c, 'w) stage_body = "'c \<Rightarrow> ('c option, 'w) proc"

definition stage :: "string \<Rightarrow> ('c, 'w) stage_body \<Rightarrow> ('c, 'w) builder" where
  "stage key body next =
     bind (MustOne next) (\<lambda>n.
       Return (NewHandler (\<lambda>ctx. bind (body ctx) (\<lambda>r.
         case r of None \<Rightarrow> Return () | Some ctx' \<Rightarrow> ContextHandler n ctx')) key))"

primrec run_stages :: "('c, 'w) stage_body list \<Rightarrow> 'c \<Rightarrow> (unit, 'w) proc" where
  "run_stages [] ctx = Return ()"
| "run_stages (b # bs) ctx =
     bind (b ctx) (\<lambda>r. case r of None \<Rightarrow> Return () | Some ctx' \<Rightarrow> run_stages bs ctx')"

definition stages_builder :: "(string \<times> ('c, 'w) stage_body) list \<Rightarrow> ('c, 'w) builder list" where
  "stages_builder bs = map (\<lambda>(k, b). stage k b) bs"

lemma MustOne_single [simp]: "MustOne [h] = Return h"
  by (simp add: MustOne_def)

lemma MustOne_other: "length hs \<noteq> 1 \<Longrightarrow> \<exists>m. MustOne hs = Panic m"
  by (simp add: MustOne_def)

lemma stage_single:
  "stage key body [n] = Return (NewHandler (\<lambda>ctx. bind (body ctx) (\<lambda>r.
     case r of None \<Rightarrow> Return () | Some ctx' \<Rightarrow> ContextHandler n ctx')) key)"
  by (simp add: stage_def)

lemma chain_loop_Nil [simp]: "chain_loop [] = Return"
  by (rule ext) simp

lemma chain_loop_append: "chain_loop (bs @ cs) = (\<lambda>h. bind (chain_loop bs h) (chain_loop cs))"
  by (induction bs) (simp, rule ext, simp)

lemma chain_loop_stages:
  "\<exists>h'. chain_loop (rev (stages_builder bs)) h = Return h' \<and>
        ContextHandler h' =
          run_stages (map snd bs @ [\<lambda>c. bind (ContextHandler h c) (\<lambda>_. Return None)])"
proof (induction bs)
  case Nil
  show ?case by (auto simp: stages_builder_def fun_eq_iff)
next
  case (Cons b bs)
  obtain k body where b: "b = (k, body)" by (cases b)
  from Cons obtain h' where h': "chain_loop (rev (stages_builder bs)) h = Return h'"
    and run: "ContextHandler h' =
      run_stages (map snd bs @ [\<lambda>c. bind (ContextHandler h c) (\<lambda>_. Return None)])"
    by blast
  let ?h = "NewHandler (\<lambda>ctx. bind (body ctx) (\<lambda>r.
     case r of None \<Rightarrow> Return () | Some ctx' \<Rightarrow> ContextHandler h' ctx')) k"
  have "chain_loop (rev (stages_builder (b # bs))) h = Return ?h"
    using b h' by (simp add: stages_builder_def chain_loop_append stage_single)
  moreover have "ContextHandler ?h =
      run_stages (map snd (b # bs) @ [\<lambda>c. bind (ContextHandler h c) (\<lambda>_. Return None)])"
    by (rule ext) (simp add: b run)
  ultimately show ?case by blast
qed

lemma run_stages_halt:
  "run_stages (bs @ [\<lambda>c. bind (Return ()) (\<lambda>_. Return None)]) = run_stages bs"
proof (rule ext)
  fix ctx
  show "run_stages (bs @ [\<lambda>c. bind (Return ()) (\<lambda>_. Return None)]) ctx = run_stages bs ctx"
  proof (induction bs arbitrary: ctx)
    case (Cons b bs)
    then show ?case by (simp cong: option.case_cong)
  qed simp
qed

lemma Chain_stages:
  "\<exists>h. Chain (stages_builder bs) next = Return h \<and>
       ContextHandler h = run_stages (map snd bs)"
proof -
  obtain h where h: "chain_loop (rev (stages_builder bs)) NoopHandler = Return h"
    and r: "ContextHandler h =
      run_stages (map snd bs @ [\<lambda>c. bind (Return ()) (\<lambda>_. Return None)])"
    using chain_loop_stages [of bs NoopHandler] by (auto simp del: bind.simps)
  from r have "ContextHandler h = run_stages (map snd bs)"
    unfolding run_stages_halt .
  with h show ?thesis by (auto simp: Chain_def)
qed

section \<open>Interleavings of goroutines\<close>

inductive par_step :: "(unit, 'w) proc list \<times> 'w \<Rightarrow> (unit, 'w) proc list \<times> 'w \<Rightarrow> bool" where
  move: "i < length ps \<Longrightarrow> ps ! i = Step u k \<Longrightarrow> par_step (ps, w) (ps[i := k w], u w)"

inductive_cases par_step_E: "par_step (ps, w) s"

definition par_done :: "(unit, 'w) proc list \<Rightarrow> bool" where
  "par_done ps \<longleftrightarrow> set ps \<subseteq> {Return ()}"

definition par_finishes :: "(unit, 'w) proc list \<Rightarrow> 'w \<Rightarrow> 'w \<Rightarrow> bool" where
  "par_finishes ps w w' \<longleftrightarrow> (\<exists>ps'. par_step\<^sup>*\<^sup>* (ps, w) (ps', w') \<and> par_done ps')"

lemma par_finishes_done: "par_done ps \<Longrightarrow> par_finishes ps w w"
  by (auto simp: par_finishes_def)

lemma par_finishes_step:
  "i < length ps \<Longrightarrow> ps ! i = Step u k \<Longrightarrow> par_finishes (ps[i := k w]) (u w) w' \<Longrightarrow>
   par_finishes ps w w'"
  unfolding par_finishes_def by (meson converse_rtranclp_into_rtranclp par_step.move)

lemma par_done_update_finished: "par_done ps \<Longrightarrow> run (run_rest ps) w = (Normal (), w)"
  by (induction ps) (auto simp: par_done_def)

text \<open>One goroutine run to its end, the others standing still.\<close>

lemma run_one_finishes:
  assumes "run p w = (Normal (), w1)"
    and "par_finishes (qs @ Return () # ps) w1 w'"
  shows "par_finishes (qs @ p # ps) w w'"
  using assms(1)
proof (induction p arbitrary: w)
  case (Return a)
  then show ?case using assms(2) by simp
next
  case (Panic m)
  then show ?case by simp
next
  case (Step u k)
  from Step.prems have "run (k w) (u w) = (Normal (), w1)" by simp
  then have "par_finishes (qs @ k w # ps) (u w) w'"
    using Step.IH by blast
  then have "par_finishes ((qs @ Step u k # ps)[length qs := k w]) (u w) w'"
    by simp
  then show ?case
    using par_finishes_step [of "length qs" "qs @ Step u k # ps" u k w w'] by simp
qed

lemma run_rest_finishes:
  assumes "run (run_rest ps) w = (Normal (), w')" and "par_done qs"
  shows "par_finishes (qs @ ps) w w'"
  using assms
proof (induction ps arbitrary: qs w)
  case Nil
  then show ?case by (simp add: par_finishes_done)
next
  case (Cons p ps)
  from Cons.prems(1) obtain w1 where p: "run p w = (Normal (), w1)"
    and rest: "run (run_rest ps) w1 = (Normal (), w')"
    by (auto split: prod.splits outcome.splits)
  have "par_done (qs @ [Return ()])"
    using Cons.prems(2) by (simp add: par_done_def)
  then have "par_finishes (qs @ Return () # ps) w1 w'"
    using Cons.IH [OF rest, of "qs @ [Return ()]"] by simp
  with p show ?case by (rule run_one_finishes)
qed

lemma interleave_sound:
  "run (interleave sch ps) w = (Normal (), w') \<Longrightarrow> par_finishes ps w w'"
proof (induction sch arbitrary: ps w)
  case Nil
  then show ?case using run_rest_finishes [of ps w w' "[]"] by (simp add: par_done_def)
next
  case (Cons i sch)
  show ?case
  proof (cases "i < length ps")
    case True
    show ?thesis
    proof (cases "ps ! i")
      case (Step u k)
      with True Cons.prems have "run (interleave sch (ps[i := k w])) (u w) = (Normal (), w')"
        by simp
      then have "par_finishes (ps[i := k w]) (u w) w'" by (rule Cons.IH)
      with True Step show ?thesis by (rule par_finishes_step)
    qed (use True Cons in auto)
  qed (use Cons in auto)
qed

lemma interleave_complete:
  assumes "par_step\<^sup>*\<^sup>* (ps, w) (ps', w')" and "par_done ps'"
  shows "\<exists>sch. run (interleave sch ps) w = (Normal (), w')"
  using assms(1)
proof (induction "(ps, w)" arbitrary: ps w rule: converse_rtranclp_induct)
  case base
  with assms(2) have "run (interleave [] ps') w' = (Normal (), w')"
    by (simp add: par_done_update_finished)
  then show ?case by blast
next
  case (step s)
  from step.hyps(1) obtain i u k where "i < length ps" "ps ! i = Step u k"
    and s: "s = (ps[i := k w], u w)"
    by (auto elim: par_step_E)
  moreover obtain sch where "run (interleave sch (ps[i := k w])) (u w) = (Normal (), w')"
    using step.hyps(3) [OF s] by blast
  ultimately have "run (interleave (i # sch) ps) w = (Normal (), w')" by simp
  then show ?case by blast
qed

lemma interleave_iff:
  "(\<exists>sch. run (interleave sch ps) w = (Normal (), w')) \<longleftrightarrow> par_finishes ps w w'"
  unfolding par_finishes_def
  using interleave_sound interleave_complete by (metis par_finishes_def)

section \<open>The contract of a builder composer\<close>

text \<open>Stages that only write to a log, to observe what a composed builder runs.\<close>

primrec emits :: "'e list \<Rightarrow> (unit, 'e list) proc" where
  "emits [] = Return ()"
| "emits (e # es) = andthen (emit e) (emits es)"

definition emits_stage :: "string \<times> 'e list \<Rightarrow> ('c, 'e list) builder" where
  "emits_stage kes = stage (fst kes) (\<lambda>ctx. andthen (emits (snd kes)) (Return (Some ctx)))"

lemma run_emits [simp]: "run (emits es) l = (Normal (), l @ es)"
  by (induction es arbitrary: l) auto

lemma bind_unit [simp]: "bind p (\<lambda>_. Return ()) = (p :: (unit, 'w) proc)"
  by (induction p) auto

text \<open>What \<open>Chain\<close> and \<open>Parallel\<close> both promise a client such as the middleware package: the
  composed builder runs every child exactly once, to its end, with the steps of each child
  in their own order.\<close>

locale builder_composer =
  fixes compose :: "('c, 'e list) composer"
  assumes runs_every_child:
    "\<exists>b h. compose (map emits_stage kes) = Return b \<and> b [NoopHandler] = Return h \<and>
       (\<forall>ctx l. \<exists>l'. run (ContextHandler h ctx) l = (Normal (), l @ l') \<and>
          mset l' = mset (concat (map snd kes)) \<and> (\<forall>kes' \<in> set kes. subseq (snd kes') l'))"
begin

lemma composed_run:
  obtains b h l' where "compose (map emits_stage kes) = Return b" and "b [NoopHandler] = Return h"
    and "run (ContextHandler h ctx) l = (Normal (), l @ l')"
    and "mset l' = mset (concat (map snd kes))"
    and "\<And>k es. (k, es) \<in> set kes \<Longrightarrow> subseq es l'"
  using runs_every_child [of kes] by fastforce

end

lemma run_stages_emits:
  "run (run_stages (map (\<lambda>kes ctx. andthen (emits (snd kes)) (Return (Some ctx))) kess) ctx) l =
     (Normal (), l @ concat (map snd kess))"
  by (induction kess arbitrary: l) auto

lemma map_emits_stage:
  "map emits_stage kes =
     stages_builder (map (\<lambda>kes. (fst kes, \<lambda>ctx. andthen (emits (snd kes)) (Return (Some ctx)))) kes)"
  by (simp add: stages_builder_def emits_stage_def o_def)

lemma subseq_concat: "x \<in> set xs \<Longrightarrow> subseq x (concat xs)"
  by (induction xs) (auto intro: list_emb_append2 subseq_order.trans)

interpretation chain_composer: builder_composer "Chain_composer :: ('c, 'e list) composer"
proof
  fix kes :: "(string \<times> 'e list) list"
  let ?cs = "map emits_stage kes :: ('c, 'e list) builder list"
  let ?b = "Chain ?cs"
  obtain h where h: "?b [NoopHandler] = Return h"
    and run: "ContextHandler h =
      run_stages (map (\<lambda>kes ctx. andthen (emits (snd kes)) (Return (Some ctx))) kes)"
    using Chain_stages [of "map (\<lambda>kes. (fst kes, \<lambda>ctx. andthen (emits (snd kes)) (Return (Some ctx)))) kes"]
    unfolding map_emits_stage by (fastforce simp: o_def)
  have sub: "\<forall>kes' \<in> set kes. subseq (snd kes') (concat (map snd kes))"
    by (metis imageI set_map subseq_concat)
  have "Chain_composer ?cs = Return ?b \<and> ?b [NoopHandler] = Return h \<and>
       (\<forall>ctx l. \<exists>l'. run (ContextHandler h ctx) l = (Normal (), l @ l') \<and>
          mset l' = mset (concat (map snd kes)) \<and> (\<forall>kes' \<in> set kes. subseq (snd kes') l'))"
    using h sub by (auto simp only: Chain_composer_def run run_stages_emits)
  then show "\<exists>b h. Chain_composer ?cs = Return b \<and> b [NoopHandler] = Return h \<and>
       (\<forall>ctx l. \<exists>l'. run (ContextHandler h ctx) l = (Normal (), l @ l') \<and>
          mset l' = mset (concat (map snd kes)) \<and> (\<forall>kes' \<in> set kes. subseq (snd kes') l'))"
    by blast
qed

lemma child_proc_emits: "child_proc ctx (emits_stage kes) = emits (snd kes)"
  by (simp add: child_proc_def emits_stage_def stage_single andthen_def)

lemma parallel_ids_stages: "parallel_ids (map emits_stage kes) = Return (map fst kes)"
  by (induction kes) (auto simp: emits_stage_def stage_single)

lemma run_rest_emits: "run (run_rest (map emits ess)) l = (Normal (), l @ concat ess)"
  by (induction ess arbitrary: l) auto

lemma mset_concat_update:
  "i < length ess \<Longrightarrow> ess ! i = e # es \<Longrightarrow>
   mset (concat ess) = add_mset e (mset (concat (ess[i := es])))"
proof (induction ess arbitrary: i)
  case (Cons x ess)
  then show ?case by (cases i) auto
qed simp

lemma interleave_emits:
  "\<exists>l'. run (interleave sch (map emits ess)) l = (Normal (), l @ l') \<and>
     mset l' = mset (concat ess) \<and> (\<forall>es \<in> set ess. subseq es l')"
proof (induction sch arbitrary: ess l)
  case Nil
  show ?case by (auto simp: run_rest_emits intro: subseq_concat)
next
  case (Cons i sch)
  show ?case
  proof (cases "i < length ess \<and> ess ! i \<noteq> []")
    case False
    then have "interleave (i # sch) (map emits ess) = interleave sch (map emits ess)"
      by auto
    with Cons show ?thesis by simp
  next
    case True
    then obtain e es where i: "i < length ess" and es: "ess ! i = e # es"
      by (cases "ess ! i") auto
    obtain l' where run: "run (interleave sch (map emits (ess[i := es]))) (l @ [e]) =
        (Normal (), (l @ [e]) @ l')"
      and ms: "mset l' = mset (concat (ess[i := es]))"
      and sub: "\<forall>fs \<in> set (ess[i := es]). subseq fs l'"
      using Cons by blast
    have "run (interleave (i # sch) (map emits ess)) l = (Normal (), l @ (e # l'))"
      using i es run by (simp add: andthen_def emit_def modify_def map_update)
    moreover have "mset (e # l') = mset (concat ess)"
      using ms mset_concat_update [OF i es] by simp
    moreover have "subseq fs (e # l')" if "fs \<in> set ess" for fs
    proof -
      from that obtain j where j: "j < length ess" and fs: "fs = ess ! j"
        by (auto simp: in_set_conv_nth)
      have "subseq (ess[i := es] ! j) l'"
        using j sub by (metis length_list_update nth_mem)
      then show ?thesis using fs es j by (cases "i = j") auto
    qed
    ultimately show ?thesis by blast
  qed
qed

interpretation parallel_composer: builder_composer "Parallel sched"
  for sched :: "'c \<Rightarrow> 'e list \<Rightarrow> nat list"
proof
  fix kes :: "(string \<times> 'e list) list"
  let ?cs = "map emits_stage kes :: ('c, 'e list) builder list"
  let ?key = "''parallel['' @ Join (map fst kes) '','' @ '']''"
  have "\<exists>l'. run (parallel_handle sched ?cs [NoopHandler] ctx) l = (Normal (), l @ l') \<and>
      mset l' = mset (concat (map snd kes)) \<and> (\<forall>kes' \<in> set kes. subseq (snd kes') l')" for ctx l
    using interleave_emits [of "sched ctx l" "map snd kes" l]
    by (auto simp: parallel_handle_def child_proc_emits o_def)
  then show "\<exists>b h. Parallel sched ?cs = Return b \<and> b [NoopHandler] = Return h \<and>
       (\<forall>ctx l. \<exists>l'. run (ContextHandler h ctx) l = (Normal (), l @ l') \<and>
          mset l' = mset (concat (map snd kes)) \<and> (\<forall>kes' \<in> set kes. subseq (snd kes') l'))"
    by (simp add: Parallel_def parallel_ids_stages)
qed

section \<open>Properties\<close>

text \<open>C1: the handler that \<open>Chain\<close> builds from a list of stages runs the stages in the order
  of the list, passes to each the context its predecessor handed on, and stops at the first
  stage that does not call its successor. It does so whatever continuation it is given.\<close>

theorem chain_runs_stages_in_order:
  "\<exists>h. Chain (stages_builder bs) next = Return h \<and> ContextHandler h = run_stages (map snd bs)"
  by (rule Chain_stages)

text \<open>C36: a \<open>Chain\<close> ignores the continuation it is given, so a \<open>Chain\<close> that is itself a child
  of a \<open>Chain\<close> drops every child after it: only the stages of the inner chain run.\<close>

theorem nested_chain_drops_rest:
  "\<exists>h. Chain (Chain (stages_builder xs) # stages_builder ys) next = Return h \<and>
       ContextHandler h = run_stages (map snd xs)"
proof -
  obtain h' where "chain_loop (rev (stages_builder ys)) NoopHandler = Return h'"
    using chain_loop_stages by blast
  then have "Chain (Chain (stages_builder xs) # stages_builder ys) next =
      Chain (stages_builder xs) [h']"
    by (simp add: Chain_def chain_loop_append)
  then show ?thesis using Chain_stages [of xs "[h']"] by simp
qed

text \<open>C16: \<open>Parallel\<close> realises exactly the interleavings of its children. A run under some
  schedule of goroutines ends in a world \<open>w'\<close> if and only if there is an interleaving of the
  children's atomic steps that completes all of them, and the continuation, started after
  that with the context \<open>Parallel\<close> was given, ends in \<open>w'\<close>.\<close>

theorem parallel_runs_all_then_next:
  "(\<exists>sched. run (parallel_handle sched children [n] ctx) w = (Normal (), w')) \<longleftrightarrow>
   (\<exists>w1. par_finishes (map (child_proc ctx) children) w w1 \<and>
         run (ContextHandler n ctx) w1 = (Normal (), w'))"
proof
  assume "\<exists>sched. run (parallel_handle sched children [n] ctx) w = (Normal (), w')"
  then obtain sched where "run (parallel_handle sched children [n] ctx) w = (Normal (), w')" ..
  then obtain w1 where
      "run (interleave (sched ctx w) (map (child_proc ctx) children)) w = (Normal (), w1)"
    and "run (ContextHandler n ctx) w1 = (Normal (), w')"
    by (cases "run (interleave (sched ctx w) (map (child_proc ctx) children)) w")
      (auto simp: parallel_handle_def split: outcome.splits)
  then show "\<exists>w1. par_finishes (map (child_proc ctx) children) w w1 \<and>
         run (ContextHandler n ctx) w1 = (Normal (), w')"
    by (meson interleave_sound)
next
  assume "\<exists>w1. par_finishes (map (child_proc ctx) children) w w1 \<and>
         run (ContextHandler n ctx) w1 = (Normal (), w')"
  then obtain w1 sch where "run (interleave sch (map (child_proc ctx) children)) w = (Normal (), w1)"
    and "run (ContextHandler n ctx) w1 = (Normal (), w')"
    using interleave_iff by metis
  then have "run (parallel_handle (\<lambda>_ _. sch) children [n] ctx) w = (Normal (), w')"
    by (simp add: parallel_handle_def)
  then show "\<exists>sched. run (parallel_handle sched children [n] ctx) w = (Normal (), w')" by blast
qed

text \<open>looking a key up in a list of handlers gives the last handler with that key, and
  \<open>MustFind\<close> panics exactly when no handler of the list has it.\<close>

theorem find_picks_last_and_must_find_panics:
  "Find hs key = find (\<lambda>h. hid h = key) (rev hs) \<and>
   ((\<exists>m. MustFind hs key = Panic m) \<longleftrightarrow> key \<notin> hid ` set hs)"
proof -
  have "(\<exists>m. MustFind hs key = Panic m) \<longleftrightarrow> Find hs key = None"
    by (auto simp: MustFind_def split: option.splits)
  then show ?thesis by (simp add: Find_last Find_None_iff [symmetric])
qed

end
