(* ===== verification/Typed_Context.thy ===== *)
theory Typed_Context
  imports Handler
begin

text \<open>
  The package \<open>typedctx\<close> (typedctx/context.go): typed keys for values stored in a
  \<open>context.Context\<close>. A context is the chain of \<open>context.WithValue\<close> calls, innermost first;
  a key is an interface value that holds a pointer, compared by dynamic type and address.
  A type parameter \<open>V\<close> is passed as a descriptor: how its values are stored in an interface
  (\<open>None\<close> is the nil interface), the type assertion, and the zero value.
\<close>

section \<open>Contexts and types\<close>

type_synonym addr = nat

datatype ctx_key = KeyPtr (key_type: string) (key_addr: "addr option")

type_synonym 'd goctx = "(ctx_key \<times> 'd option) list"

record ('v, 'd) gotype =
  tname :: string
  to_any :: "'v \<Rightarrow> 'd option"
  of_any :: "'d \<Rightarrow> 'v option"
  zero_val :: 'v

definition Background :: "'d goctx" where
  "Background = []"

definition ctx_WithValue :: "'d goctx \<Rightarrow> ctx_key \<Rightarrow> 'd option \<Rightarrow> 'd goctx" where
  "ctx_WithValue ctx key v = (key, v) # ctx"

definition ctx_Value :: "'d goctx \<Rightarrow> ctx_key \<Rightarrow> 'd option" where
  "ctx_Value ctx key = (case map_of ctx key of None \<Rightarrow> None | Some v \<Rightarrow> v)"

definition type_assert :: "('v, 'd) gotype \<Rightarrow> 'd option \<Rightarrow> 'v option" where
  "type_assert T x = (case x of None \<Rightarrow> None | Some d \<Rightarrow> of_any T d)"

text \<open>A value that survives being stored in an interface and asserted back: every value
  but a nil interface.\<close>

definition storable :: "('v, 'd) gotype \<Rightarrow> 'v \<Rightarrow> bool" where
  "storable T v \<longleftrightarrow> type_assert T (to_any T v) = Some v"

lemma ctx_Value_WithValue [simp]:
  "ctx_Value (ctx_WithValue ctx k v) k' = (if k' = k then v else ctx_Value ctx k')"
  by (simp add: ctx_Value_def ctx_WithValue_def)

section \<open>Key\<close>

text \<open>\<open>NewKey\<close> takes the address of a zero-size struct. The language lets two such addresses
  be equal or not: \<open>shared\<close> says that the allocator hands out one address for all of them
  (the gc toolchain does, \<open>runtime.zerobase\<close>), otherwise each call gets a fresh one.\<close>

definition zerobase :: addr where
  "zerobase = 0"

definition NewKey :: "bool \<Rightarrow> ('v, 'd) gotype \<Rightarrow> addr \<Rightarrow> ctx_key \<times> addr" where
  "NewKey shared T n =
     (let ty = ''*typedctx.Key['' @ tname T @ '']'' in
      if shared then (KeyPtr ty (Some zerobase), n) else (KeyPtr ty (Some n), Suc n))"

definition Key_WithValue :: "('v, 'd) gotype \<Rightarrow> ctx_key \<Rightarrow> 'd goctx \<Rightarrow> 'v \<Rightarrow> 'd goctx" where
  "Key_WithValue T k ctx v = ctx_WithValue ctx k (to_any T v)"

definition Key_Value :: "('v, 'd) gotype \<Rightarrow> ctx_key \<Rightarrow> 'd goctx \<Rightarrow> 'v option" where
  "Key_Value T k ctx = type_assert T (ctx_Value ctx k)"

definition Key_MustValue :: "('v, 'd) gotype \<Rightarrow> ctx_key \<Rightarrow> 'd goctx \<Rightarrow> ('v, 'w) proc" where
  "Key_MustValue T k ctx =
     (case Key_Value T k ctx of
        None \<Rightarrow> Panic (''could not find value for key '' @ key_type k @ '' in context'')
      | Some v \<Rightarrow> Return v)"

section \<open>DefaultingKey\<close>

record 'v defaulting_key =
  dk_ptr :: ctx_key
  dk_default :: 'v

definition WithDefault :: "('v, 'd) gotype \<Rightarrow> 'v \<Rightarrow> addr \<Rightarrow> 'v defaulting_key \<times> addr" where
  "WithDefault T v n =
     (\<lparr>dk_ptr = KeyPtr (''*typedctx.DefaultingKey['' @ tname T @ '']'') (Some n), dk_default = v\<rparr>,
      Suc n)"

definition Defaulting_WithValue ::
    "('v, 'd) gotype \<Rightarrow> 'v defaulting_key \<Rightarrow> 'd goctx \<Rightarrow> 'v \<Rightarrow> 'd goctx" where
  "Defaulting_WithValue T k ctx v = ctx_WithValue ctx (dk_ptr k) (to_any T v)"

definition Defaulting_Value :: "('v, 'd) gotype \<Rightarrow> 'v defaulting_key \<Rightarrow> 'd goctx \<Rightarrow> 'v" where
  "Defaulting_Value T k ctx =
     (case type_assert T (ctx_Value ctx (dk_ptr k)) of None \<Rightarrow> dk_default k | Some v \<Rightarrow> v)"

definition Defaulting_MustValue ::
    "('v, 'd) gotype \<Rightarrow> 'v defaulting_key \<Rightarrow> 'd goctx \<Rightarrow> ('v, 'w) proc" where
  "Defaulting_MustValue T k ctx =
     (let v = (case type_assert T (ctx_Value ctx (dk_ptr k)) of None \<Rightarrow> dk_default k | Some v \<Rightarrow> v)
      in if v = zero_val T
         then Panic (''could not find non-nil value for key '' @ key_type (dk_ptr k) @ '' in context'')
         else Return v)"

section \<open>BoxedKey\<close>

text \<open>Boxes live in the heap, which is a part of the world beside the rest \<open>'x\<close> of it. The
  descriptor of \<open>*Box[V]\<close> stores addresses.\<close>

record ('v, 'x) box_world =
  box_val :: "addr \<Rightarrow> 'v"
  next_box :: addr
  rest :: 'x

record 'v boxed_key =
  bk_ptr :: ctx_key
  bk_default :: 'v

definition Boxed :: "('v, 'd) gotype \<Rightarrow> 'v \<Rightarrow> addr \<Rightarrow> 'v boxed_key \<times> addr" where
  "Boxed T v n =
     (\<lparr>bk_ptr = KeyPtr (''*typedctx.BoxedKey['' @ tname T @ '']'') (Some n), bk_default = v\<rparr>, Suc n)"

definition new_box :: "'v \<Rightarrow> (addr, ('v, 'x) box_world) proc" where
  "new_box v = act (\<lambda>w. (next_box w,
     w\<lparr>box_val := (box_val w)(next_box w := v), next_box := Suc (next_box w)\<rparr>))"

definition Boxed_WithValue ::
    "(addr, 'd) gotype \<Rightarrow> 'v boxed_key \<Rightarrow> 'd goctx \<Rightarrow> 'v \<Rightarrow> ('d goctx, ('v, 'x) box_world) proc" where
  "Boxed_WithValue TB k ctx v =
     (case type_assert TB (ctx_Value ctx (bk_ptr k)) of
        Some handle \<Rightarrow>
          andthen (modify (\<lambda>w. w\<lparr>box_val := (box_val w)(handle := v)\<rparr>)) (Return ctx)
      | None \<Rightarrow>
          bind (new_box v) (\<lambda>a. Return (ctx_WithValue ctx (bk_ptr k) (to_any TB a))))"

definition Boxed_WithBox ::
    "(addr, 'd) gotype \<Rightarrow> 'v boxed_key \<Rightarrow> 'd goctx \<Rightarrow> ('d goctx, ('v, 'x) box_world) proc" where
  "Boxed_WithBox TB k ctx =
     bind (new_box (bk_default k)) (\<lambda>a. Return (ctx_WithValue ctx (bk_ptr k) (to_any TB a)))"

definition Boxed_Value ::
    "(addr, 'd) gotype \<Rightarrow> 'v boxed_key \<Rightarrow> 'd goctx \<Rightarrow> ('v, ('v, 'x) box_world) proc" where
  "Boxed_Value TB k ctx =
     (case type_assert TB (ctx_Value ctx (bk_ptr k)) of
        None \<Rightarrow> Return (bk_default k)
      | Some handle \<Rightarrow> gets (\<lambda>w. box_val w handle))"

definition Boxed_MustValue ::
    "(addr, 'd) gotype \<Rightarrow> 'v boxed_key \<Rightarrow> 'd goctx \<Rightarrow> ('v, ('v, 'x) box_world) proc" where
  "Boxed_MustValue TB k ctx = Boxed_Value TB k ctx"

definition BoxBuilder ::
    "(addr, 'd) gotype \<Rightarrow> 'v boxed_key \<Rightarrow> string \<Rightarrow> ('d goctx, ('v, 'x) box_world) builder" where
  "BoxBuilder TB k key next =
     Return (NewHandlerFromFunc (\<lambda>ctx.
       bind (Boxed_WithBox TB k ctx) (\<lambda>ctx'.
         bind (MustOne next) (\<lambda>n. ContextHandler n ctx'))) key)"

section \<open>The interface of a settable context key\<close>

text \<open>The Go interfaces \<open>SettableContext\<close> and \<open>MustValueContext\<close> as clients use them (the
  finalizer, adoption and component handlers): a value stored under the key is the value
  read from the new context. \<open>ok\<close> are the values the key can hold, \<open>inv\<close> relates the
  context to the world it lives in.\<close>

locale settable_context =
  fixes withValue :: "'c \<Rightarrow> 'v \<Rightarrow> ('c, 'w) proc"
    and mustValue :: "'c \<Rightarrow> ('v, 'w) proc"
    and ok :: "'v \<Rightarrow> bool"
    and inv :: "'c \<Rightarrow> 'w \<Rightarrow> bool"
  assumes set_get: "ok v \<Longrightarrow> inv c w \<Longrightarrow>
      \<exists>c' w'. run (withValue c v) w = (Normal c', w') \<and> inv c' w' \<and>
              run (mustValue c') w' = (Normal v, w')"
begin

lemma set_set_get:
  assumes "ok v" and "ok v'" and "inv c w"
  shows "fst (run (bind (withValue c v) (\<lambda>c1. bind (withValue c1 v') mustValue)) w) = Normal v'"
proof -
  obtain c1 w1 where 1: "run (withValue c v) w = (Normal c1, w1)" and inv1: "inv c1 w1"
    using set_get assms by blast
  obtain c2 w2 where "run (withValue c1 v') w1 = (Normal c2, w2)"
    and "run (mustValue c2) w2 = (Normal v', w2)"
    using set_get [OF assms(2) inv1] by blast
  with 1 show ?thesis by simp
qed

end

lemma type_assert_storable [simp]: "storable T v \<Longrightarrow> type_assert T (to_any T v) = Some v"
  by (simp add: storable_def)

interpretation key_context: settable_context
    "\<lambda>ctx v. Return (Key_WithValue T k ctx v)" "Key_MustValue T k"
    "storable T" "\<lambda>_ _. True"
  for T :: "('v, 'd) gotype" and k
  by unfold_locales (simp add: Key_WithValue_def Key_MustValue_def Key_Value_def)

interpretation defaulting_context: settable_context
    "\<lambda>ctx v. Return (Defaulting_WithValue T k ctx v)" "Defaulting_MustValue T k"
    "\<lambda>v. storable T v \<and> v \<noteq> zero_val T" "\<lambda>_ _. True"
  for T :: "('v, 'd) gotype" and k
  by unfold_locales (simp add: Defaulting_WithValue_def Defaulting_MustValue_def)

text \<open>The box a context holds for a key has been allocated.\<close>

definition box_inv :: "(addr, 'd) gotype \<Rightarrow> ctx_key \<Rightarrow> 'd goctx \<Rightarrow> ('v, 'x) box_world \<Rightarrow> bool" where
  "box_inv TB k ctx w \<longleftrightarrow>
     (\<forall>a. type_assert TB (ctx_Value ctx k) = Some a \<longrightarrow> a < next_box w)"

definition boxes_storable :: "(addr, 'd) gotype \<Rightarrow> bool" where
  "boxes_storable TB \<longleftrightarrow> (\<forall>a. storable TB a)"

lemma run_new_box [simp]:
  "run (new_box v) w = (Normal (next_box w),
     w\<lparr>box_val := (box_val w)(next_box w := v), next_box := Suc (next_box w)\<rparr>)"
  by (simp add: new_box_def)

lemma run_WithBox:
  "run (Boxed_WithBox TB k ctx) w =
     (Normal (ctx_WithValue ctx (bk_ptr k) (to_any TB (next_box w))),
      w\<lparr>box_val := (box_val w)(next_box w := bk_default k), next_box := Suc (next_box w)\<rparr>)"
  by (simp add: Boxed_WithBox_def)

interpretation boxed_context: settable_context
    "Boxed_WithValue TB k" "Boxed_MustValue TB k"
    "\<lambda>_. boxes_storable TB" "box_inv TB (bk_ptr k)"
  for TB :: "(addr, 'd) gotype" and k :: "'v boxed_key"
  by unfold_locales
    (auto simp: Boxed_WithValue_def Boxed_MustValue_def Boxed_Value_def box_inv_def
      boxes_storable_def split: option.split)

section \<open>Properties\<close>

text \<open>C39: the boxed-context idiom. After \<open>WithBox\<close>, a value that a callee stores through its
  own copy of the context is read by the caller from the context it kept, and a box opened
  for another key in between is not affected.\<close>

theorem boxed_value_reaches_caller:
  assumes "boxes_storable TB" and "bk_ptr k \<noteq> bk_ptr k'"
  shows "\<exists>w'. run (bind (Boxed_WithBox TB k ctx) (\<lambda>c.
            bind (Boxed_WithBox TB k' c) (\<lambda>c'.
              bind (Boxed_WithValue TB k c' v) (\<lambda>_.
                bind (Boxed_MustValue TB k c) (\<lambda>got.
                  bind (Boxed_MustValue TB k' c') (\<lambda>other. Return (got, other))))))) w
          = (Normal (v, bk_default k'), w')"
  using assms
  by (auto simp: run_WithBox Boxed_WithValue_def Boxed_MustValue_def Boxed_Value_def
      boxes_storable_def)

text \<open>keys made by \<open>NewKey\<close> for one type are not distinct in general. Where the allocator
  gives all zero-size structs one address, a value stored under the first key is found under
  the second; where it does not, the second key is unaffected.\<close>

theorem two_keys_of_one_type:
  assumes "storable T v" and "NewKey shared T n = (k1, n1)" and "NewKey shared T n1 = (k2, n2)"
  shows "Key_Value T k2 (Key_WithValue T k1 ctx v) =
           (if shared then Some v else Key_Value T k2 ctx)"
  using assms
  by (auto simp: NewKey_def Key_Value_def Key_WithValue_def Let_def split: if_splits)

text \<open>what \<open>Value\<close> and \<open>MustValue\<close> of a defaulting key return in every case: a stored
  value wins over the default, a missing one falls back to it, and \<open>MustValue\<close> panics exactly
  when the result is the zero value of the type, even when that zero value was stored.\<close>

theorem defaulting_key_read:
  "Defaulting_Value T k ctx = (case Key_Value T (dk_ptr k) ctx of None \<Rightarrow> dk_default k | Some v \<Rightarrow> v) \<and>
   (Defaulting_MustValue T k ctx :: ('v, 'w) proc) =
     (if Defaulting_Value T k ctx = zero_val T
      then Panic (''could not find non-nil value for key '' @ key_type (dk_ptr k) @ '' in context'')
      else Return (Defaulting_Value T k ctx))"
  by (simp add: Defaulting_Value_def Defaulting_MustValue_def Key_Value_def Let_def)

section \<open>Witnesses\<close>

text \<open>A universe of dynamic values with one type of strings and one of boxes.\<close>

datatype demo_any = AnyStr string | AnyBox addr

definition demo_string :: "(string, demo_any) gotype" where
  "demo_string = \<lparr>tname = ''string'', to_any = (\<lambda>s. Some (AnyStr s)),
     of_any = (\<lambda>d. case d of AnyStr s \<Rightarrow> Some s | AnyBox _ \<Rightarrow> None), zero_val = ''''\<rparr>"

definition demo_box :: "(addr, demo_any) gotype" where
  "demo_box = \<lparr>tname = ''*typedctx.Box[string]'', to_any = (\<lambda>a. Some (AnyBox a)),
     of_any = (\<lambda>d. case d of AnyBox a \<Rightarrow> Some a | AnyStr _ \<Rightarrow> None), zero_val = 0\<rparr>"

lemma storable_demo_string [simp]: "storable demo_string s"
  by (simp add: storable_def demo_string_def type_assert_def)

lemma boxes_storable_demo [simp]: "boxes_storable demo_box"
  by (simp add: boxes_storable_def storable_def demo_box_def type_assert_def)

theorem boxed_value_reaches_caller_witness:
  "\<exists>w'. run (bind (Boxed_WithBox demo_box \<lparr>bk_ptr = KeyPtr ''k'' (Some 1), bk_default = ''''\<rparr> Background) (\<lambda>c.
            bind (Boxed_WithBox demo_box \<lparr>bk_ptr = KeyPtr ''k'' (Some 2), bk_default = ''other''\<rparr> c) (\<lambda>c'.
              bind (Boxed_WithValue demo_box \<lparr>bk_ptr = KeyPtr ''k'' (Some 1), bk_default = ''''\<rparr> c' ''value'') (\<lambda>_.
                bind (Boxed_MustValue demo_box \<lparr>bk_ptr = KeyPtr ''k'' (Some 1), bk_default = ''''\<rparr> c) (\<lambda>got.
                  bind (Boxed_MustValue demo_box \<lparr>bk_ptr = KeyPtr ''k'' (Some 2), bk_default = ''other''\<rparr> c') (\<lambda>other.
                    Return (got, other)))))))
         \<lparr>box_val = (\<lambda>_. ''''), next_box = 0, rest = ()\<rparr>
       = (Normal (''value'', ''other''), w')"
  using boxed_value_reaches_caller
    [of demo_box "\<lparr>bk_ptr = KeyPtr ''k'' (Some 1), bk_default = ''''\<rparr>"
      "\<lparr>bk_ptr = KeyPtr ''k'' (Some 2), bk_default = ''other''\<rparr>" Background "''value''"
      "\<lparr>box_val = (\<lambda>_. ''''), next_box = 0, rest = ()\<rparr>"]
  by (simp only: boxes_storable_demo boxed_key.select_convs ctx_key.inject) simp

theorem two_keys_of_one_type_witness:
  "Key_Value demo_string (KeyPtr ''*typedctx.Key[string]'' (Some 0))
     (Key_WithValue demo_string (KeyPtr ''*typedctx.Key[string]'' (Some 0)) Background ''a'') = Some ''a'' \<and>
   Key_Value demo_string (KeyPtr ''*typedctx.Key[string]'' (Some 1))
     (Key_WithValue demo_string (KeyPtr ''*typedctx.Key[string]'' (Some 0)) Background ''a'') =
   Key_Value demo_string (KeyPtr ''*typedctx.Key[string]'' (Some 1)) Background"
  using two_keys_of_one_type [OF storable_demo_string, of True 0 _ _ _ _ Background "''a''"]
    two_keys_of_one_type [OF storable_demo_string, of False 0 _ _ _ _ Background "''a''"]
  by (simp add: NewKey_def zerobase_def demo_string_def)

end
