(* ===== verification/Middleware.thy ===== *)
theory Middleware
  imports Handler "HOL-Library.Word"
begin

text \<open>
  The package \<open>middleware\<close>: wrapping of the builders a composer receives
  (middleware/middleware.go), the logging middleware and the random sync ids
  (middleware/logging.go). The logger found in a context is a parameter.
\<close>

section \<open>Middleware for builders and composers\<close>

type_synonym ('c, 'w) handler_middleware = "('c, 'w) handler \<Rightarrow> (('c, 'w) handler, 'w) proc"

type_synonym ('c, 'w) middleware = "('c, 'w) composer \<Rightarrow> ('c, 'w) composer"

definition MakeBuilderMiddleware ::
    "('c, 'w) handler_middleware \<Rightarrow> ('c, 'w) builder \<Rightarrow> ('c, 'w) builder" where
  "MakeBuilderMiddleware w inb = (\<lambda>next. bind (inb next) w)"

definition MakeMiddleware :: "('c, 'w) handler_middleware \<Rightarrow> ('c, 'w) middleware" where
  "MakeMiddleware w f = (\<lambda>builders. f (map (MakeBuilderMiddleware w) builders))"

definition WithMiddleware :: "('c, 'w) composer \<Rightarrow> ('c, 'w) middleware list \<Rightarrow> ('c, 'w) composer" where
  "WithMiddleware composer ms = fold (\<lambda>m out. m out) ms composer"

definition ChainWithMiddleware :: "('c, 'w) middleware list \<Rightarrow> ('c, 'w) composer" where
  "ChainWithMiddleware ms = WithMiddleware Chain_composer ms"

definition ParallelWithMiddleware ::
    "('c \<Rightarrow> 'w \<Rightarrow> nat list) \<Rightarrow> ('c, 'w) middleware list \<Rightarrow> ('c, 'w) composer" where
  "ParallelWithMiddleware sched ms = WithMiddleware (Parallel sched) ms"

section \<open>Logging\<close>

text \<open>\<open>logInfo ctx level id\<close> is the log call: the logger found in the context, with the value
  \<open>handler\<close> set to the id, at a level.\<close>

definition HandlerLoggingMiddleware ::
    "('c \<Rightarrow> int \<Rightarrow> string \<Rightarrow> (unit, 'w) proc) \<Rightarrow> int \<Rightarrow> ('c, 'w) handler_middleware" where
  "HandlerLoggingMiddleware logInfo level inh =
     Return (NewHandlerFromFunc (\<lambda>ctx.
       andthen (logInfo ctx level (ID inh)) (ContextHandler inh ctx)) (ID inh))"

definition NewHandlerLoggingMiddleware ::
    "('c \<Rightarrow> int \<Rightarrow> string \<Rightarrow> (unit, 'w) proc) \<Rightarrow> int \<Rightarrow> ('c, 'w) middleware" where
  "NewHandlerLoggingMiddleware logInfo level = MakeMiddleware (HandlerLoggingMiddleware logInfo level)"

section \<open>Sync ids\<close>

text \<open>The standard base64 alphabet and encoding with padding (\<open>base64.StdEncoding\<close>), on bytes
  given as numbers.\<close>

definition b64_alphabet :: string where
  "b64_alphabet = ''ABCDEFGHIJKLMNOPQRSTUVWXYZabcdefghijklmnopqrstuvwxyz0123456789+/''"

definition b64 :: "nat \<Rightarrow> char" where
  "b64 n = b64_alphabet ! (n mod 64)"

fun EncodeToString :: "nat list \<Rightarrow> string" where
  "EncodeToString [] = []"
| "EncodeToString [a] = [b64 (a div 4), b64 ((a mod 4) * 16), CHR ''='', CHR ''='']"
| "EncodeToString [a, b] =
     [b64 (a div 4), b64 ((a mod 4) * 16 + b div 16), b64 ((b mod 16) * 4), CHR ''='']"
| "EncodeToString (a # b # c # xs) =
     [b64 (a div 4), b64 ((a mod 4) * 16 + b div 16), b64 ((b mod 16) * 4 + c div 64), b64 c]
     @ EncodeToString xs"

text \<open>\<open>rand.Read\<close> is a parameter: it overwrites the buffer it is given.\<close>

definition NewSyncID :: "(nat list \<Rightarrow> nat list) \<Rightarrow> 8 word \<Rightarrow> (string, 'w) proc" where
  "NewSyncID rand_Read sz =
     (let buf = replicate (unat sz) 0; str = EncodeToString (rand_Read buf)
      in if unat sz \<le> length str then Return (take (unat sz) str)
         else Panic ''slice bounds out of range'')"

definition rand_Read_fills :: "(nat list \<Rightarrow> nat list) \<Rightarrow> bool" where
  "rand_Read_fills rand_Read \<longleftrightarrow> (\<forall>buf. length (rand_Read buf) = length buf)"

lemma length_EncodeToString: "length (EncodeToString xs) = 4 * ((length xs + 2) div 3)"
proof (induction xs rule: EncodeToString.induct)
  case (4 a b c xs)
  have "(length (a # b # c # xs) + 2) div 3 = Suc ((length xs + 2) div 3)"
    by simp
  with 4 show ?case by simp
qed simp_all

section \<open>Composition of middleware\<close>

lemma WithMiddleware_Nil [simp]: "WithMiddleware f [] = f"
  by (simp add: WithMiddleware_def)

lemma WithMiddleware_Cons [simp]: "WithMiddleware f (m # ms) = WithMiddleware (m f) ms"
  by (simp add: WithMiddleware_def)

lemma WithMiddleware_map:
  "WithMiddleware f (map MakeMiddleware ws) bs = f (map (foldr MakeBuilderMiddleware ws) bs)"
proof (induction ws arbitrary: f)
  case Nil
  show ?case by simp
next
  case (Cons w ws)
  then show ?case by (simp add: MakeMiddleware_def o_def)
qed

lemma logged_emits_stage:
  "MakeBuilderMiddleware (HandlerLoggingMiddleware (\<lambda>_ _ key. emit (entering key)) level) (emits_stage (key, es))
   = emits_stage (key, entering key # es)"
proof (rule ext)
  fix hs
  show "MakeBuilderMiddleware (HandlerLoggingMiddleware (\<lambda>_ _ key. emit (entering key)) level)
      (emits_stage (key, es)) hs = emits_stage (key, entering key # es) hs"
    by (cases "length hs = 1")
      (simp_all add: MakeBuilderMiddleware_def HandlerLoggingMiddleware_def emits_stage_def stage_def
        MustOne_def andthen_def)
qed

context builder_composer
begin

lemma logs_each_entry:
  "\<exists>b h. WithMiddleware compose [NewHandlerLoggingMiddleware (\<lambda>_ _ key. emit (entering key)) level]
           (map emits_stage kes) = Return b \<and> b [NoopHandler] = Return h \<and>
     (\<forall>ctx l. \<exists>l'. run (ContextHandler h ctx) l = (Normal (), l @ l') \<and>
        mset l' = mset (concat (map (\<lambda>(key, es). entering key # es) kes)) \<and>
        (\<forall>(key, es) \<in> set kes. subseq (entering key # es) l'))"
proof -
  let ?kes = "map (\<lambda>(key, es). (key, entering key # es)) kes"
  have "WithMiddleware compose [NewHandlerLoggingMiddleware (\<lambda>_ _ key. emit (entering key)) level]
      (map emits_stage kes) = compose (map emits_stage ?kes)"
    by (auto simp: NewHandlerLoggingMiddleware_def MakeMiddleware_def logged_emits_stage
        intro!: arg_cong [of _ _ compose])
  then show ?thesis
    using runs_every_child [of ?kes] by (fastforce simp: o_def split_def)
qed

end

section \<open>Properties\<close>

text \<open>composing a list of middlewares wraps each child builder with all of them, the first
  middleware of the list outermost, and hands the wrapped children to the composer once.\<close>

theorem with_middleware_nests_in_order:
  "WithMiddleware composer (map MakeMiddleware ws) builders =
     composer (map (\<lambda>b next. foldr (\<lambda>w p. bind p w) ws (b next)) builders)"
proof -
  have "foldr MakeBuilderMiddleware ws b = (\<lambda>next. foldr (\<lambda>w p. bind p w) ws (b next))"
    for b
    by (induction ws) (simp_all add: MakeBuilderMiddleware_def)
  then have "map (foldr MakeBuilderMiddleware ws) builders =
      map (\<lambda>b next. foldr (\<lambda>w p. bind p w) ws (b next)) builders"
    by (intro map_cong) auto
  then show ?thesis by (simp only: WithMiddleware_map)
qed

text \<open>with the logging middleware, a \<open>Parallel\<close> of logging stages writes, under every
  schedule, exactly one entry record per child and all of the child's own records, and the
  entry record of a child comes before the child's own records.\<close>

theorem parallel_with_logging_logs_each_entry:
  "\<exists>b h. ParallelWithMiddleware sched
           [NewHandlerLoggingMiddleware (\<lambda>_ _ key. emit (entering key)) level]
           (map emits_stage kes) = Return b \<and> b [NoopHandler] = Return h \<and>
     (\<forall>ctx l. \<exists>l'. run (ContextHandler h ctx) l = (Normal (), l @ l') \<and>
        mset l' = mset (concat (map (\<lambda>(key, es). entering key # es) kes)) \<and>
        (\<forall>(key, es) \<in> set kes. subseq (entering key # es) l'))"
  unfolding ParallelWithMiddleware_def by (rule parallel_composer.logs_each_entry)

theorem parallel_with_logging_logs_each_entry_witness:
  "\<exists>b h. ParallelWithMiddleware (\<lambda>_ _. [1, 0])
           [NewHandlerLoggingMiddleware (\<lambda>_ _ key. emit (''enter '' @ key)) 4]
           (map emits_stage [(''a'', [''x'']), (''b'', [''y''])]) = Return b \<and>
     b [NoopHandler :: (unit, string list) handler] = Return h \<and>
     (\<exists>l'. run (ContextHandler h ()) [] = (Normal (), [] @ l') \<and>
        mset l' = {#''enter a'', ''x'', ''enter b'', ''y''#} \<and>
        subseq [''enter a'', ''x''] l' \<and> subseq [''enter b'', ''y''] l')"
proof -
  let ?kes = "[(''a'', [''x'']), (''b'', [''y''])]"
  have "concat (map (\<lambda>(key, es). (''enter '' @ key) # es) ?kes) = [''enter a'', ''x'', ''enter b'', ''y'']"
    by simp
  then show ?thesis
    using parallel_with_logging_logs_each_entry
      [of "\<lambda>(_ :: unit) _. [1, 0]" "\<lambda>key. ''enter '' @ key" 4 ?kes]
    by fastforce
qed

text \<open>\<open>NewSyncID\<close> returns a string of exactly the requested length for every size; the
  slice of the encoded buffer is never out of range.\<close>

theorem new_sync_id_length:
  assumes "rand_Read_fills rand_Read"
  shows "\<exists>s. NewSyncID rand_Read sz = Return s \<and> length s = unat sz"
proof -
  let ?str = "EncodeToString (rand_Read (replicate (unat sz) 0))"
  have "length ?str = 4 * ((unat sz + 2) div 3)"
    using assms by (simp add: rand_Read_fills_def length_EncodeToString)
  then have "unat sz \<le> length ?str" by presburger
  then show ?thesis by (simp add: NewSyncID_def Let_def)
qed

theorem new_sync_id_length_witness:
  "\<exists>s. NewSyncID (map (\<lambda>_. 77)) (5 :: 8 word) = Return s \<and> length s = 5"
  using new_sync_id_length [of "map (\<lambda>_. 77)" 5] by (simp add: rand_Read_fills_def)

end
