(* ===== verification/Queue.thy ===== *)
theory Queue
  imports Typed_Context
begin

text \<open>
  The package \<open>queue\<close>: the per-key queue controls \<open>Operations\<close> and their context wrapper
  (queue/controls.go), and the classification of API errors (queue/retry.go). Durations are
  Go \<open>int64\<close> nanoseconds, given as integers with the wrap-around of the multiplication
  written out. Log calls are not modelled.
\<close>

section \<open>Retry\<close>

text \<open>The predicates of the apimachinery packages on errors; \<open>SuggestsClientDelay\<close> returns
  seconds and whether a delay was suggested.\<close>

record api_errors =
  SuggestsClientDelay :: "error option \<Rightarrow> int \<times> bool"
  IsConnectionReset :: "error option \<Rightarrow> bool"
  IsInternalError :: "error option \<Rightarrow> bool"
  IsTimeout :: "error option \<Rightarrow> bool"
  IsServerTimeout :: "error option \<Rightarrow> bool"
  IsTooManyRequests :: "error option \<Rightarrow> bool"
  IsUnexpectedServerError :: "error option \<Rightarrow> bool"

definition wrap64 :: "int \<Rightarrow> int" where
  "wrap64 x = (x + 2 ^ 63) mod 2 ^ 64 - 2 ^ 63"

definition Second :: int where
  "Second = 1000000000"

definition ShouldRetry :: "api_errors \<Rightarrow> error option \<Rightarrow> bool \<times> int" where
  "ShouldRetry api err =
     (let (seconds, shouldRetry) = SuggestsClientDelay api err in
      if shouldRetry then (True, wrap64 (seconds * Second))
      else if IsConnectionReset api err \<or> IsInternalError api err \<or> IsTimeout api err \<or>
              IsServerTimeout api err \<or> IsTooManyRequests api err \<or> IsUnexpectedServerError api err
           then (True, 0)
      else (False, 0))"

section \<open>Operations\<close>

text \<open>The struct \<open>Operations\<close>: three closures and the field \<open>err\<close>, which the methods write
  through the pointer. The field is given by how it is read from and written to the world.\<close>

record 'w Operations =
  op_done :: "(unit, 'w) proc"
  op_requeueAfter :: "int \<Rightarrow> (unit, 'w) proc"
  op_cancel :: "(unit, 'w) proc"
  op_err :: "'w \<Rightarrow> error option"
  op_set_err :: "error option \<Rightarrow> 'w \<Rightarrow> 'w"

definition NewOperations ::
    "(unit, 'w) proc \<Rightarrow> (int \<Rightarrow> (unit, 'w) proc) \<Rightarrow> (unit, 'w) proc \<Rightarrow>
     ('w \<Rightarrow> error option) \<Rightarrow> (error option \<Rightarrow> 'w \<Rightarrow> 'w) \<Rightarrow> 'w Operations" where
  "NewOperations done requeueAfter cancel getErr setErr =
     \<lparr>op_done = done, op_requeueAfter = requeueAfter, op_cancel = cancel,
      op_err = getErr, op_set_err = setErr\<rparr>"

definition Operations_Done :: "'w Operations \<Rightarrow> (unit, 'w) proc" where
  "Operations_Done c = deferred (op_done c) (op_cancel c)"

definition Operations_RequeueAfter :: "'w Operations \<Rightarrow> int \<Rightarrow> (unit, 'w) proc" where
  "Operations_RequeueAfter c duration = deferred (op_requeueAfter c duration) (op_cancel c)"

definition Operations_Requeue :: "'w Operations \<Rightarrow> (unit, 'w) proc" where
  "Operations_Requeue c = deferred (op_requeueAfter c 0) (op_cancel c)"

definition Operations_RequeueErr :: "'w Operations \<Rightarrow> error option \<Rightarrow> (unit, 'w) proc" where
  "Operations_RequeueErr c err =
     deferred (andthen (modify (op_set_err c err)) (op_requeueAfter c 0)) (op_cancel c)"

definition Operations_RequeueAPIErr ::
    "api_errors \<Rightarrow> 'w Operations \<Rightarrow> error option \<Rightarrow> (unit, 'w) proc" where
  "Operations_RequeueAPIErr api c err =
     deferred
       (andthen (modify (op_set_err c err))
         (let (retry, after) = ShouldRetry api err in
          andthen (if retry \<and> 0 < after then Operations_RequeueAfter c after else Return ())
            (andthen (if retry then Operations_Requeue c else Return ())
              (Operations_Done c))))
       (op_cancel c)"

definition Operations_Error :: "'w Operations \<Rightarrow> (error option, 'w) proc" where
  "Operations_Error c = gets (op_err c)"

section \<open>The interface and its context wrapper\<close>

record 'w queue_iface =
  qDone :: "(unit, 'w) proc"
  qRequeueAfter :: "int \<Rightarrow> (unit, 'w) proc"
  qRequeue :: "(unit, 'w) proc"
  qRequeueErr :: "error option \<Rightarrow> (unit, 'w) proc"
  qRequeueAPIErr :: "error option \<Rightarrow> (unit, 'w) proc"
  qError :: "(error option, 'w) proc"

definition Operations_iface :: "api_errors \<Rightarrow> 'w Operations \<Rightarrow> 'w queue_iface" where
  "Operations_iface api c =
     \<lparr>qDone = Operations_Done c, qRequeueAfter = Operations_RequeueAfter c,
      qRequeue = Operations_Requeue c, qRequeueErr = Operations_RequeueErr c,
      qRequeueAPIErr = Operations_RequeueAPIErr api c, qError = Operations_Error c\<rparr>"

text \<open>\<open>NewQueueOperationsCtx\<close> leaves the embedded \<open>*typedctx.Key\<close> nil; a typed nil pointer is a
  legal context key.\<close>

definition NewQueueOperationsCtx :: ctx_key where
  "NewQueueOperationsCtx = KeyPtr ''*typedctx.Key[queue.Interface]'' None"

definition OpsCtx_Done :: "('w queue_iface, 'd) gotype \<Rightarrow> ctx_key \<Rightarrow> 'd goctx \<Rightarrow> (unit, 'w) proc" where
  "OpsCtx_Done T h ctx = bind (Key_MustValue T h ctx) qDone"

definition OpsCtx_RequeueAfter ::
    "('w queue_iface, 'd) gotype \<Rightarrow> ctx_key \<Rightarrow> 'd goctx \<Rightarrow> int \<Rightarrow> (unit, 'w) proc" where
  "OpsCtx_RequeueAfter T h ctx duration = bind (Key_MustValue T h ctx) (\<lambda>q. qRequeueAfter q duration)"

definition OpsCtx_Requeue :: "('w queue_iface, 'd) gotype \<Rightarrow> ctx_key \<Rightarrow> 'd goctx \<Rightarrow> (unit, 'w) proc" where
  "OpsCtx_Requeue T h ctx = bind (Key_MustValue T h ctx) qRequeue"

definition OpsCtx_RequeueErr ::
    "('w queue_iface, 'd) gotype \<Rightarrow> ctx_key \<Rightarrow> 'd goctx \<Rightarrow> error option \<Rightarrow> (unit, 'w) proc" where
  "OpsCtx_RequeueErr T h ctx err = bind (Key_MustValue T h ctx) (\<lambda>q. qRequeueErr q err)"

definition OpsCtx_RequeueAPIErr ::
    "('w queue_iface, 'd) gotype \<Rightarrow> ctx_key \<Rightarrow> 'd goctx \<Rightarrow> error option \<Rightarrow> (unit, 'w) proc" where
  "OpsCtx_RequeueAPIErr T h ctx err = bind (Key_MustValue T h ctx) (\<lambda>q. qRequeueAPIErr q err)"

definition OpsCtx_Error ::
    "('w queue_iface, 'd) gotype \<Rightarrow> ctx_key \<Rightarrow> 'd goctx \<Rightarrow> (error option, 'w) proc" where
  "OpsCtx_Error T h ctx = bind (Key_MustValue T h ctx) qError"

lemma wrap64_range: "- (2 ^ 63) \<le> wrap64 x \<and> wrap64 x < 2 ^ 63"
  by (simp add: wrap64_def)

lemma wrap64_id: "- (2 ^ 63) \<le> x \<Longrightarrow> x < 2 ^ 63 \<Longrightarrow> wrap64 x = x"
  by (simp add: wrap64_def)

section \<open>The contract of the queue controls\<close>

text \<open>The verdicts on a key that reach the queue, in order.\<close>

datatype verdict = Finish | Again int

text \<open>What a handler relies on: each control returns, hands its verdict to the queue, and
  leaves the context of the key cancelled; an error is recorded.\<close>

locale queue_control =
  fixes q :: "'w queue_iface"
    and verdicts :: "'w \<Rightarrow> verdict list"
    and stopped :: "'w \<Rightarrow> bool"
    and lastErr :: "'w \<Rightarrow> error option"
  assumes finish: "\<exists>w'. run (qDone q) w = (Normal (), w') \<and>
      verdicts w' = verdicts w @ [Finish] \<and> stopped w' \<and> lastErr w' = lastErr w"
    and requeue_after: "\<exists>w'. run (qRequeueAfter q d) w = (Normal (), w') \<and>
      verdicts w' = verdicts w @ [Again d] \<and> stopped w' \<and> lastErr w' = lastErr w"
    and requeue: "\<exists>w'. run (qRequeue q) w = (Normal (), w') \<and>
      verdicts w' = verdicts w @ [Again 0] \<and> stopped w' \<and> lastErr w' = lastErr w"
    and requeue_err: "\<exists>w'. run (qRequeueErr q e) w = (Normal (), w') \<and>
      verdicts w' = verdicts w @ [Again 0] \<and> stopped w' \<and> lastErr w' = e"
    and error: "run (qError q) w = (Normal (lastErr w), w)"
begin

lemma requeue_err_then_error:
  "\<exists>w'. run (andthen (qRequeueErr q e) (qError q)) w = (Normal e, w') \<and> stopped w'"
  using requeue_err [of e w] by (auto simp: error)

text \<open>The controls reached through the context of a key.\<close>

lemma ctx_requeue_err:
  assumes "Key_Value T k ctx = Some q"
  shows "\<exists>w'. run (OpsCtx_RequeueErr T k ctx e) w = (Normal (), w') \<and>
    verdicts w' = verdicts w @ [Again 0] \<and> stopped w' \<and> lastErr w' = e"
  using assms requeue_err [of e w] by (simp add: OpsCtx_RequeueErr_def Key_MustValue_def)

lemma ctx_done:
  assumes "Key_Value T k ctx = Some q"
  shows "\<exists>w'. run (OpsCtx_Done T k ctx) w = (Normal (), w') \<and>
    verdicts w' = verdicts w @ [Finish] \<and> stopped w' \<and> lastErr w' = lastErr w"
  using assms finish [of w] by (simp add: OpsCtx_Done_def Key_MustValue_def)

end

text \<open>Operations whose closures record the verdicts and the cancellation.\<close>

record op_world =
  ow_verdicts :: "verdict list"
  ow_cancelled :: bool
  ow_err :: "error option"

definition tracked_ops :: "op_world Operations" where
  "tracked_ops =
     NewOperations
       (modify (\<lambda>w. w\<lparr>ow_verdicts := ow_verdicts w @ [Finish]\<rparr>))
       (\<lambda>d. modify (\<lambda>w. w\<lparr>ow_verdicts := ow_verdicts w @ [Again d]\<rparr>))
       (modify (\<lambda>w. w\<lparr>ow_cancelled := True\<rparr>))
       ow_err (\<lambda>e w. w\<lparr>ow_err := e\<rparr>)"

lemmas operations_defs =
  Operations_Done_def Operations_RequeueAfter_def Operations_Requeue_def
  Operations_RequeueErr_def Operations_Error_def NewOperations_def Operations_iface_def

interpretation tracked: queue_control
    "Operations_iface api tracked_ops" ow_verdicts ow_cancelled ow_err
  for api
  by unfold_locales (simp_all add: operations_defs tracked_ops_def)

section \<open>Properties\<close>

text \<open>C31: \<open>RequeueAPIErr\<close> hands more than one verdict to the queue. A retriable error with a
  suggested delay is requeued after the delay, then requeued at once, then finished; a
  retriable error without a delay is requeued at once and then finished; any other error is
  finished and never requeued. The error is recorded and the context cancelled in all cases.\<close>

theorem requeue_api_err_verdicts:
  "run (Operations_RequeueAPIErr api tracked_ops err) w =
     (Normal (), \<lparr>ow_verdicts = ow_verdicts w @
          (case ShouldRetry api err of (retry, after) \<Rightarrow>
             (if retry \<and> 0 < after then [Again after] else []) @ (if retry then [Again 0] else []) @ [Finish]),
        ow_cancelled = True, ow_err = err\<rparr>)"
  by (simp add: Operations_RequeueAPIErr_def operations_defs tracked_ops_def split: prod.split)

text \<open>the delay computed from the server's suggestion. It is the suggested number of
  seconds in nanoseconds as long as that fits an \<open>int64\<close> (0 to 9223372036 seconds); above, the
  multiplication wraps around, and already 9223372037 seconds give a negative delay, which
  \<open>RequeueAPIErr\<close> treats as no delay.\<close>

theorem should_retry_delay:
  assumes "SuggestsClientDelay api err = (s, True)" and "0 \<le> s"
  shows "(s \<le> 9223372036 \<longrightarrow> ShouldRetry api err = (True, s * 1000000000)) \<and>
         (s = 9223372037 \<longrightarrow> fst (ShouldRetry api err) \<and> snd (ShouldRetry api err) < 0)"
  using assms by (auto simp: ShouldRetry_def Second_def wrap64_def)

text \<open>the deferred cancellation runs on every path. Whatever the closures of the queue do,
  also when \<open>done\<close> panics, the last thing \<open>Done\<close> does is to cancel the key's context; the panic
  is not swallowed.\<close>

theorem done_cancels_even_on_panic:
  "run (Operations_Done (NewOperations d r (modify cancelled) g s)) w =
     (fst (run d w), cancelled (snd (run d w)))"
  by (simp add: operations_defs split: prod.split)

section \<open>Witnesses\<close>

definition demo_api :: "int \<Rightarrow> api_errors" where
  "demo_api s = \<lparr>SuggestsClientDelay = (\<lambda>_. (s, True)), IsConnectionReset = (\<lambda>_. False),
     IsInternalError = (\<lambda>_. False), IsTimeout = (\<lambda>_. False), IsServerTimeout = (\<lambda>_. False),
     IsTooManyRequests = (\<lambda>_. False), IsUnexpectedServerError = (\<lambda>_. False)\<rparr>"

theorem should_retry_delay_witness:
  "ShouldRetry (demo_api 3) None = (True, 3000000000) \<and>
   snd (ShouldRetry (demo_api 9223372037) None) < 0"
  using should_retry_delay [of "demo_api 3" None 3] should_retry_delay [of "demo_api 9223372037" None 9223372037]
  by (simp add: demo_api_def)

end
