(* ===== verification/Cache_Keys.thy ===== *)
theory Cache_Keys
  imports Prelude
begin

text \<open>
  The package \<open>cachekeys\<close> (cachekeys/keys.go): queue keys that carry the resource type beside
  the usual namespace/name key. The client-go functions it calls are parameters:
  \<open>metaKey\<close> is \<open>cache.MetaNamespaceKeyFunc\<close>, \<open>splitMeta\<close> is \<open>cache.SplitMetaNamespaceKey\<close> and
  \<open>parseArg\<close> is the first result of \<open>schema.ParseResourceArg\<close>.
\<close>

section \<open>Building and splitting keys\<close>

text \<open>An object handed to a key function: an object of the cache, or the tombstone of one
  whose deletion the watch missed, with the key it had in the cache.\<close>

datatype 'o cache_item = CacheObj 'o | DeletedFinalStateUnknown (tomb_key: string) 'o

definition GVRMetaNamespaceKeyer :: "gvr \<Rightarrow> string \<Rightarrow> string" where
  "GVRMetaNamespaceKeyer g key =
     Resource g @ ''.'' @ Version g @ ''.'' @ Group g @ ''::'' @ key"

fun GVRMetaNamespaceKeyFunc :: "('o \<Rightarrow> error + string) \<Rightarrow> gvr \<Rightarrow> 'o cache_item \<Rightarrow> error + string" where
  "GVRMetaNamespaceKeyFunc metaKey g (DeletedFinalStateUnknown k _) = Inr k"
| "GVRMetaNamespaceKeyFunc metaKey g (CacheObj obj) =
     (case metaKey obj of
        Inl err \<Rightarrow> Inl err
      | Inr key \<Rightarrow> Inr (GVRMetaNamespaceKeyer g key))"

definition SplitGVRMetaNamespaceKey ::
    "(string \<Rightarrow> gvr option) \<Rightarrow> (string \<Rightarrow> string \<times> string \<times> error option) \<Rightarrow> string \<Rightarrow>
     gvr option \<times> string \<times> string \<times> error option" where
  "SplitGVRMetaNamespaceKey parseArg splitMeta key =
     (case Cut key ''::'' of
        None \<Rightarrow> (None, [], [], Some (Errorf (''error parsing key: '' @ key)))
      | Some (before, after) \<Rightarrow>
          (case parseArg before of
             None \<Rightarrow> (None, [], [], Some (Errorf (''error parsing gvr from key: '' @ before)))
           | Some g \<Rightarrow> (Some g, splitMeta after)))"

section \<open>What the client-go functions promise\<close>

text \<open>\<open>ParseResourceArg\<close> reads \<open>resource.version.group.com\<close>.\<close>

definition parses_resource_arg :: "(string \<Rightarrow> gvr option) \<Rightarrow> bool" where
  "parses_resource_arg parseArg \<longleftrightarrow>
     (\<forall>r v g. CHR ''.'' \<notin> set r \<longrightarrow> CHR ''.'' \<notin> set v \<longrightarrow>
        parseArg (r @ ''.'' @ v @ ''.'' @ g) = Some \<lparr>Group = g, Version = v, Resource = r\<rparr>)"

text \<open>\<open>SplitMetaNamespaceKey\<close> returns what \<open>MetaNamespaceKeyFunc\<close> encoded.\<close>

definition splits_meta_keys ::
    "('o \<Rightarrow> error + string) \<Rightarrow> (string \<Rightarrow> string \<times> string \<times> error option) \<Rightarrow>
     ('o \<Rightarrow> namespaced_name) \<Rightarrow> bool" where
  "splits_meta_keys metaKey splitMeta nameOf \<longleftrightarrow>
     (\<forall>obj key. metaKey obj = Inr key \<longrightarrow>
        splitMeta key = (Namespace (nameOf obj), Name (nameOf obj), None))"

text \<open>A resource type that the key format can carry: no dot in the resource and the version,
  and no colon anywhere.\<close>

definition keyable :: "gvr \<Rightarrow> bool" where
  "keyable g \<longleftrightarrow> CHR ''.'' \<notin> set (Resource g) \<and> CHR ''.'' \<notin> set (Version g) \<and>
     CHR '':'' \<notin> set (Resource g) \<union> set (Version g) \<union> set (Group g)"

section \<open>Lemmas\<close>

lemma Cut_Keyer:
  assumes "keyable g"
  shows "Cut (GVRMetaNamespaceKeyer g key) ''::'' =
           Some (Resource g @ ''.'' @ Version g @ ''.'' @ Group g, key)"
proof -
  let ?b = "Resource g @ ''.'' @ Version g @ ''.'' @ Group g"
  have "CHR '':'' \<notin> set ?b" using assms by (auto simp: keyable_def)
  then have "Cut (?b @ (CHR '':'' # '':'') @ key) (CHR '':'' # '':'') = Some (?b, key)"
    by (rule Cut_append)
  then show ?thesis by (simp add: GVRMetaNamespaceKeyer_def)
qed

lemma Split_Keyer:
  assumes "parses_resource_arg parseArg" and "keyable g"
  shows "SplitGVRMetaNamespaceKey parseArg splitMeta (GVRMetaNamespaceKeyer g key) =
           (Some g, splitMeta key)"
  using assms unfolding SplitGVRMetaNamespaceKey_def Cut_Keyer [OF assms(2)]
  by (auto simp: parses_resource_arg_def keyable_def)

section \<open>Properties\<close>

text \<open>C26: round trip. The key of an object of the cache splits into the resource type it was
  made with and the namespace and name of the object.\<close>

theorem object_key_round_trip:
  assumes "parses_resource_arg parseArg" and "splits_meta_keys metaKey splitMeta nameOf"
    and "keyable g" and "metaKey obj = Inr k"
  shows "\<exists>key. GVRMetaNamespaceKeyFunc metaKey g (CacheObj obj) = Inr key \<and>
           SplitGVRMetaNamespaceKey parseArg splitMeta key =
             (Some g, Namespace (nameOf obj), Name (nameOf obj), None)"
  using assms by (simp add: Split_Keyer splits_meta_keys_def)

text \<open>keys of different resource types or different objects never collide in a shared
  queue.\<close>

theorem keyer_injective:
  assumes "keyable g" and "keyable g'"
  shows "GVRMetaNamespaceKeyer g key = GVRMetaNamespaceKeyer g' key' \<longleftrightarrow> g = g' \<and> key = key'"
proof
  assume eq: "GVRMetaNamespaceKeyer g key = GVRMetaNamespaceKeyer g' key'"
  then have "Some (Resource g @ ''.'' @ Version g @ ''.'' @ Group g, key) =
      Some (Resource g' @ ''.'' @ Version g' @ ''.'' @ Group g', key')"
    using Cut_Keyer assms by metis
  then have b: "Resource g @ CHR ''.'' # Version g @ CHR ''.'' # Group g =
      Resource g' @ CHR ''.'' # Version g' @ CHR ''.'' # Group g'" and k: "key = key'"
    by simp_all
  have "Resource g = Resource g' \<and> Version g = Version g' \<and> Group g = Group g'"
    using b assms by (simp add: keyable_def append_sep_inject)
  with k show "g = g' \<and> key = key'" by simp
qed simp

text \<open>the key of a tombstone is returned without the resource type, so the splitter
  rejects it: a deletion the watch missed yields a key that no controller of this library can
  process.\<close>

theorem tombstone_key_does_not_split:
  assumes "Cut k ''::'' = None"
  shows "GVRMetaNamespaceKeyFunc metaKey g (DeletedFinalStateUnknown k obj) = Inr k \<and>
         SplitGVRMetaNamespaceKey parseArg splitMeta k =
           (None, [], [], Some (Errorf (''error parsing key: '' @ k)))"
  using assms by (simp add: SplitGVRMetaNamespaceKey_def)

section \<open>Witnesses\<close>

text \<open>Functions that satisfy what is asked of client-go: they read the formats directly.\<close>

definition demo_parse :: "string \<Rightarrow> gvr option" where
  "demo_parse s =
     (case Cut s ''.'' of None \<Rightarrow> None
      | Some (r, s') \<Rightarrow>
          (case Cut s' ''.'' of None \<Rightarrow> None
           | Some (v, g) \<Rightarrow> Some \<lparr>Group = g, Version = v, Resource = r\<rparr>))"

definition demo_split_meta :: "string \<Rightarrow> string \<times> string \<times> error option" where
  "demo_split_meta s =
     (case Cut s ''/'' of None \<Rightarrow> ([], s, None) | Some (ns, n) \<Rightarrow> (ns, n, None))"

definition demo_meta_key :: "namespaced_name \<Rightarrow> error + string" where
  "demo_meta_key nn = (if CHR ''/'' \<in> set (Namespace nn) \<or> CHR ''/'' \<in> set (Name nn)
     then Inl (External ''bad name'')
     else Inr (if Namespace nn = [] then Name nn else Namespace nn @ ''/'' @ Name nn))"

lemma Cut_dot: "CHR ''.'' \<notin> set s \<Longrightarrow> Cut (s @ ''.'' @ t) ''.'' = Some (s, t)"
  using Cut_append [of "CHR ''.''" s "[]" t] by simp

lemma demo_parse_ok: "parses_resource_arg demo_parse"
  by (auto simp: parses_resource_arg_def demo_parse_def Cut_dot simp del: append_Cons append_Nil)

lemma demo_split_ok: "splits_meta_keys demo_meta_key demo_split_meta (\<lambda>nn. nn)"
proof -
  have "Cut (s @ ''/'' @ t) ''/'' = Some (s, t)" if "CHR ''/'' \<notin> set s" for s t
    using Cut_append [of "CHR ''/''" s "[]" t] that by simp
  moreover have "Cut s ''/'' = None" if "CHR ''/'' \<notin> set s" for s
    using that by (subst Cut_None_iff) auto
  ultimately show ?thesis
    by (auto simp: splits_meta_keys_def demo_meta_key_def demo_split_meta_def
        simp del: append_Cons append_Nil split: if_splits)
qed

theorem object_key_round_trip_witness:
  "\<exists>key. GVRMetaNamespaceKeyFunc demo_meta_key \<lparr>Group = ''example.com'', Version = ''v1'', Resource = ''mytypes''\<rparr>
           (CacheObj \<lparr>Namespace = ''test'', Name = ''a''\<rparr>) = Inr key \<and>
         SplitGVRMetaNamespaceKey demo_parse demo_split_meta key =
           (Some \<lparr>Group = ''example.com'', Version = ''v1'', Resource = ''mytypes''\<rparr>, ''test'', ''a'', None)"
  using object_key_round_trip [OF demo_parse_ok demo_split_ok,
      of "\<lparr>Group = ''example.com'', Version = ''v1'', Resource = ''mytypes''\<rparr>"
        "\<lparr>Namespace = ''test'', Name = ''a''\<rparr>" "''test/a''"]
  by (simp add: keyable_def demo_meta_key_def)

theorem keyer_injective_witness:
  "GVRMetaNamespaceKeyer \<lparr>Group = ''apps'', Version = ''v1'', Resource = ''a''\<rparr> ''x'' \<noteq>
   GVRMetaNamespaceKeyer \<lparr>Group = ''apps'', Version = ''v1'', Resource = ''b''\<rparr> ''x''"
  using keyer_injective [of "\<lparr>Group = ''apps'', Version = ''v1'', Resource = ''a''\<rparr>"
      "\<lparr>Group = ''apps'', Version = ''v1'', Resource = ''b''\<rparr>" "''x''" "''x''"]
  by (simp add: keyable_def)

theorem tombstone_key_does_not_split_witness:
  "GVRMetaNamespaceKeyFunc demo_meta_key \<lparr>Group = ''apps'', Version = ''v1'', Resource = ''a''\<rparr>
     (DeletedFinalStateUnknown ''test/a'' \<lparr>Namespace = ''test'', Name = ''a''\<rparr>) = Inr ''test/a'' \<and>
   SplitGVRMetaNamespaceKey demo_parse demo_split_meta ''test/a'' =
     (None, [], [], Some (Errorf ''error parsing key: test/a''))"
  using tombstone_key_does_not_split [of "''test/a''"] by (simp add: HasPrefix_def)

end
