(* ===== verification/Controller.thy ===== *)
theory Controller
  imports Queue Cache_Keys
begin

text \<open>
  The controllers of the package \<open>manager\<close> (manager/controller.go): \<open>BasicController\<close> and the
  work loop of \<open>OwnedResourceController\<close>. The rate-limiting workqueue of client-go is a
  parameter, a record of its operations on a queue state \<open>'q\<close>. The world holds that state,
  the cancellation of the worker's context and of the context of the key being processed, the
  error cell of the key's \<open>Operations\<close>, the errors handed to \<open>utilruntime.HandleError\<close>, the number of
  worker goroutines launched, and the state \<open>'x\<close> the sync function works on. The registry and the
  event recorder, which this code only stores, are addresses. Log calls are not modelled.
\<close>

section \<open>BasicController\<close>

record BasicController =
  bc_name :: string

definition NewBasicController :: "string \<Rightarrow> BasicController" where
  "NewBasicController n = \<lparr>bc_name = n\<rparr>"

definition BasicController_Name :: "BasicController \<Rightarrow> string" where
  "BasicController_Name c = bc_name c"

text \<open>The handlers of net/http and of k8s.io/apiserver that it answers with.\<close>

datatype http_handler = NotFoundHandler

datatype health_checker = PingHealthz

definition BasicController_DebuggingHandler :: "BasicController \<Rightarrow> http_handler" where
  "BasicController_DebuggingHandler c = NotFoundHandler"

definition BasicController_HealthChecker :: "BasicController \<Rightarrow> health_checker" where
  "BasicController_HealthChecker c = PingHealthz"

definition BasicController_Start :: "BasicController \<Rightarrow> 'c \<Rightarrow> int \<Rightarrow> (unit, 'w) proc" where
  "BasicController_Start c ctx numThreads = Return ()"

section \<open>OwnedResourceController\<close>

record 'q workqueue =
  wq_Get :: "'q \<Rightarrow> (string \<times> bool) \<times> 'q"
  wq_Done :: "string \<Rightarrow> 'q \<Rightarrow> 'q"
  wq_Forget :: "string \<Rightarrow> 'q \<Rightarrow> 'q"
  wq_AddRateLimited :: "string \<Rightarrow> 'q \<Rightarrow> 'q"
  wq_AddAfter :: "string \<Rightarrow> int \<Rightarrow> 'q \<Rightarrow> 'q"
  wq_ShutDown :: "'q \<Rightarrow> 'q"

record ('q, 'x) ctl_world =
  cw_queue :: 'q
  cw_worker_done :: bool
  cw_key_done :: bool
  cw_err :: "error option"
  cw_handled :: "error list"
  cw_workers :: nat
  cw_app :: 'x

type_synonym ('q, 'x, 'a) ctl = "('a, ('q, 'x) ctl_world) proc"

type_synonym ('q, 'd, 'x) SyncFunc = "'d goctx \<Rightarrow> gvr \<Rightarrow> string \<Rightarrow> string \<Rightarrow> ('q, 'x, unit) ctl"

record ('q, 'd, 'x) OwnedResourceController =
  orc_basic :: BasicController
  orc_ops :: ctx_key
  orc_registry :: nat
  orc_recorder :: nat
  orc_owned :: gvr
  orc_queue :: "'q workqueue"
  orc_sync :: "('q, 'd, 'x) SyncFunc"

text \<open>The constructors of client-go: \<open>newQueue\<close> makes a rate-limited workqueue of a name, and
  \<open>newRecorder\<close> is the method \<open>NewRecorder\<close> of the broadcaster for a component's name.\<close>

definition NewOwnedResourceController ::
    "(string \<Rightarrow> 'q workqueue) \<Rightarrow> string \<Rightarrow> gvr \<Rightarrow> ctx_key \<Rightarrow> nat \<Rightarrow> (string \<Rightarrow> nat) \<Rightarrow> ('q, 'd, 'x) SyncFunc \<Rightarrow>
     ('q, 'd, 'x) OwnedResourceController" where
  "NewOwnedResourceController newQueue n owned key registry newRecorder syncFunc =
     \<lparr>orc_basic = NewBasicController n, orc_ops = key, orc_registry = registry, orc_recorder = newRecorder n,
      orc_owned = owned, orc_queue = newQueue (n @ ''_queue''), orc_sync = syncFunc\<rparr>"

definition on_queue :: "('q \<Rightarrow> 'q) \<Rightarrow> ('q, 'x, unit) ctl" where
  "on_queue f = modify (\<lambda>w. w\<lparr>cw_queue := f (cw_queue w)\<rparr>)"

definition HandleError :: "error \<Rightarrow> ('q, 'x, unit) ctl" where
  "HandleError e = modify (\<lambda>w. w\<lparr>cw_handled := cw_handled w @ [e]\<rparr>)"

text \<open>\<open>context.WithCancel\<close> for the key: a fresh cancellation flag and a fresh error cell; the
  key's context is done when its own flag or the worker's context is.\<close>

definition new_key_context :: "('q, 'x, unit) ctl" where
  "new_key_context = modify (\<lambda>w. w\<lparr>cw_key_done := False, cw_err := None\<rparr>)"

definition cancel_key :: "('q, 'x, unit) ctl" where
  "cancel_key = modify (\<lambda>w. w\<lparr>cw_key_done := True\<rparr>)"

definition await_key_done :: "('q, 'x, unit) ctl" where
  "await_key_done =
     bind (gets (\<lambda>w. cw_worker_done w \<or> cw_key_done w)) (\<lambda>b.
       if b then Return () else Panic ''blocked on ctx.Done()'')"

definition ctl_done :: "'q workqueue \<Rightarrow> string \<Rightarrow> ('q, 'x, unit) ctl" where
  "ctl_done Q key = andthen cancel_key (on_queue (wq_Forget Q key))"

definition ctl_requeue :: "'q workqueue \<Rightarrow> string \<Rightarrow> int \<Rightarrow> ('q, 'x, unit) ctl" where
  "ctl_requeue Q key after =
     andthen cancel_key
       (if after = 0 then on_queue (wq_AddRateLimited Q key)
        else on_queue (wq_AddAfter Q key after))"

definition ctl_ops :: "'q workqueue \<Rightarrow> string \<Rightarrow> ('q, 'x) ctl_world Operations" where
  "ctl_ops Q key =
     NewOperations (ctl_done Q key) (ctl_requeue Q key) cancel_key cw_err (\<lambda>e w. w\<lparr>cw_err := e\<rparr>)"

definition processNext ::
    "api_errors \<Rightarrow> (string \<Rightarrow> gvr option) \<Rightarrow> (string \<Rightarrow> string \<times> string \<times> error option) \<Rightarrow>
     (('q, 'x) ctl_world queue_iface, 'd) gotype \<Rightarrow>
     ('q, 'd, 'x) OwnedResourceController \<Rightarrow> 'd goctx \<Rightarrow> ('q, 'x, bool) ctl" where
  "processNext api parseArg splitMeta T c ctx =
     bind (act (\<lambda>w. case wq_Get (orc_queue c) (cw_queue w) of (r, q) \<Rightarrow> (r, w\<lparr>cw_queue := q\<rparr>)))
       (\<lambda>(key, quit).
         deferred
           (if quit then Return False
            else
              (case SplitGVRMetaNamespaceKey parseArg splitMeta key of
                 (g, namespace, nm, err) \<Rightarrow>
                   (case err of
                      Some e \<Rightarrow>
                        andthen (HandleError (Errorf (''error parsing key '' @ Quote key @ '', skipping'')))
                          (Return True)
                    | None \<Rightarrow>
                        andthen new_key_context
                          (case g of
                             None \<Rightarrow> Panic ''invalid memory address or nil pointer dereference''
                           | Some g' \<Rightarrow>
                               andthen
                                 (orc_sync c
                                   (Key_WithValue T (orc_ops c) ctx
                                     (Operations_iface api (ctl_ops (orc_queue c) key)))
                                   g' namespace nm)
                                 (andthen (ctl_done (orc_queue c) key)
                                   (andthen await_key_done (Return True)))))))
           (on_queue (wq_Done (orc_queue c) key)))"

text \<open>The loop \<open>for c.processNext(ctx) {}\<close>, for at most \<open>n\<close> rounds; the result says whether the
  loop ended because a round returned false.\<close>

primrec startWorker ::
    "nat \<Rightarrow> api_errors \<Rightarrow> (string \<Rightarrow> gvr option) \<Rightarrow> (string \<Rightarrow> string \<times> string \<times> error option) \<Rightarrow>
     (('q, 'x) ctl_world queue_iface, 'd) gotype \<Rightarrow>
     ('q, 'd, 'x) OwnedResourceController \<Rightarrow> 'd goctx \<Rightarrow> ('q, 'x, bool) ctl" where
  "startWorker 0 api parseArg splitMeta T c ctx = Return False"
| "startWorker (Suc n) api parseArg splitMeta T c ctx =
     bind (processNext api parseArg splitMeta T c ctx) (\<lambda>again.
       if again then startWorker n api parseArg splitMeta T c ctx else Return True)"

text \<open>The goroutine of a worker, \<open>wait.Until(func() { c.startWorker(ctx) }, time.Second, ctx.Done())\<close>: the
  worker is started again and again until the context is done, for at most \<open>m\<close> times; the result says
  whether the goroutine has ended.\<close>

primrec worker_goroutine ::
    "nat \<Rightarrow> nat \<Rightarrow> api_errors \<Rightarrow> (string \<Rightarrow> gvr option) \<Rightarrow> (string \<Rightarrow> string \<times> string \<times> error option) \<Rightarrow>
     (('q, 'x) ctl_world queue_iface, 'd) gotype \<Rightarrow>
     ('q, 'd, 'x) OwnedResourceController \<Rightarrow> 'd goctx \<Rightarrow> ('q, 'x, bool) ctl" where
  "worker_goroutine 0 n api parseArg splitMeta T c ctx = Return False"
| "worker_goroutine (Suc m) n api parseArg splitMeta T c ctx =
     bind (gets cw_worker_done) (\<lambda>stopped.
       if stopped then Return True
       else bind (startWorker n api parseArg splitMeta T c ctx) (\<lambda>ended.
         if ended then worker_goroutine m n api parseArg splitMeta T c ctx else Return False))"

primrec launch_workers :: "nat \<Rightarrow> ('q, 'x, unit) ctl" where
  "launch_workers 0 = Return ()"
| "launch_workers (Suc n) = andthen (modify (\<lambda>w. w\<lparr>cw_workers := cw_workers w + 1\<rparr>)) (launch_workers n)"

text \<open>\<open>Start\<close> returns true when the context is done, after the deferred shutdown of the queue; the result
  false is a \<open>Start\<close> that still waits. Nothing in it panics, so that the deferred \<open>HandleCrash\<close> has no effect.\<close>

definition Controller_Start :: "('q, 'd, 'x) OwnedResourceController \<Rightarrow> int \<Rightarrow> ('q, 'x, bool) ctl" where
  "Controller_Start c numThreads =
     andthen (launch_workers (nat numThreads))
       (bind (gets cw_worker_done) (\<lambda>done.
         if done then andthen (on_queue (wq_ShutDown (orc_queue c))) (Return True) else Return False))"

section \<open>Lemmas\<close>

lemmas ctl_defs = on_queue_def HandleError_def new_key_context_def cancel_key_def ctl_done_def
  ctl_requeue_def ctl_ops_def await_key_done_def

lemma run_ctl_done [simp]:
  "run (ctl_done Q key) w =
     (Normal (), w\<lparr>cw_key_done := True, cw_queue := wq_Forget Q key (cw_queue w)\<rparr>)"
  by (simp add: ctl_defs)

lemma run_on_queue [simp]: "run (on_queue f) w = (Normal (), w\<lparr>cw_queue := f (cw_queue w)\<rparr>)"
  by (simp add: on_queue_def)

text \<open>The world in which the sync function starts, once the queue has handed out a key.\<close>

definition sync_start :: "'q \<Rightarrow> ('q, 'x) ctl_world \<Rightarrow> ('q, 'x) ctl_world" where
  "sync_start q w = w\<lparr>cw_queue := q, cw_key_done := False, cw_err := None\<rparr>"

lemma sync_start_queue [simp]: "cw_queue (sync_start q w) = q"
  by (simp add: sync_start_def)

definition sync_run ::
    "api_errors \<Rightarrow> (('q, 'x) ctl_world queue_iface, 'd) gotype \<Rightarrow>
     ('q, 'd, 'x) OwnedResourceController \<Rightarrow> 'd goctx \<Rightarrow> string \<Rightarrow> gvr \<Rightarrow> string \<Rightarrow> string \<Rightarrow>
     ('q, 'x, unit) ctl" where
  "sync_run api T c ctx key g namespace nm =
     orc_sync c (Key_WithValue T (orc_ops c) ctx (Operations_iface api (ctl_ops (orc_queue c) key)))
       g namespace nm"

lemma run_processNext_synced:
  assumes "wq_Get (orc_queue c) (cw_queue w) = ((key, False), q)"
    and "SplitGVRMetaNamespaceKey parseArg splitMeta key = (Some g, namespace, nm, None)"
    and "run (sync_run api T c ctx key g namespace nm) (sync_start q w) = (Normal (), w1)"
  shows "run (processNext api parseArg splitMeta T c ctx) w =
     (Normal True, w1\<lparr>cw_key_done := True,
        cw_queue := wq_Done (orc_queue c) key (wq_Forget (orc_queue c) key (cw_queue w1))\<rparr>)"
  using assms
  by (simp add: processNext_def sync_run_def sync_start_def new_key_context_def await_key_done_def)

lemma Split_ok_gvr:
  "SplitGVRMetaNamespaceKey parseArg splitMeta key = (g, namespace, nm, None) \<Longrightarrow> g \<noteq> None"
  by (auto simp: SplitGVRMetaNamespaceKey_def split: option.splits prod.splits) metis

text \<open>One round on a key, for a sync function that returns and keeps a measure of the queue.\<close>

lemma processNext_returns:
  assumes get: "wq_Get (orc_queue c) (cw_queue w) = ((key, False), q)"
    and sync: "\<And>ctx g namespace nm w. \<exists>w'. run (orc_sync c ctx g namespace nm) w = (Normal (), w') \<and>
      pending (cw_queue w') = pending (cw_queue w)"
    and keep: "\<And>key q. pending (wq_Done (orc_queue c) key q) = pending q"
      "\<And>key q. pending (wq_Forget (orc_queue c) key q) = pending q"
  shows "\<exists>w'. run (processNext api parseArg splitMeta T c ctx) w = (Normal True, w') \<and> pending (cw_queue w') = pending q"
proof -
  obtain g namespace nm err where split: "SplitGVRMetaNamespaceKey parseArg splitMeta key = (g, namespace, nm, err)"
    by (cases "SplitGVRMetaNamespaceKey parseArg splitMeta key")
  show ?thesis
  proof (cases err)
    case (Some e)
    with get split show ?thesis by (simp add: processNext_def HandleError_def keep)
  next
    case None
    with split Split_ok_gvr obtain g' where g: "g = Some g'" by fastforce
    obtain w1 where "run (sync_run api T c ctx key g' namespace nm) (sync_start q w) = (Normal (), w1)"
      "pending (cw_queue w1) = pending q"
      using sync unfolding sync_run_def by (metis (no_types, lifting) sync_start_queue)
    with run_processNext_synced [OF get split [unfolded None g]] show ?thesis by (simp add: keep)
  qed
qed

text \<open>The loop of a worker ends, for a queue measured by the number of its keys and by whether it has been
  shut down.\<close>

lemma startWorker_ends:
  assumes empty: "\<And>q. m q = (0, True) \<Longrightarrow> \<exists>key q'. wq_Get (orc_queue c) q = ((key, True), q')"
    and get: "\<And>q n. m q = (Suc n, True) \<Longrightarrow> \<exists>key q'. wq_Get (orc_queue c) q = ((key, False), q') \<and> m q' = (n, True)"
    and sync: "\<And>ctx g namespace nm w. \<exists>w'. run (orc_sync c ctx g namespace nm) w = (Normal (), w') \<and>
      m (cw_queue w') = m (cw_queue w)"
    and keep: "\<And>key q. m (wq_Done (orc_queue c) key q) = m q" "\<And>key q. m (wq_Forget (orc_queue c) key q) = m q"
    and "m (cw_queue w) = (k, True)" and "k < n"
  shows "\<exists>w'. run (startWorker n api parseArg splitMeta T c ctx) w = (Normal True, w')"
  using assms(6,7)
proof (induction n arbitrary: w k)
  case 0
  then show ?case by simp
next
  case (Suc n)
  show ?case
  proof (cases k)
    case 0
    with empty [of "cw_queue w"] Suc.prems show ?thesis by (auto simp: processNext_def)
  next
    case (Suc k')
    with get [of "cw_queue w"] Suc.prems obtain key q where
      q: "wq_Get (orc_queue c) (cw_queue w) = ((key, False), q)" "m q = (k', True)" by blast
    obtain w' where w': "run (processNext api parseArg splitMeta T c ctx) w = (Normal True, w')" "m (cw_queue w') = (k', True)"
      using processNext_returns [OF q(1) sync keep] q(2) by metis
    with Suc.IH [of w' k'] Suc.prems Suc show ?thesis by auto
  qed
qed

lemma run_launch_workers: "run (launch_workers n) w = (Normal (), w\<lparr>cw_workers := cw_workers w + n\<rparr>)"
  by (induction n arbitrary: w) simp_all

section \<open>The controls handed to the sync function\<close>

text \<open>A queue that records the verdicts it is given.\<close>

definition recording_queue :: "verdict list workqueue" where
  "recording_queue =
     \<lparr>wq_Get = (\<lambda>q. (([], True), q)), wq_Done = (\<lambda>_ q. q), wq_Forget = (\<lambda>_ q. q @ [Finish]),
      wq_AddRateLimited = (\<lambda>_ q. q @ [Again 0]), wq_AddAfter = (\<lambda>_ d q. q @ [Again d]),
      wq_ShutDown = (\<lambda>q. q)\<rparr>"

interpretation controller_ops: queue_control
    "Operations_iface api (ctl_ops recording_queue key)" cw_queue cw_key_done cw_err
  for api key
  by unfold_locales (simp_all add: operations_defs ctl_defs recording_queue_def)

section \<open>Properties\<close>

text \<open>C17: every key taken from the queue is marked done, exactly last, on every path: when the
  queue shuts down, when the key does not parse, when the sync function returns, and when it
  panics.\<close>

theorem process_next_always_marks_done:
  assumes "wq_Get (orc_queue c) (cw_queue w) = ((key, quit), q)"
  shows "\<exists>q'. cw_queue (snd (run (processNext api parseArg splitMeta T c ctx) w)) =
               wq_Done (orc_queue c) key q'"
  using assms by (auto simp: processNext_def split: prod.split)

text \<open>C30: the work loop resets the key's backoff after every sync. For a queue whose \<open>Forget\<close>
  sets the number of requeues of a key to zero and whose \<open>Done\<close> does not change it, the number
  of requeues of the key is zero after \<open>processNext\<close>, however often the sync function has
  requeued the key; and \<open>processNext\<close> does not block.\<close>

theorem backoff_reset_after_every_sync:
  assumes "wq_Get (orc_queue c) (cw_queue w) = ((key, False), q)"
    and "SplitGVRMetaNamespaceKey parseArg splitMeta key = (Some g, namespace, nm, None)"
    and "run (sync_run api T c ctx key g namespace nm) (sync_start q w) = (Normal (), w1)"
    and forget: "\<And>k q. numRequeues k (wq_Forget (orc_queue c) k q) = (0 :: nat)"
    and keep: "\<And>k k' q. numRequeues k (wq_Done (orc_queue c) k' q) = numRequeues k q"
  shows "\<exists>w'. run (processNext api parseArg splitMeta T c ctx) w = (Normal True, w') \<and>
              numRequeues key (cw_queue w') = 0"
  using run_processNext_synced [OF assms(1,2,3)] by (simp add: forget keep)

text \<open>a key that cannot be split is skipped: the sync function is not called, the error is
  reported, the key is marked done but neither forgotten nor requeued, and the loop goes on.\<close>

theorem unparsable_key_is_skipped:
  assumes "wq_Get (orc_queue c) (cw_queue w) = ((key, False), q)"
    and "SplitGVRMetaNamespaceKey parseArg splitMeta key = (g, namespace, nm, Some err)"
  shows "run (processNext api parseArg splitMeta T c ctx) w =
     (Normal True, w\<lparr>cw_queue := wq_Done (orc_queue c) key q,
        cw_handled := cw_handled w @ [Errorf (''error parsing key '' @ Quote key @ '', skipping'')]\<rparr>)"
  using assms by (simp add: processNext_def HandleError_def)

text \<open>a worker drains its queue and ends. For a queue with a finite number of pending keys that
  reports its shutdown once it is empty, and a sync function that returns and adds no keys, the
  worker's loop ends by itself, in at most one round more than there are keys, whether or not the
  keys can be split.\<close>

theorem worker_drains_queue:
  assumes empty: "\<And>q. pending q = 0 \<Longrightarrow> \<exists>key q'. wq_Get (orc_queue c) q = ((key, True), q')"
    and get: "\<And>q n. pending q = Suc n \<Longrightarrow> \<exists>key q'. wq_Get (orc_queue c) q = ((key, False), q') \<and> pending q' = n"
    and keep: "\<And>key q. pending (wq_Done (orc_queue c) key q) = pending q"
      "\<And>key q. pending (wq_Forget (orc_queue c) key q) = pending q"
    and sync: "\<And>ctx g namespace nm w. \<exists>w'. run (orc_sync c ctx g namespace nm) w = (Normal (), w') \<and>
      pending (cw_queue w') = pending (cw_queue w)"
    and fuel: "pending (cw_queue w) < n"
  shows "\<exists>w'. run (startWorker n api parseArg splitMeta T c ctx) w = (Normal True, w')"
proof -
  have "\<exists>w'. run (orc_sync c ctx g namespace nm) w = (Normal (), w') \<and>
      (pending (cw_queue w'), True) = (pending (cw_queue w), True)" for ctx g namespace nm w
    using sync by simp
  from startWorker_ends [where m = "\<lambda>q. (pending q, True)" and c = c, OF _ _ this _ _ refl fuel] show ?thesis
    using empty get keep by simp
qed


section \<open>Witnesses\<close>

text \<open>A queue with one pending key and a count of its requeues.\<close>

definition demo_queue :: "(string list \<times> nat) workqueue" where
  "demo_queue =
     \<lparr>wq_Get = (\<lambda>(ks, n). case ks of [] \<Rightarrow> (([], True), ([], n)) | k # ks' \<Rightarrow> ((k, False), (ks', n))),
      wq_Done = (\<lambda>_ q. q), wq_Forget = (\<lambda>_ (ks, n). (ks, 0)),
      wq_AddRateLimited = (\<lambda>k (ks, n). (ks @ [k], Suc n)), wq_AddAfter = (\<lambda>k _ (ks, n). (ks @ [k], n)),
      wq_ShutDown = (\<lambda>q. q)\<rparr>"

definition demo_iface_type :: "('w queue_iface, 'w queue_iface) gotype" where
  "demo_iface_type = \<lparr>tname = ''queue.Interface'', to_any = Some, of_any = Some,
     zero_val = \<lparr>qDone = Return (), qRequeueAfter = (\<lambda>_. Return ()), qRequeue = Return (),
       qRequeueErr = (\<lambda>_. Return ()), qRequeueAPIErr = (\<lambda>_. Return ()), qError = Return None\<rparr>\<rparr>"

text \<open>A controller whose sync function requeues the key through the controls in the context.\<close>

definition demo_controller ::
    "(string list \<times> nat, (string list \<times> nat, unit) ctl_world queue_iface, unit) OwnedResourceController" where
  "demo_controller =
     NewOwnedResourceController (\<lambda>_. demo_queue) ''demo'' \<lparr>Group = ''g'', Version = ''v1'', Resource = ''r''\<rparr>
       NewQueueOperationsCtx 0 (\<lambda>_. 0)
       (\<lambda>ctx _ _ _. OpsCtx_Requeue demo_iface_type NewQueueOperationsCtx ctx)"

definition demo_world :: "string \<Rightarrow> (string list \<times> nat, unit) ctl_world" where
  "demo_world key = \<lparr>cw_queue = ([key], 0), cw_worker_done = False, cw_key_done = False,
     cw_err = None, cw_handled = [], cw_workers = 0, cw_app = ()\<rparr>"

theorem process_next_always_marks_done_witness:
  "\<exists>q'. cw_queue (snd (run (processNext (demo_api 0) demo_parse demo_split_meta demo_iface_type
           demo_controller []) (demo_world ''x''))) = wq_Done demo_queue ''x'' q'"
  using process_next_always_marks_done [of demo_controller "demo_world ''x''" "''x''" False "([], 0)"]
  by (simp add: demo_controller_def NewOwnedResourceController_def demo_world_def demo_queue_def)

theorem backoff_reset_after_every_sync_witness:
  "\<exists>w'. run (processNext (demo_api 0) demo_parse demo_split_meta demo_iface_type
            demo_controller []) (demo_world ''r.v1.g::ns/a'') = (Normal True, w') \<and>
        snd (cw_queue w') = 0"
proof -
  let ?c = demo_controller and ?w = "demo_world ''r.v1.g::ns/a''"
  have get: "wq_Get (orc_queue ?c) (cw_queue ?w) = ((''r.v1.g::ns/a'', False), ([], 0))"
    by (simp add: demo_controller_def NewOwnedResourceController_def demo_world_def demo_queue_def)
  have split: "SplitGVRMetaNamespaceKey demo_parse demo_split_meta ''r.v1.g::ns/a'' =
      (Some \<lparr>Group = ''g'', Version = ''v1'', Resource = ''r''\<rparr>, ''ns'', ''a'', None)"
    by (simp add: SplitGVRMetaNamespaceKey_def HasPrefix_def demo_parse_def demo_split_meta_def)
  have sync: "\<exists>w1. run (sync_run (demo_api 0) demo_iface_type ?c [] ''r.v1.g::ns/a''
      \<lparr>Group = ''g'', Version = ''v1'', Resource = ''r''\<rparr> ''ns'' ''a'') (sync_start ([], 0) ?w) = (Normal (), w1)"
    by (simp add: sync_run_def demo_controller_def NewOwnedResourceController_def OpsCtx_Requeue_def Key_MustValue_def Key_Value_def
        Key_WithValue_def type_assert_def demo_iface_type_def operations_defs ctl_defs)
  then obtain w1 where w1: "run (sync_run (demo_api 0) demo_iface_type ?c [] ''r.v1.g::ns/a''
      \<lparr>Group = ''g'', Version = ''v1'', Resource = ''r''\<rparr> ''ns'' ''a'') (sync_start ([], 0) ?w) = (Normal (), w1)" ..
  show ?thesis
    by (rule backoff_reset_after_every_sync [OF get split w1, of "\<lambda>_. snd"])
      (auto simp: demo_controller_def NewOwnedResourceController_def demo_queue_def split: prod.split)
qed

theorem unparsable_key_is_skipped_witness:
  "fst (run (processNext (demo_api 0) demo_parse demo_split_meta demo_iface_type
     demo_controller []) (demo_world ''ns/a'')) = Normal True"
proof -
  have get: "wq_Get (orc_queue demo_controller) (cw_queue (demo_world ''ns/a'')) = ((''ns/a'', False), ([], 0))"
    by (simp add: demo_controller_def NewOwnedResourceController_def demo_world_def demo_queue_def)
  have "SplitGVRMetaNamespaceKey demo_parse demo_split_meta ''ns/a'' =
      (None, [], [], Some (Errorf ''error parsing key: ns/a''))"
    by (simp add: SplitGVRMetaNamespaceKey_def HasPrefix_def)
  from unparsable_key_is_skipped [OF get this] show ?thesis by simp
qed

definition demo_idle :: "(string list \<times> nat, unit, unit) OwnedResourceController" where
  "demo_idle =
     NewOwnedResourceController (\<lambda>_. demo_queue) ''idle'' \<lparr>Group = ''g'', Version = ''v1'', Resource = ''r''\<rparr>
       NewQueueOperationsCtx 0 (\<lambda>_. 0)
       (\<lambda>_ _ _ _. Return ())"

definition demo_unit_type :: "('w queue_iface, unit) gotype" where
  "demo_unit_type = \<lparr>tname = ''queue.Interface'', to_any = (\<lambda>_. None), of_any = (\<lambda>_. None),
     zero_val = zero_val demo_iface_type\<rparr>"

theorem worker_drains_queue_witness:
  "\<exists>w'. run (startWorker 2 (demo_api 0) demo_parse demo_split_meta demo_unit_type demo_idle [])
     (demo_world ''r.v1.g::ns/a'') = (Normal True, w')"
proof (rule worker_drains_queue [where pending = "\<lambda>q. length (fst q)"])
  fix q :: "string list \<times> nat" and n
  show "length (fst q) = 0 \<Longrightarrow> \<exists>key q'. wq_Get (orc_queue demo_idle) q = ((key, True), q')"
    by (cases q) (simp add: demo_idle_def NewOwnedResourceController_def demo_queue_def)
  show "length (fst q) = Suc n \<Longrightarrow>
      \<exists>key q'. wq_Get (orc_queue demo_idle) q = ((key, False), q') \<and> length (fst q') = n"
    by (cases q) (auto simp: demo_idle_def NewOwnedResourceController_def demo_queue_def length_Suc_conv)
qed (auto simp: demo_idle_def NewOwnedResourceController_def demo_queue_def demo_world_def split: prod.split)


end
