(* ===== verification/Go_Library.thy ===== *)
theory Go_Library
  imports Prelude
begin

text \<open>
  Further parts of the Go standard library that the cluster bootstrap, the file informer and the
  fake client call: suffixes, splitting and trimming of strings, \<open>path.Join\<close>, \<open>errors.Is\<close>, and code that
  works on a part of a larger world.
\<close>

section \<open>Errors\<close>

text \<open>\<open>errors.Is\<close>: the error itself or an error it wraps is the target.\<close>

primrec errors_Is :: "error \<Rightarrow> error \<Rightarrow> bool" where
  "errors_Is (Errorf s) target = (Errorf s = target)"
| "errors_Is (Wrapped s e) target = (Wrapped s e = target \<or> errors_Is e target)"
| "errors_Is (External s) target = (External s = target)"

lemma errors_Is_refl [simp]: "errors_Is e e"
  by (cases e) auto

definition io_EOF :: error where
  "io_EOF = External ''EOF''"

definition os_ErrNotExist :: error where
  "os_ErrNotExist = External ''file does not exist''"

definition os_ErrInvalid :: error where
  "os_ErrInvalid = External ''invalid argument''"

section \<open>Strings\<close>

definition HasSuffix :: "string \<Rightarrow> string \<Rightarrow> bool" where
  "HasSuffix s suf = (length suf \<le> length s \<and> drop (length s - length suf) s = suf)"

definition TrimSuffix :: "string \<Rightarrow> string \<Rightarrow> string" where
  "TrimSuffix s suf = (if HasSuffix s suf then take (length s - length suf) s else s)"

text \<open>\<open>strings.Contains\<close>.\<close>

definition Contains :: "string \<Rightarrow> string \<Rightarrow> bool" where
  "Contains s sub = (Cut s sub \<noteq> None)"

text \<open>The white space of ASCII text, as \<open>strings.TrimSpace\<close> sees it.\<close>

definition is_space :: "char \<Rightarrow> bool" where
  "is_space c = (let n = of_char c :: nat in n = 32 \<or> 9 \<le> n \<and> n \<le> 13)"

definition TrimSpace :: "string \<Rightarrow> string" where
  "TrimSpace s = rev (dropWhile is_space (rev (dropWhile is_space s)))"

lemma HasSuffix_append [simp]: "HasSuffix (s @ suf) suf"
  by (simp add: HasSuffix_def)

lemma HasSuffix_iff: "HasSuffix s suf \<longleftrightarrow> (\<exists>t. s = t @ suf)"
  by (metis HasSuffix_append HasSuffix_def append_take_drop_id)

lemma TrimSuffix_append [simp]: "TrimSuffix (s @ suf) suf = s"
  by (simp add: TrimSuffix_def)

lemma Contains_iff: "sub \<noteq> [] \<Longrightarrow> Contains s sub \<longleftrightarrow> (\<exists>b a. s = b @ sub @ a)"
  using Cut_None_iff [of sub s] by (auto simp: Contains_def)

text \<open>\<open>strings.Split\<close> for a non-empty separator.\<close>

function Split :: "string \<Rightarrow> string \<Rightarrow> string list" where
  "Split s sep =
     (if sep = [] then map (\<lambda>c. [c]) s
      else (case Cut s sep of None \<Rightarrow> [s] | Some (b, a) \<Rightarrow> b # Split a sep))"
  by pat_completeness auto
termination
proof (relation "measure (\<lambda>(s, sep). length s)")
  fix s sep :: string and x b a
  assume "sep \<noteq> []" and "Cut s sep = Some x" and "(b, a) = x"
  then have "s = b @ sep @ a" and "sep \<noteq> []" by (auto dest: Cut_SomeD)
  then show "((a, sep), s, sep) \<in> measure (\<lambda>(s, sep). length s)"
    by (cases sep) auto
qed auto

declare Split.simps [simp del]

text \<open>Splitting undoes joining when no part contains the separator and the separator does not
  overlap itself at a joint: the first byte of the separator is missing from every part.\<close>

lemma Split_no_sep: "sep \<noteq> [] \<Longrightarrow> \<not> Contains s sep \<Longrightarrow> Split s sep = [s]"
  by (subst Split.simps) (simp add: Contains_def split: option.split)

lemma Cut_append_free:
  assumes "sep = c # sep'" and "c \<notin> set s"
  shows "Cut (s @ sep @ t) sep = Some (s, t)"
  using Cut_append [OF assms(2), of sep' t] assms(1) by simp

lemma Contains_free: "sep = c # sep' \<Longrightarrow> c \<notin> set s \<Longrightarrow> \<not> Contains s sep"
  by (auto simp: Contains_iff)

lemma Split_Join:
  assumes "sep = c # sep'" and "xs \<noteq> []" and "\<And>x. x \<in> set xs \<Longrightarrow> c \<notin> set x"
  shows "Split (Join xs sep) sep = xs"
  using assms(2,3)
proof (induction xs rule: induct_list012)
  case (2 s)
  then show ?case using assms(1) by (simp add: Split_no_sep Contains_free)
next
  case (3 s t ss)
  then have "Cut (s @ sep @ Join (t # ss) sep) sep = Some (s, Join (t # ss) sep)"
    using Cut_append_free [OF assms(1)] by (metis list.set_intros(1))
  then have "Split (s @ sep @ Join (t # ss) sep) sep = s # Split (Join (t # ss) sep) sep"
    using assms(1) by (subst Split.simps) simp
  with 3 show ?case using assms(1) by auto
qed simp

section \<open>Paths\<close>

text \<open>\<open>path.Clean\<close>: dots and repeated slashes are dropped and a double dot removes the element
  before it; a rooted path keeps its root. The elements kept so far are given last first.\<close>

primrec clean_elements :: "bool \<Rightarrow> string list \<Rightarrow> string list \<Rightarrow> string list" where
  "clean_elements rooted kept [] = rev kept"
| "clean_elements rooted kept (e # es) =
     (if e = [] \<or> e = ''.'' then clean_elements rooted kept es
      else if e = ''..'' then
        (case kept of
           k # ks \<Rightarrow> if k = ''..'' then clean_elements rooted (e # kept) es else clean_elements rooted ks es
         | [] \<Rightarrow> clean_elements rooted (if rooted then [] else [e]) es)
      else clean_elements rooted (e # kept) es)"

definition path_Clean :: "string \<Rightarrow> string" where
  "path_Clean p =
     (let rooted = HasPrefix p ''/'';
          q = Join (clean_elements rooted [] (Split p ''/'')) ''/'' in
      if rooted then ''/'' @ q else if q = [] then ''.'' else q)"

definition path_Join2 :: "string \<Rightarrow> string \<Rightarrow> string" where
  "path_Join2 a b =
     (case filter (\<lambda>e. e \<noteq> []) [a, b] of [] \<Rightarrow> [] | es \<Rightarrow> path_Clean (Join es ''/''))"

section \<open>Code on a part of the world\<close>

text \<open>Code that reads and writes only a part of the world, given by how the part is read and
  replaced.\<close>

primrec embed :: "('w \<Rightarrow> 'v) \<Rightarrow> ('v \<Rightarrow> 'w \<Rightarrow> 'w) \<Rightarrow> ('a, 'v) proc \<Rightarrow> ('a, 'w) proc" where
  "embed get put (Return a) = Return a"
| "embed get put (Panic m) = Panic m"
| "embed get put (Step u k) = Step (\<lambda>w. put (u (get w)) w) (\<lambda>w. embed get put (k (get w)))"

lemma run_embed:
  assumes "\<And>v w. get (put v w) = v" and "\<And>v v' w. put v (put v' w) = put v w" and "\<And>w. put (get w) w = w"
  shows "run (embed get put p) w = (case run p (get w) of (r, v) \<Rightarrow> (r, put v w))"
proof (induction p arbitrary: w)
  case (Step u k)
  show ?case by (simp add: assms Step split: prod.split)
qed (simp_all add: assms)

lemma embed_bind: "embed get put (bind p f) = bind (embed get put p) (\<lambda>a. embed get put (f a))"
  by (induction p) auto

lemma embed_deferred: "embed get put (deferred p d) = deferred (embed get put p) (embed get put d)"
  by (induction p) (auto simp: embed_bind)

section \<open>Assertions\<close>

text \<open>From a world that satisfies \<open>P\<close>, code that returns leads to a result and a world that satisfy \<open>Q\<close>,
  and code that panics to a world that satisfies \<open>E\<close>.\<close>

definition triple :: "('w \<Rightarrow> bool) \<Rightarrow> ('a, 'w) proc \<Rightarrow> ('a \<Rightarrow> 'w \<Rightarrow> bool) \<Rightarrow> ('w \<Rightarrow> bool) \<Rightarrow> bool" where
  "triple P c Q E \<longleftrightarrow>
     (\<forall>w a w'. P w \<longrightarrow> run c w = (Normal a, w') \<longrightarrow> Q a w') \<and>
     (\<forall>w m w'. P w \<longrightarrow> run c w = (Panicked m, w') \<longrightarrow> E w')"

named_theorems triple_rules "assertions over every combinator"

lemma triple_Return [triple_rules]: "(\<And>w. P w \<Longrightarrow> Q a w) \<Longrightarrow> triple P (Return a) Q E"
  by (simp add: triple_def)

lemma triple_Panic [triple_rules]: "(\<And>w. P w \<Longrightarrow> E w) \<Longrightarrow> triple P (Panic m) Q E"
  by (simp add: triple_def)

lemma triple_modify [triple_rules]: "(\<And>w. P w \<Longrightarrow> Q () (f w)) \<Longrightarrow> triple P (modify f) Q E"
  by (simp add: triple_def)

lemma triple_gets [triple_rules]: "(\<And>w. P w \<Longrightarrow> Q (f w) w) \<Longrightarrow> triple P (gets f) Q E"
  by (simp add: triple_def)

lemma triple_act [triple_rules]: "(\<And>w. P w \<Longrightarrow> Q (fst (f w)) (snd (f w))) \<Longrightarrow> triple P (act f) Q E"
  by (simp add: triple_def)

lemma triple_bind: "triple P c Q E \<Longrightarrow> (\<And>a. triple (Q a) (f a) R E) \<Longrightarrow> triple P (bind c f) R E"
  unfolding triple_def by (auto split: prod.splits outcome.splits)

lemma triple_andthen: "triple P c (\<lambda>_. Q) E \<Longrightarrow> triple Q d R E \<Longrightarrow> triple P (andthen c d) R E"
  unfolding andthen_def by (rule triple_bind)

lemma triple_deferred:
  "triple P c Q E \<Longrightarrow> (\<And>a. triple (Q a) d (\<lambda>_. R a) F) \<Longrightarrow> triple E d (\<lambda>_. F) F \<Longrightarrow> triple P (deferred c d) R F"
  unfolding triple_def by (auto split: prod.splits outcome.splits) (metis outcome.exhaust)+

lemma triple_conseq:
  "triple P c Q E \<Longrightarrow> (\<And>w. P' w \<Longrightarrow> P w) \<Longrightarrow> (\<And>a w. Q a w \<Longrightarrow> Q' a w) \<Longrightarrow> (\<And>w. E w \<Longrightarrow> E' w) \<Longrightarrow>
   triple P' c Q' E'"
  unfolding triple_def by blast

lemma triple_run: "triple P c (\<lambda>_. I) I \<Longrightarrow> P w \<Longrightarrow> I (snd (run c w))"
  unfolding triple_def by (cases "run c w", cases "fst (run c w)") auto

text \<open>Code that keeps an assertion on every path.\<close>

definition keeps :: "('w \<Rightarrow> bool) \<Rightarrow> ('a, 'w) proc \<Rightarrow> bool" where
  "keeps I c \<longleftrightarrow> triple I c (\<lambda>_. I) I"

lemma keeps_run: "keeps I c \<Longrightarrow> I w \<Longrightarrow> I (snd (run c w))"
  unfolding keeps_def by (rule triple_run)

lemma keeps_simps [simp]:
  "keeps I (Return a)" "keeps I (Panic m)" "keeps I (gets f)"
  by (simp_all add: keeps_def triple_rules)

lemma keeps_modify: "(\<And>w. I w \<Longrightarrow> I (f w)) \<Longrightarrow> keeps I (modify f)"
  by (simp add: keeps_def triple_rules)

lemma keeps_act: "(\<And>w. I w \<Longrightarrow> I (snd (f w))) \<Longrightarrow> keeps I (act f)"
  by (simp add: keeps_def triple_rules)

lemma keeps_bind: "keeps I c \<Longrightarrow> (\<And>a. keeps I (f a)) \<Longrightarrow> keeps I (bind c f)"
  unfolding keeps_def by (rule triple_bind)

lemma keeps_andthen: "keeps I c \<Longrightarrow> keeps I d \<Longrightarrow> keeps I (andthen c d)"
  unfolding keeps_def by (rule triple_andthen)

lemma keeps_deferred: "keeps I c \<Longrightarrow> keeps I d \<Longrightarrow> keeps I (deferred c d)"
  unfolding keeps_def by (rule triple_deferred)

lemma keeps_embed:
  assumes "\<And>v w. I (put v w) = I w"
  shows "keeps I (embed get put c)"
proof -
  have "I (snd (run (embed get put c) w)) = I w" for w
    by (induction c arbitrary: w) (simp_all add: assms)
  then show ?thesis unfolding keeps_def triple_def by (metis snd_conv)
qed

lemmas keeps_intros = keeps_bind keeps_andthen keeps_deferred

end
