(* ===== verification/Concurrency.thy ===== *)
theory Concurrency
  imports Go_Library
begin

text \<open>
  Waiting and mutual exclusion. A call that has to wait takes its step only when its condition holds;
  run without other goroutines it ends as \<open>blocked\<close>. A critical section is code between the lock and
  the deferred unlock of one mutex. Under every interleaving of goroutines, critical sections of the
  same mutex have the effect of running one after the other (locale \<open>mutex\<close>), which is why the theories
  of single components may treat them as one step.
\<close>

section \<open>Waiting\<close>

definition blocked :: string where
  "blocked = ''blocked on a mutex''"

text \<open>Wait for \<open>free\<close>, and do \<open>grab\<close> in the same step.\<close>

definition acquire :: "('w \<Rightarrow> bool) \<Rightarrow> ('w \<Rightarrow> 'w) \<Rightarrow> (unit, 'w) proc" where
  "acquire free grab =
     bind (act (\<lambda>w. (free w, if free w then grab w else w))) (\<lambda>ok. if ok then Return () else Panic blocked)"

lemma run_acquire [simp]:
  "run (acquire free grab) w = (if free w then (Normal (), grab w) else (Panicked blocked, w))"
  by (simp add: acquire_def)

section \<open>Critical sections\<close>

text \<open>\<open>mu.Lock(); defer mu.Unlock(); body\<close>, for the mutex that \<open>held\<close> reads and \<open>set_held\<close> writes.\<close>

definition critical :: "('w \<Rightarrow> bool) \<Rightarrow> (bool \<Rightarrow> 'w \<Rightarrow> 'w) \<Rightarrow> ('a, 'w) proc \<Rightarrow> ('a, 'w) proc" where
  "critical held set_held body =
     andthen (acquire (\<lambda>w. \<not> held w) (set_held True)) (deferred body (modify (set_held False)))"

lemma run_critical:
  "\<not> held w \<Longrightarrow> run (critical held set_held body) w =
     (fst (run body (set_held True w)), set_held False (snd (run body (set_held True w))))"
  by (simp add: critical_def split: prod.split)

text \<open>Code that leaves a part of the world alone, such as the mutex.\<close>

primrec leaves :: "('w \<Rightarrow> 'v) \<Rightarrow> ('a, 'w) proc \<Rightarrow> bool" where
  "leaves part (Return a) = True"
| "leaves part (Panic m) = True"
| "leaves part (Step u k) = (\<forall>w. part (u w) = part w \<and> leaves part (k w))"

named_theorems leaves_rules "code that leaves a part of the world alone"

lemma leaves_bind [leaves_rules]: "leaves held p \<Longrightarrow> (\<And>a. leaves held (f a)) \<Longrightarrow> leaves held (bind p f)"
  by (induction p) auto

lemma leaves_andthen [leaves_rules]: "leaves held p \<Longrightarrow> leaves held q \<Longrightarrow> leaves held (andthen p q)"
  unfolding andthen_def by (rule leaves_bind)

lemma leaves_modify [leaves_rules]: "(\<And>w. held (u w) = held w) \<Longrightarrow> leaves held (modify u)"
  by (simp add: modify_def)

lemma leaves_act [leaves_rules]: "(\<And>w. held (snd (f w)) = held w) \<Longrightarrow> leaves held (act f)"
  by (simp add: act_def)

lemma leaves_gets [leaves_rules]: "leaves held (gets f)"
  by (simp add: gets_def)

lemma leaves_embed [leaves_rules]: "(\<And>v w. held (put v w) = held w) \<Longrightarrow> leaves held (embed get put p)"
  by (induction p) auto

text \<open>The result of a section does not matter to a goroutine that drops it.\<close>

lemma bind_deferred_unit: "bind (deferred p d) (\<lambda>_. Return ()) = deferred (bind p (\<lambda>_. Return ())) d"
  by (induction p) simp_all

lemma bind_critical_unit:
  "bind (critical held set_held p) (\<lambda>_. Return ()) = critical held set_held (bind p (\<lambda>_. Return ()))"
  by (simp add: critical_def andthen_def bind_deferred_unit)

section \<open>Goroutines that share a mutex\<close>

text \<open>Goroutines that make calls, each of which may have to wait in its first step (the lock) only. A
  goroutine is between two calls, with the calls it has yet to make, or inside one, with the code left
  of it. A goroutine whose call has panicked makes no further call.\<close>

datatype 'w goroutine_state =
    Outside "(unit, 'w) proc list"
  | Inside "(unit, 'w) proc" "(unit, 'w) proc list"

definition settle :: "(unit, 'w) proc \<Rightarrow> (unit, 'w) proc list \<Rightarrow> 'w goroutine_state" where
  "settle p cs = (case p of Return _ \<Rightarrow> Outside cs | Panic _ \<Rightarrow> Outside [] | Step _ _ \<Rightarrow> Inside p cs)"

inductive calls_step :: "'w \<times> 'w goroutine_state list \<Rightarrow> 'w \<times> 'w goroutine_state list \<Rightarrow> bool" where
  enter: "i < length ts \<Longrightarrow> ts ! i = Outside (Step u k # cs) \<Longrightarrow> k w \<noteq> Panic blocked \<Longrightarrow>
    calls_step (w, ts) (u w, ts[i := settle (k w) cs])"
| inside: "i < length ts \<Longrightarrow> ts ! i = Inside (Step u k) cs \<Longrightarrow>
    calls_step (w, ts) (u w, ts[i := settle (k w) cs])"

text \<open>The same calls, each made at once.\<close>

inductive serial_step :: "'w \<times> (unit, 'w) proc list list \<Rightarrow> 'w \<times> (unit, 'w) proc list list \<Rightarrow> bool" where
  serial: "i < length rs \<Longrightarrow> rs ! i = c # cs \<Longrightarrow> run c w = (r, w') \<Longrightarrow>
    serial_step (w, rs) (w', rs[i := (case r of Normal _ \<Rightarrow> cs | Panicked _ \<Rightarrow> [])])"

text \<open>A state of the goroutines and the state of the serial execution it stands for: no goroutine is inside
  a call and the states agree, or one is inside, holds the mutex, and will end its call as the serial
  execution would.\<close>

inductive serialised ::
    "('w \<Rightarrow> bool) \<Rightarrow> (bool \<Rightarrow> 'w \<Rightarrow> 'w) \<Rightarrow> 'w \<times> 'w goroutine_state list \<Rightarrow> 'w \<times> (unit, 'w) proc list list \<Rightarrow> bool"
  for held set_held where
  idle: "\<not> held w \<Longrightarrow> serialised held set_held (w, map Outside rs) (w, rs)"
| busy: "held w \<Longrightarrow> i < length rs \<Longrightarrow> rs ! i = c # cs \<Longrightarrow> leaves held p \<Longrightarrow>
    run (deferred p (modify (set_held False))) w = run c wa \<Longrightarrow>
    serialised held set_held (w, (map Outside rs)[i := Inside (deferred p (modify (set_held False))) cs]) (wa, rs)"

locale mutex =
  fixes held :: "'w \<Rightarrow> bool" and set_held :: "bool \<Rightarrow> 'w \<Rightarrow> 'w"
  assumes held_set [simp]: "held (set_held b w) = b"
begin

text \<open>A call that is one critical section.\<close>

definition locking :: "(unit, 'w) proc \<Rightarrow> bool" where
  "locking c \<longleftrightarrow> (\<exists>b. c = critical held set_held b \<and> leaves held b)"

abbreviation all_locking :: "(unit, 'w) proc list list \<Rightarrow> bool" where
  "all_locking rs \<equiv> \<forall>cs \<in> set rs. \<forall>c \<in> set cs. locking c"

abbreviation unlocking :: "(unit, 'w) proc \<Rightarrow> (unit, 'w) proc" where
  "unlocking p \<equiv> deferred p (modify (set_held False))"

lemma locking_nth: "all_locking rs \<Longrightarrow> i < length rs \<Longrightarrow> rs ! i = c # cs \<Longrightarrow> locking c"
  by (metis list.set_intros(1) nth_mem)

lemma critical_step:
  "critical held set_held b =
     Step (\<lambda>w. if held w then w else set_held True w) (\<lambda>w. if held w then Panic blocked else unlocking b)"
  by (auto simp: critical_def acquire_def act_def andthen_def fun_eq_iff)

lemma unlocking_step: "\<exists>u k. unlocking p = Step u k"
  by (cases p) (simp_all add: modify_def)

lemma settle_unlocking: "settle (unlocking p) cs = Inside (unlocking p) cs"
  by (cases p) (simp_all add: settle_def modify_def)

lemma serial_step_keeps:
  assumes "serial_step a a'"
  shows "length (snd a') = length (snd a)" and "\<Union> (set ` set (snd a')) \<subseteq> \<Union> (set ` set (snd a))"
  using assms
proof -
  from assms show "length (snd a') = length (snd a)" by cases simp
  from assms show "\<Union> (set ` set (snd a')) \<subseteq> \<Union> (set ` set (snd a))"
  proof cases
    case (serial i rs c cs w r w')
    then have "set cs \<subseteq> \<Union> (set ` set rs)" by (metis UN_upper nth_mem set_subset_Cons subset_trans)
    with serial show ?thesis
      by (fastforce dest!: set_update_subset_insert [THEN subsetD] split: outcome.splits)
  qed
qed

text \<open>Every step of the goroutines is no step or one step of the serial execution.\<close>

lemma leave_section:
  assumes "held w" and "i < length rs" and "rs ! i = c # cs" and "run c wa = (r, set_held False w)"
  shows "\<exists>a'. serial_step (wa, rs) a' \<and>
    serialised held set_held (set_held False w, (map Outside rs)[i := Outside (case r of Normal _ \<Rightarrow> cs | Panicked _ \<Rightarrow> [])]) a'"
proof -
  let ?cs = "case r of Normal _ \<Rightarrow> cs | Panicked _ \<Rightarrow> []"
  have "serial_step (wa, rs) (set_held False w, rs[i := ?cs])"
    using assms by (intro serial) auto
  moreover have "serialised held set_held (set_held False w, map Outside (rs[i := ?cs])) (set_held False w, rs[i := ?cs])"
    by (rule idle) simp
  ultimately show ?thesis by (auto simp: map_update)
qed

lemma simulate_busy:
  assumes "held w" and "j < length rs" and "rs ! j = c # cs" and "leaves held p" and "run (unlocking p) w = run c wa"
    and "all_locking rs" and "calls_step (w, (map Outside rs)[j := Inside (unlocking p) cs]) s'"
  shows "serialised held set_held s' (wa, rs) \<or> (\<exists>a'. serial_step (wa, rs) a' \<and> serialised held set_held s' a')"
  using assms(7)
proof cases
  case (enter i u k cs')
  then have "i < length rs" "rs ! i = Step u k # cs'" by (cases "i = j"; simp)+
  with assms(6) have "locking (Step u k)" by (metis locking_nth)
  with enter assms(1) show ?thesis by (auto simp: locking_def critical_step)
next
  case (inside i u k cs')
  with assms have i: "i = j" by (auto simp: nth_list_update split: if_splits)
  with inside assms have cs': "cs' = cs" and code: "unlocking p = Step u k" by auto
  show ?thesis
  proof (cases p)
    case (Step v l)
    with code have uk: "u = v" "k = (\<lambda>w. unlocking (l w))" by auto
    from Step assms have "serialised held set_held (v w, (map Outside rs)[j := Inside (unlocking (l w)) cs]) (wa, rs)"
      by (intro busy) auto
    then show ?thesis unfolding inside(1) i cs' uk by (simp add: settle_unlocking)
  next
    case (Return x)
    with code have "u = set_held False" "k = (\<lambda>_. Return x)" by (auto simp: modify_def)
    with Return leave_section [OF assms(1-3), of wa "Normal x"] assms(5) show ?thesis
      unfolding inside(1) i cs' by (simp add: settle_def)
  next
    case (Panic m)
    with code have "u = set_held False" "k = (\<lambda>_. Panic m)" by (auto simp: modify_def)
    with Panic leave_section [OF assms(1-3), of wa "Panicked m"] assms(5) show ?thesis
      unfolding inside(1) i cs' by (simp add: settle_def)
  qed
qed

lemma simulate_idle:
  assumes "\<not> held w" and "all_locking rs" and "calls_step (w, map Outside rs) s'"
  shows "serialised held set_held s' (w, rs)"
  using assms(3)
proof cases
  case (enter i u k cs)
  then have i: "rs ! i = Step u k # cs" "i < length rs" by auto
  with assms(2) obtain b where b: "Step u k = critical held set_held b" "leaves held b"
    by (metis locking_def locking_nth)
  then have uk: "u w = set_held True w" "k w = unlocking b" using assms(1) by (simp_all add: critical_step)
  moreover have "run (unlocking b) (set_held True w) = run (Step u k) w" using uk by simp
  ultimately show ?thesis
    unfolding enter(1) settle_unlocking uk using b(2) i by (intro busy) auto
qed auto

lemma simulation:
  assumes "calls_step s s'" and "serialised held set_held s a" and "all_locking (snd a)"
  shows "serialised held set_held s' a \<or> (\<exists>a'. serial_step a a' \<and> serialised held set_held s' a')"
  using assms(2)
proof cases
  case (idle w rs)
  with assms show ?thesis using simulate_idle by auto
next
  case (busy w j rs c cs p wa)
  with assms show ?thesis using simulate_busy [OF busy(3-7)] by simp
qed

text \<open>So every execution has a serial one that it agrees with whenever the mutex is free.\<close>

theorem serialisable:
  assumes "calls_step\<^sup>*\<^sup>* (w, map Outside rs) s" and "\<not> held w" and "all_locking rs"
  shows "\<exists>a. serial_step\<^sup>*\<^sup>* (w, rs) a \<and> serialised held set_held s a \<and> all_locking (snd a)"
  using assms(1)
proof (induction rule: rtranclp_induct)
  case base
  have "serialised held set_held (w, map Outside rs) (w, rs)" using assms(2) by (rule idle)
  with assms(3) show ?case by auto
next
  case (step s s')
  then obtain a where a: "serial_step\<^sup>*\<^sup>* (w, rs) a" "serialised held set_held s a" "all_locking (snd a)"
    by blast
  from simulation [OF step(2) a(2,3)] show ?case
  proof
    assume "\<exists>a'. serial_step a a' \<and> serialised held set_held s' a'"
    then obtain a' where a': "serial_step a a'" "serialised held set_held s' a'" by blast
    then have "all_locking (snd a')" using a(3) serial_step_keeps(2) by blast
    with a(1) a' show ?thesis by (meson rtranclp.rtrancl_into_rtrancl)
  qed (use a in blast)
qed

text \<open>At most one goroutine is inside a call at a time, and as long as a goroutine has calls to make or
  to finish some goroutine can take a step.\<close>

lemma serialised_exclusive:
  "serialised held set_held s a \<Longrightarrow> i < length (snd s) \<Longrightarrow> j < length (snd s) \<Longrightarrow>
   snd s ! i = Inside p cs \<Longrightarrow> snd s ! j = Inside q ds \<Longrightarrow> i = j"
  by (induction rule: serialised.induct) (auto simp: nth_list_update split: if_splits)

lemma serialised_free: "serialised held set_held s a \<Longrightarrow> \<not> held (fst s) \<Longrightarrow> s = (fst a, map Outside (snd a))"
  by (induction rule: serialised.induct) auto

lemma serialised_progress:
  assumes "serialised held set_held s a" and "all_locking (snd a)" and "t \<in> set (snd s)" and "t \<noteq> Outside []"
  shows "\<exists>s'. calls_step s s'"
  using assms
proof (induction rule: serialised.induct)
  case (idle w rs)
  then obtain cs where "cs \<in> set rs" "cs \<noteq> []" by auto
  then obtain i c cs' where i: "i < length rs" "rs ! i = c # cs'" by (metis in_set_conv_nth neq_Nil_conv)
  with idle(2) have "locking c" by (metis locking_nth snd_conv)
  then obtain b where "c = critical held set_held b" by (auto simp: locking_def)
  then obtain u k where c: "c = Step u k" "k w = unlocking b" using idle(1) by (simp add: critical_step)
  moreover have "unlocking b \<noteq> Panic blocked" using unlocking_step [of b] by auto
  ultimately show ?case using enter [of i "map Outside rs" u k cs' w] i by auto
next
  case (busy w i rs c cs p wa)
  obtain u k where "unlocking p = Step u k" using unlocking_step by blast
  then show ?case
    using inside [of i "(map Outside rs)[i := Inside (unlocking p) cs]" u k cs w] busy by auto
qed

end

end
