(* ===== verification/Worker_Pool.thy ===== *)
theory Worker_Pool
  imports Controller Concurrency
begin

text \<open>
  The workers of one controller, side by side (manager/controller.go). The workers share the queue, the
  context and the state the sync function works on; the context and the error cell of the key in
  progress are each worker's own. Every atomic step of \<open>processNext\<close> is a step of the pool, so the workers
  interleave in every way.

  What the workqueue promises is the hypothesis \<open>exclusive_queue\<close>: it keeps a set of keys in progress, hands out no
  key of that set, and takes a key out of it only when the key is marked done.
\<close>

section \<open>The pool\<close>

record ('q, 'x) pool =
  pl_shared :: "('q, 'x) ctl_world"
  pl_locals :: "nat \<Rightarrow> bool \<times> error option"

definition worker_view :: "nat \<Rightarrow> ('q, 'x) pool \<Rightarrow> ('q, 'x) ctl_world" where
  "worker_view i m = (pl_shared m)\<lparr>cw_key_done := fst (pl_locals m i), cw_err := snd (pl_locals m i)\<rparr>"

definition worker_put :: "nat \<Rightarrow> ('q, 'x) ctl_world \<Rightarrow> ('q, 'x) pool \<Rightarrow> ('q, 'x) pool" where
  "worker_put i w m = m\<lparr>pl_shared := w, pl_locals := (pl_locals m)(i := (cw_key_done w, cw_err w))\<rparr>"

abbreviation pool_queue :: "('q, 'x) pool \<Rightarrow> 'q" where
  "pool_queue m \<equiv> cw_queue (pl_shared m)"

lemma view_queue [simp]: "cw_queue (worker_view i m) = pool_queue m"
  by (simp add: worker_view_def)

lemma put_queue [simp]: "pool_queue (worker_put i w m) = cw_queue w"
  by (simp add: worker_put_def)

text \<open>A worker waits for a key, has a key in progress with the code left of its round, or has left its loop
  because the queue has been shut down or because of a panic.\<close>

datatype 'w worker =
    Waiting
  | Processing string "(bool, 'w) proc"
  | Ended
  | Crashed string

definition after_step :: "string \<Rightarrow> (bool, 'w) proc \<Rightarrow> 'w worker" where
  "after_step key p =
     (case p of
        Return again \<Rightarrow> if again then Waiting else Ended
      | Panic m \<Rightarrow> Crashed m
      | Step _ _ \<Rightarrow> Processing key p)"

text \<open>The key of a worker; the empty key of a queue that is shut down does not count.\<close>

fun key_of :: "'w worker \<Rightarrow> string option" where
  "key_of (Processing key p) = (if key = [] then None else Some key)"
| "key_of _ = None"

definition handed_out :: "'q workqueue \<Rightarrow> ('q, 'x) pool \<Rightarrow> string" where
  "handed_out Q m = fst (fst (wq_Get Q (pool_queue m)))"

text \<open>The steps: a waiting worker begins a round of \<open>processNext\<close>, which takes a key; a worker goes on with
  its round; a worker that has left its loop is started again.\<close>

inductive pool_step ::
    "'q workqueue \<Rightarrow> (bool, ('q, 'x) ctl_world) proc \<Rightarrow>
     ('q, 'x) pool \<times> ('q, 'x) pool worker list \<Rightarrow> ('q, 'x) pool \<times> ('q, 'x) pool worker list \<Rightarrow> bool"
  for Q round where
  take_key: "i < length ws \<Longrightarrow> ws ! i = Waiting \<Longrightarrow> embed (worker_view i) (worker_put i) round = Step u k \<Longrightarrow>
    pool_step Q round (m, ws) (u m, ws[i := after_step (handed_out Q m) (k m)])"
| go_on: "i < length ws \<Longrightarrow> ws ! i = Processing key (Step u k) \<Longrightarrow>
    pool_step Q round (m, ws) (u m, ws[i := after_step key (k m)])"
| restart: "i < length ws \<Longrightarrow> ws ! i = Ended \<Longrightarrow> pool_step Q round (m, ws) (m, ws[i := Waiting])"

section \<open>The workqueue\<close>

text \<open>The queue is shut down when \<open>Get\<close> says so; it then gives the empty key, which is never queued.\<close>

definition exclusive_queue :: "'q workqueue \<Rightarrow> ('q \<Rightarrow> string set) \<Rightarrow> bool" where
  "exclusive_queue Q processing \<longleftrightarrow>
     (\<forall>q key q'. wq_Get Q q = ((key, False), q') \<longrightarrow>
        key \<noteq> [] \<and> key \<notin> processing q \<and> processing q' = insert key (processing q)) \<and>
     (\<forall>q key q'. wq_Get Q q = ((key, True), q') \<longrightarrow> key = [] \<and> processing q' = processing q) \<and>
     (\<forall>q key. processing (wq_Done Q key q) = processing q - {key}) \<and>
     (\<forall>q key. processing (wq_Forget Q key q) = processing q)"

section \<open>The code of a round\<close>

text \<open>\<open>processNext\<close> takes a key and ends, on every path, with the call that marks it done.\<close>

definition round_of :: "'q workqueue \<Rightarrow> (string \<Rightarrow> bool \<Rightarrow> ('q, 'x, bool) ctl) \<Rightarrow> ('q, 'x, bool) ctl" where
  "round_of Q body =
     bind (act (\<lambda>w. case wq_Get Q (cw_queue w) of (r, q) \<Rightarrow> (r, w\<lparr>cw_queue := q\<rparr>))) (\<lambda>(key, quit).
       deferred (body key quit) (on_queue (wq_Done Q key)))"

lemma processNext_is_round:
  assumes "\<And>ctx g namespace nm. leaves (\<lambda>w. processing (cw_queue w)) (orc_sync c ctx g namespace nm)"
    and "exclusive_queue (orc_queue c) processing"
  shows "\<exists>body. processNext api parseArg splitMeta T c ctx = round_of (orc_queue c) body \<and>
    (\<forall>key quit. leaves (\<lambda>w. processing (cw_queue w)) (body key quit))"
  unfolding processNext_def round_of_def
proof (rule exI, rule conjI, rule refl, intro allI)
  fix key quit
  have "leaves (\<lambda>w. processing (cw_queue w)) (ctl_done (orc_queue c) key)"
    using assms(2) by (auto simp: ctl_defs exclusive_queue_def intro!: leaves_rules)
  moreover have "leaves (\<lambda>w. processing (cw_queue w)) await_key_done"
    unfolding await_key_done_def by (rule leaves_bind) (auto intro: leaves_gets)
  moreover have "leaves (\<lambda>w. processing (cw_queue w)) new_key_context"
      "\<And>e. leaves (\<lambda>w. processing (cw_queue w)) (HandleError e)"
    by (auto simp: ctl_defs intro!: leaves_rules)
  ultimately show "leaves (\<lambda>w. processing (cw_queue w))
      (if quit then Return False
       else case SplitGVRMetaNamespaceKey parseArg splitMeta key of
         (g, namespace, nm, err) \<Rightarrow>
           (case err of
              Some e \<Rightarrow> andthen (HandleError (Errorf (''error parsing key '' @ Quote key @ '', skipping''))) (Return True)
            | None \<Rightarrow>
                andthen new_key_context
                  (case g of
                     None \<Rightarrow> Panic ''invalid memory address or nil pointer dereference''
                   | Some g' \<Rightarrow>
                       andthen
                         (orc_sync c (Key_WithValue T (orc_ops c) ctx (Operations_iface api (ctl_ops (orc_queue c) key))) g' namespace nm)
                         (andthen (ctl_done (orc_queue c) key) (andthen await_key_done (Return True))))))"
    by (auto intro!: leaves_andthen assms(1) split: prod.split option.split)
qed

text \<open>The code left of a worker's round.\<close>

definition left_of_round :: "'q workqueue \<Rightarrow> ('q \<Rightarrow> string set) \<Rightarrow> nat \<Rightarrow> string \<Rightarrow> (bool, ('q, 'x) pool) proc \<Rightarrow> bool" where
  "left_of_round Q processing i key p \<longleftrightarrow>
     (\<exists>body. p = embed (worker_view i) (worker_put i) (deferred body (on_queue (wq_Done Q key))) \<and>
        leaves (\<lambda>w. processing (cw_queue w)) body)"

lemma after_left:
  fixes p :: "(bool, ('q, 'x) pool) proc"
  assumes "left_of_round Q processing i key p"
  shows "after_step key p = Processing key p"
proof -
  have "\<exists>u k. embed (worker_view i) (worker_put i) (deferred body (on_queue f)) = Step u k" for body :: "('q, 'x, bool) ctl" and f
    by (cases body) (auto simp: on_queue_def modify_def)
  then obtain u k where "p = Step u k" using assms unfolding left_of_round_def by metis
  then show ?thesis by (simp add: after_step_def)
qed

lemma begin_round:
  assumes "embed (worker_view i) (worker_put i) (round_of Q body) = Step u k"
    and "\<And>key quit. leaves (\<lambda>w. processing (cw_queue w)) (body key quit)"
    and "wq_Get Q (pool_queue m) = ((key, quit), q)"
  shows "pool_queue (u m) = q \<and> left_of_round Q processing i key (k m)"
  using assms by (auto simp: round_of_def act_def left_of_round_def)

lemma can_take_key:
  fixes processing :: "'q \<Rightarrow> string set" and Q :: "'q workqueue" and m :: "('q, 'x) pool"
  assumes "wq_Get Q (pool_queue m) = ((key, quit), q)" and "i < length ws" and "ws ! i = Waiting"
    and "\<And>key quit. leaves (\<lambda>w. processing (cw_queue w)) (body key quit)"
  shows "\<exists>m' p. pool_step Q (round_of Q body) (m, ws) (m', ws[i := Processing key p]) \<and> pool_queue m' = q"
proof -
  obtain u k where step: "embed (worker_view i) (worker_put i) (round_of Q body) = Step u k"
    by (simp add: round_of_def act_def)
  from begin_round [OF step assms(4,1)] have "pool_queue (u m) = q" "left_of_round Q processing i key (k m)" by blast+
  moreover have "handed_out Q m = key" using assms(1) by (simp add: handed_out_def)
  ultimately show ?thesis using take_key [OF assms(2,3) step, of Q m] after_left by metis
qed

lemma round_step:
  assumes "left_of_round Q processing i key (Step u k)" and "exclusive_queue Q processing"
  shows "left_of_round Q processing i key (k m) \<and> processing (pool_queue (u m)) = processing (pool_queue m) \<or>
    key_of (after_step key (k m)) = None \<and> (\<forall>key' p. after_step key (k m) \<noteq> Processing key' p) \<and> processing (pool_queue (u m)) = processing (pool_queue m) - {key}"
proof -
  obtain body where body: "Step u k = embed (worker_view i) (worker_put i) (deferred body (on_queue (wq_Done Q key)))"
    "leaves (\<lambda>w. processing (cw_queue w)) body"
    using assms(1) by (auto simp: left_of_round_def)
  show ?thesis
  proof (cases body)
    case (Step v l)
    with body show ?thesis by (auto simp: left_of_round_def)
  qed (use body assms(2) in \<open>auto simp: on_queue_def modify_def exclusive_queue_def after_step_def\<close>)
qed

section \<open>Keys in progress\<close>

text \<open>No two workers have the same key, and \<open>S\<close> is the set of their keys.\<close>

definition own_keys :: "'w worker list \<Rightarrow> string set \<Rightarrow> bool" where
  "own_keys ws S \<longleftrightarrow>
     (\<forall>i < length ws. \<forall>j < length ws. \<forall>key. key_of (ws ! i) = Some key \<longrightarrow> key_of (ws ! j) = Some key \<longrightarrow> i = j) \<and>
     S = {key. \<exists>i < length ws. key_of (ws ! i) = Some key}"

lemma key_of_update:
  "i < length ws \<Longrightarrow> j < length ws \<Longrightarrow> key_of (ws[i := x] ! j) = (if j = i then key_of x else key_of (ws ! j))"
  by simp

lemma own_keys_same:
  assumes "own_keys ws S" and "key_of x = key_of (ws ! i)"
  shows "own_keys (ws[i := x]) S"
proof -
  have "key_of (ws[i := x] ! j) = key_of (ws ! j)" if "j < length ws" for j
    using that assms(2) by (cases "j = i") simp_all
  with assms(1) show ?thesis by (auto simp: own_keys_def)
qed

lemma own_keys_take:
  assumes "own_keys ws S" and i: "i < length ws" and "key_of (ws ! i) = None" and "key_of x = Some key" and "key \<notin> S"
  shows "own_keys (ws[i := x]) (insert key S)"
proof -
  have S: "S = {key. \<exists>j < length ws. key_of (ws ! j) = Some key}"
    and one: "\<And>j l key. j < length ws \<Longrightarrow> l < length ws \<Longrightarrow> key_of (ws ! j) = Some key \<Longrightarrow> key_of (ws ! l) = Some key \<Longrightarrow> j = l"
    using assms(1) by (auto simp: own_keys_def)
  have "key' = key \<or> (\<exists>j < length ws. key_of (ws ! j) = Some key') \<longleftrightarrow> (\<exists>j < length ws. key_of (ws[i := x] ! j) = Some key')" for key'
    using assms(3,4) i by (metis key_of_update option.distinct(1) option.inject)
  moreover have "j = l" if "j < length ws" "l < length ws" "key_of (ws[i := x] ! j) = Some key'" "key_of (ws[i := x] ! l) = Some key'"
    for j l key'
    using that assms(4,5) i one [of j l key'] unfolding S by (auto simp: key_of_update split: if_splits)
  ultimately show ?thesis by (auto simp: own_keys_def S)
qed

lemma own_keys_drop:
  assumes "own_keys ws S" and i: "i < length ws" and "key_of (ws ! i) = Some key" and "key_of x = None"
  shows "own_keys (ws[i := x]) (S - {key})"
proof -
  have S: "S = {key. \<exists>j < length ws. key_of (ws ! j) = Some key}"
    and one: "\<And>j l key. j < length ws \<Longrightarrow> l < length ws \<Longrightarrow> key_of (ws ! j) = Some key \<Longrightarrow> key_of (ws ! l) = Some key \<Longrightarrow> j = l"
    using assms(1) by (auto simp: own_keys_def)
  have "key' \<noteq> key \<and> (\<exists>j < length ws. key_of (ws ! j) = Some key') \<longleftrightarrow> (\<exists>j < length ws. key_of (ws[i := x] ! j) = Some key')" for key'
    using assms(3,4) i one by (metis key_of_update option.distinct(1) option.inject)
  moreover have "j = l" if "j < length ws" "l < length ws" "key_of (ws[i := x] ! j) = Some key'" "key_of (ws[i := x] ! l) = Some key'"
    for j l key'
    using that assms(4) i one [of j l key'] by (auto simp: key_of_update split: if_splits)
  ultimately show ?thesis by (auto simp: own_keys_def S)
qed

lemma own_keys_nonempty: "own_keys ws S \<Longrightarrow> [] \<notin> S"
  unfolding own_keys_def by (auto elim!: key_of.elims split: if_splits)

section \<open>The invariant of the pool\<close>

definition pool_inv ::
    "'q workqueue \<Rightarrow> ('q \<Rightarrow> string set) \<Rightarrow> ('q, 'x) pool \<times> ('q, 'x) pool worker list \<Rightarrow> bool" where
  "pool_inv Q processing s \<longleftrightarrow>
     own_keys (snd s) (processing (pool_queue (fst s))) \<and>
     (\<forall>i < length (snd s). \<forall>key p. snd s ! i = Processing key p \<longrightarrow> left_of_round Q processing i key p)"

lemma pool_inv_update:
  assumes "pool_inv Q processing (m, ws)" and "own_keys (ws[i := x]) (processing (pool_queue m'))"
    and "\<And>key p. x = Processing key p \<Longrightarrow> left_of_round Q processing i key p"
  shows "pool_inv Q processing (m', ws[i := x])"
proof -
  have "left_of_round Q processing j key p" if "j < length ws" "ws[i := x] ! j = Processing key p" for j key p
    using that assms(1,3) by (cases "j = i") (auto simp: pool_inv_def)
  with assms(2) show ?thesis by (simp add: pool_inv_def)
qed

lemma pool_inv_step:
  assumes "pool_step Q (round_of Q body) s s'" and "pool_inv Q processing s" and "exclusive_queue Q processing"
    and body: "\<And>key quit. leaves (\<lambda>w. processing (cw_queue w)) (body key quit)"
  shows "pool_inv Q processing s'"
  using assms(1,2)
proof (induction rule: pool_step.induct)
  case (take_key i ws u k m)
  obtain key quit q where get: "wq_Get Q (pool_queue m) = ((key, quit), q)" by (metis prod.collapse)
  from begin_round [OF take_key(3) body get] have
    begun: "pool_queue (u m) = q" "left_of_round Q processing i key (k m)" by blast+
  have x: "after_step (handed_out Q m) (k m) = Processing key (k m)"
    using after_left [OF begun(2)] get by (simp add: handed_out_def)
  have own: "own_keys ws (processing (pool_queue m))" using take_key(4) by (simp add: pool_inv_def)
  have "own_keys (ws[i := Processing key (k m)]) (processing q)"
  proof (cases quit)
    case True
    with get assms(3) have "key = []" "processing q = processing (pool_queue m)" by (auto simp: exclusive_queue_def)
    with own_keys_same [OF own, of "Processing key (k m)" i] take_key(2) show ?thesis by simp
  next
    case False
    with get assms(3) have "key \<noteq> []" "key \<notin> processing (pool_queue m)"
      "processing q = insert key (processing (pool_queue m))" by (auto simp: exclusive_queue_def)
    with own_keys_take [OF own take_key(1)] take_key(2) show ?thesis by simp
  qed
  then show ?case unfolding x using begun by (intro pool_inv_update [OF take_key(4)]) auto
next
  case (go_on i ws key u k m)
  then have left: "left_of_round Q processing i key (Step u k)" by (auto simp: pool_inv_def)
  have own: "own_keys ws (processing (pool_queue m))" using go_on(3) by (simp add: pool_inv_def)
  from round_step [OF left assms(3), of m] show ?case
  proof (elim disjE conjE)
    assume k: "left_of_round Q processing i key (k m)" "processing (pool_queue (u m)) = processing (pool_queue m)"
    have "own_keys (ws[i := Processing key (k m)]) (processing (pool_queue (u m)))"
      unfolding k(2) by (rule own_keys_same [OF own]) (simp add: go_on(2))
    then show ?thesis unfolding after_left [OF k(1)] using k(1) by (intro pool_inv_update [OF go_on(3)]) auto
  next
    assume x: "key_of (after_step key (k m)) = None" "\<forall>key' p. after_step key (k m) \<noteq> Processing key' p"
      and d: "processing (pool_queue (u m)) = processing (pool_queue m) - {key}"
    have "own_keys (ws[i := after_step key (k m)]) (processing (pool_queue (u m)))"
    proof (cases "key = []")
      case True
      with own_keys_nonempty [OF own] d have same: "processing (pool_queue (u m)) = processing (pool_queue m)" by simp
      show ?thesis unfolding same by (rule own_keys_same [OF own]) (use x(1) True in \<open>simp add: go_on(2)\<close>)
    next
      case False
      with own_keys_drop [OF own go_on(1) _ x(1)] d go_on(2) show ?thesis by simp
    qed
    then show ?thesis using x(2) by (intro pool_inv_update [OF go_on(3)]) auto
  qed
next
  case (restart i ws m)
  have own: "own_keys ws (processing (pool_queue m))" using restart(3) by (simp add: pool_inv_def)
  have "own_keys (ws[i := Waiting]) (processing (pool_queue m))"
    by (rule own_keys_same [OF own]) (simp add: restart(2))
  then show ?case by (intro pool_inv_update [OF restart(3)]) auto
qed

section \<open>Properties\<close>

text \<open>C8: The workers of a controller. For a queue that hands out no key in progress, a sync function that
  leaves the set of keys in progress alone, and workers that start with no key in progress: under every interleaving of
  the workers' steps no two workers have the same key, and the keys in progress are exactly those of the
  workers that have one. So a key is synced by one worker at a time, and when no worker is busy, after
  panics too, no key is left in progress.\<close>

theorem workers_never_share_a_key:
  assumes "exclusive_queue (orc_queue c) processing"
    and "\<And>ctx g namespace nm. leaves (\<lambda>w. processing (cw_queue w)) (orc_sync c ctx g namespace nm)"
    and "processing (pool_queue m0) = {}"
    and "(pool_step (orc_queue c) (processNext api parseArg splitMeta T c ctx))\<^sup>*\<^sup>* (m0, replicate n Waiting) (m, ws)"
  shows "(\<forall>i < length ws. \<forall>j < length ws. \<forall>key p q. key \<noteq> [] \<longrightarrow> ws ! i = Processing key p \<longrightarrow> ws ! j = Processing key q \<longrightarrow> i = j) \<and>
    processing (pool_queue m) = {key. key \<noteq> [] \<and> (\<exists>p. Processing key p \<in> set ws)}"
proof -
  obtain body where round: "processNext api parseArg splitMeta T c ctx = round_of (orc_queue c) body"
    and body: "\<And>key quit. leaves (\<lambda>w. processing (cw_queue w)) (body key quit)"
    using processNext_is_round [OF assms(2,1)] by blast
  from assms(4) have "pool_inv (orc_queue c) processing (m, ws)"
    unfolding round
  proof (induction rule: rtranclp_induct)
    case base
    show ?case using assms(3) by (simp add: pool_inv_def own_keys_def)
  qed (use pool_inv_step assms(1) body in blast)
  then have own: "own_keys ws (processing (pool_queue m))" by (simp add: pool_inv_def)
  have key: "key_of x = Some k \<longleftrightarrow> k \<noteq> [] \<and> (\<exists>p. x = Processing k p)" for x :: "('a, 'c) pool worker" and k
    by (cases x) auto
  have "processing (pool_queue m) = {k. k \<noteq> [] \<and> (\<exists>p. Processing k p \<in> set ws)}"
    using own unfolding own_keys_def key by (auto simp: in_set_conv_nth)
  with own show ?thesis unfolding own_keys_def key by blast
qed

section \<open>Witnesses\<close>

text \<open>A queue of keys with the set of keys in progress, a controller over it whose sync function does
  nothing, and two workers that both take a key.\<close>

definition demo_exclusive :: "(string list \<times> string list) workqueue" where
  "demo_exclusive =
     \<lparr>wq_Get = (\<lambda>(ks, ps). case filter (\<lambda>k. k \<noteq> [] \<and> k \<notin> set ps) ks of
          [] \<Rightarrow> (([], True), (ks, ps))
        | k # _ \<Rightarrow> ((k, False), (remove1 k ks, k # ps))),
      wq_Done = (\<lambda>k (ks, ps). (ks, removeAll k ps)), wq_Forget = (\<lambda>_ q. q),
      wq_AddRateLimited = (\<lambda>k (ks, ps). (ks @ [k], ps)), wq_AddAfter = (\<lambda>k _ (ks, ps). (ks @ [k], ps)),
      wq_ShutDown = (\<lambda>q. q)\<rparr>"

definition demo_pool_controller :: "(string list \<times> string list, unit, unit) OwnedResourceController" where
  "demo_pool_controller =
     NewOwnedResourceController (\<lambda>_. demo_exclusive) ''pool'' \<lparr>Group = ''g'', Version = ''v1'', Resource = ''r''\<rparr>
       NewQueueOperationsCtx 0 (\<lambda>_. 0) (\<lambda>_ _ _ _. Return ())"

definition demo_pool :: "(string list \<times> string list, unit) pool" where
  "demo_pool =
     \<lparr>pl_shared = \<lparr>cw_queue = ([''a'', ''a'', ''b''], []), cw_worker_done = False, cw_key_done = False, cw_err = None,
        cw_handled = [], cw_workers = 2, cw_app = ()\<rparr>, pl_locals = (\<lambda>_. (False, None))\<rparr>"

lemma demo_exclusive_queue: "exclusive_queue demo_exclusive (\<lambda>q. set (snd q))"
proof -
  have "filter P ks = k # xs \<Longrightarrow> P k" for P :: "string \<Rightarrow> bool" and ks k xs
    by (metis filter_eq_ConsD)
  then show ?thesis
    by (auto simp: exclusive_queue_def demo_exclusive_def split: list.splits)
qed

theorem workers_never_share_a_key_witness:
  "\<exists>m p q. (pool_step demo_exclusive (processNext (demo_api 0) demo_parse demo_split_meta demo_unit_type demo_pool_controller []))\<^sup>*\<^sup>*
      (demo_pool, replicate 2 Waiting) (m, [Processing ''a'' p, Processing ''b'' q]) \<and> set (snd (pool_queue m)) = {''a'', ''b''}"
proof -
  let ?c = demo_pool_controller and ?processing = "\<lambda>q :: string list \<times> string list. set (snd q)"
  let ?round = "processNext (demo_api 0) demo_parse demo_split_meta demo_unit_type ?c []"
  have Q: "orc_queue ?c = demo_exclusive" "\<And>ctx g namespace nm. orc_sync ?c ctx g namespace nm = Return ()"
    by (simp_all add: demo_pool_controller_def NewOwnedResourceController_def)
  have ex: "exclusive_queue (orc_queue ?c) ?processing" by (simp add: Q demo_exclusive_queue)
  have sync: "leaves (\<lambda>w. ?processing (cw_queue w)) (orc_sync ?c ctx g namespace nm)" for ctx g namespace nm by (simp add: Q)
  obtain body where round: "?round = round_of demo_exclusive body"
    and body: "\<And>key quit. leaves (\<lambda>w. ?processing (cw_queue w)) (body key quit)"
    using processNext_is_round [OF sync ex, of "demo_api 0" demo_parse demo_split_meta demo_unit_type "[]"] unfolding Q by blast
  have "wq_Get demo_exclusive (pool_queue demo_pool) = ((''a'', False), ([''a'', ''b''], [''a'']))"
    by (simp add: demo_exclusive_def demo_pool_def)
  from can_take_key [where body = body and processing = ?processing, OF this _ _ body, of 0 "[Waiting, Waiting]"] obtain m1 p where
    1: "pool_step demo_exclusive ?round (demo_pool, [Waiting, Waiting]) (m1, [Processing ''a'' p, Waiting])"
    and m1: "pool_queue m1 = ([''a'', ''b''], [''a''])" by (auto simp: round)
  have "wq_Get demo_exclusive (pool_queue m1) = ((''b'', False), ([''a''], [''b'', ''a'']))"
    by (simp add: demo_exclusive_def m1)
  from can_take_key [where body = body and processing = ?processing, OF this _ _ body, of 1 "[Processing ''a'' p, Waiting]"] obtain m2 q where
    2: "pool_step demo_exclusive ?round (m1, [Processing ''a'' p, Waiting]) (m2, [Processing ''a'' p, Processing ''b'' q])"
    by (auto simp: round)
  have steps: "(pool_step (orc_queue ?c) ?round)\<^sup>*\<^sup>* (demo_pool, replicate 2 Waiting) (m2, [Processing ''a'' p, Processing ''b'' q])"
    using 1 2 by (simp add: Q numeral_2_eq_2)
  from workers_never_share_a_key [OF ex sync _ steps] have "set (snd (pool_queue m2)) = {''a'', ''b''}"
    by (auto simp: demo_pool_def)
  with steps show ?thesis unfolding Q by blast
qed

end
