(* ===== verification/Hash.thy ===== *)
theory Hash
  imports Prelude "HOL-Library.Word"
begin

unbundle bit_operations_syntax

text \<open>
  The package \<open>hash\<close> (hash/hash.go, hash/set.go): hashing of objects, the comparison of hashes,
  and the set that stores objects under their hash.

  The printer \<open>spew\<close>, xxhash and SHA-512/256 are not part of the repository: they are the fields
  of \<open>hash_lib\<close>, functions about which nothing is assumed. \<open>Sprintf("%x")\<close> and
  \<open>subtle.ConstantTimeCompare\<close> are the standard library's and are written out.

  A \<open>Set\<close> is a (non-nil) Go map. The abstract view of a set is the partial map from hashes to
  objects; the locale \<open>hash_set\<close> states what every operation does to that view, and
  its client lemmas are proved from that contract alone.
\<close>

section \<open>Hashing\<close>

record 'o hash_lib =
  spew_Fprintf :: "'o \<Rightarrow> string"
  xxhash_Sum64 :: "string \<Rightarrow> 64 word"
  sha512_Sum512_256 :: "string \<Rightarrow> string"

text \<open>\<open>fmt.Sprintf("%x", n)\<close> for an unsigned integer.\<close>

fun hex_nat :: "nat \<Rightarrow> string" where
  "hex_nat n = (if n < 16 then [hex_digit n] else hex_nat (n div 16) @ [hex_digit n])"

declare hex_nat.simps [simp del]

definition Sprintf_x :: "64 word \<Rightarrow> string" where
  "Sprintf_x n = hex_nat (unat n)"

text \<open>\<open>subtle.ConstantTimeByteEq\<close> and \<open>subtle.ConstantTimeCompare\<close>.\<close>

definition ConstantTimeByteEq :: "8 word \<Rightarrow> 8 word \<Rightarrow> nat" where
  "ConstantTimeByteEq x y = unat (drop_bit 31 ((ucast (x XOR y) :: 32 word) - 1))"

definition bytes :: "string \<Rightarrow> 8 word list" where
  "bytes s = map of_char s"

primrec ct_loop :: "8 word \<Rightarrow> (8 word \<times> 8 word) list \<Rightarrow> 8 word" where
  "ct_loop v [] = v"
| "ct_loop v (p # ps) = ct_loop (v OR (fst p XOR snd p)) ps"

definition ConstantTimeCompare :: "8 word list \<Rightarrow> 8 word list \<Rightarrow> nat" where
  "ConstantTimeCompare x y =
     (if length x \<noteq> length y then 0 else ConstantTimeByteEq (ct_loop 0 (zip x y)) 0)"

record 'o hasher =
  ObjectHashFunc :: "'o \<Rightarrow> string"
  EqualFunc :: "string \<Rightarrow> string \<Rightarrow> bool"

definition hasher_Hash :: "'o hasher \<Rightarrow> 'o \<Rightarrow> string" where
  "hasher_Hash h obj = ObjectHashFunc h obj"

definition hasher_Equal :: "'o hasher \<Rightarrow> string \<Rightarrow> string \<Rightarrow> bool" where
  "hasher_Equal h a b = EqualFunc h a b"

definition SecureObject :: "'o hash_lib \<Rightarrow> 'o \<Rightarrow> string" where
  "SecureObject L obj = Sprintf_x (xxhash_Sum64 L (sha512_Sum512_256 L (spew_Fprintf L obj)))"

definition SecureEqual :: "string \<Rightarrow> string \<Rightarrow> bool" where
  "SecureEqual a b \<longleftrightarrow> ConstantTimeCompare (bytes a) (bytes b) = 1"

definition Object :: "'o hash_lib \<Rightarrow> 'o \<Rightarrow> string" where
  "Object L obj = Sprintf_x (xxhash_Sum64 L (spew_Fprintf L obj))"

definition Equal :: "string \<Rightarrow> string \<Rightarrow> bool" where
  "Equal a b \<longleftrightarrow> ConstantTimeCompare (bytes a) (bytes b) = 1"

definition NewSecureObjectHash :: "'o hash_lib \<Rightarrow> 'o hasher" where
  "NewSecureObjectHash L = \<lparr>ObjectHashFunc = SecureObject L, EqualFunc = SecureEqual\<rparr>"

definition NewObjectHash :: "'o hash_lib \<Rightarrow> 'o hasher" where
  "NewObjectHash L = \<lparr>ObjectHashFunc = Object L, EqualFunc = Equal\<rparr>"

section \<open>Set\<close>

type_synonym 'o hset = "(string, 'o) gomap"

definition Set_Insert :: "'o hash_lib \<Rightarrow> 'o hset \<Rightarrow> 'o list \<Rightarrow> 'o hset" where
  "Set_Insert L s objects = fold (\<lambda>ob m. AList.update (Object L ob) ob m) objects s"

definition NewSet :: "'o hash_lib \<Rightarrow> 'o list \<Rightarrow> 'o hset" where
  "NewSet L objects = fold (\<lambda>ob m. AList.update (Object L ob) ob m) objects []"

fun Set_Has :: "'o hash_lib \<Rightarrow> 'o hset \<Rightarrow> 'o list \<Rightarrow> bool" where
  "Set_Has L s [] = True"
| "Set_Has L s (ob # objects) =
     (case map_of s (Object L ob) of None \<Rightarrow> False | Some _ \<Rightarrow> Set_Has L s objects)"

definition Set_Delete :: "'o hash_lib \<Rightarrow> 'o hset \<Rightarrow> 'o list \<Rightarrow> 'o hset" where
  "Set_Delete L s objects = fold (\<lambda>ob m. AList.delete (Object L ob) m) objects s"

definition Set_Len :: "'o hset \<Rightarrow> nat" where
  "Set_Len s = length s"

type_synonym 'o set_order = "'o hset \<Rightarrow> 'o hset"

definition Set_Intersect :: "'o hash_lib \<Rightarrow> 'o set_order \<Rightarrow> 'o hset \<Rightarrow> 'o hset \<Rightarrow> 'o hset" where
  "Set_Intersect L ord s other =
     fold (\<lambda>(h, ob) out. case map_of other h of Some _ \<Rightarrow> AList.update h ob out | None \<Rightarrow> out)
       (ord s) (NewSet L [])"

definition Set_SetDifference :: "'o hash_lib \<Rightarrow> 'o set_order \<Rightarrow> 'o hset \<Rightarrow> 'o hset \<Rightarrow> 'o hset" where
  "Set_SetDifference L ord s other =
     fold (\<lambda>(h, ob) out. case map_of other h of None \<Rightarrow> AList.update h ob out | Some _ \<Rightarrow> out)
       (ord s) (NewSet L [])"

definition Set_Union :: "'o hash_lib \<Rightarrow> 'o set_order \<Rightarrow> 'o hset \<Rightarrow> 'o hset \<Rightarrow> 'o hset" where
  "Set_Union L ord s other =
     fold (\<lambda>(h, ob) out. AList.update h ob out) (ord s)
       (fold (\<lambda>(h, ob) out. AList.update h ob out) (ord other) (NewSet L []))"

fun contains_loop :: "'o hset \<Rightarrow> 'o hset \<Rightarrow> bool" where
  "contains_loop s [] = True"
| "contains_loop s ((h, ob) # entries) =
     (case map_of s h of None \<Rightarrow> False | Some _ \<Rightarrow> contains_loop s entries)"

definition Set_Contains :: "'o set_order \<Rightarrow> 'o hset \<Rightarrow> 'o hset \<Rightarrow> bool" where
  "Set_Contains ord s other = contains_loop s (ord other)"

definition Set_EqualElements :: "'o set_order \<Rightarrow> 'o hset \<Rightarrow> 'o hset \<Rightarrow> bool" where
  "Set_EqualElements ord s other \<longleftrightarrow> Set_Len s = Set_Len other \<and> Set_Contains ord s other"

definition Set_Pop :: "'o \<Rightarrow> 'o set_order \<Rightarrow> 'o hset \<Rightarrow> ('o \<times> bool) \<times> 'o hset" where
  "Set_Pop zero ord s =
     (case ord s of
        (h, ob) # _ \<Rightarrow> ((ob, True), AList.delete h s)
      | [] \<Rightarrow> ((zero, False), s))"

section \<open>Lemmas on hashing\<close>

lemma hex_digit_inject: "a < 16 \<Longrightarrow> b < 16 \<Longrightarrow> hex_digit a = hex_digit b \<longleftrightarrow> a = b"
proof -
  have "distinct (map hex_digit [0..<16])" by code_simp
  then show "a < 16 \<Longrightarrow> b < 16 \<Longrightarrow> hex_digit a = hex_digit b \<longleftrightarrow> a = b"
    by (auto simp: distinct_map inj_on_def)
qed

lemma hex_digit_mod [simp]: "hex_digit (n mod 16) = hex_digit n"
  by (simp add: hex_digit_def)

lemma hex_nat_not_Nil [simp]: "hex_nat n \<noteq> []" "[] \<noteq> hex_nat n"
  by (simp_all add: hex_nat.simps [of n])

lemma hex_nat_inject: "hex_nat a = hex_nat b \<longleftrightarrow> a = b"
proof (induction a arbitrary: b rule: hex_nat.induct)
  case (1 a)
  show ?case
  proof (cases "a < 16 \<or> b < 16")
    case True
    then show ?thesis
      by (auto simp: hex_nat.simps [of a] hex_nat.simps [of b] hex_digit_inject)
  next
    case False
    then have "hex_nat a = hex_nat b \<longleftrightarrow>
        hex_nat (a div 16) = hex_nat (b div 16) \<and> hex_digit (a mod 16) = hex_digit (b mod 16)"
      by (simp add: hex_nat.simps [of a] hex_nat.simps [of b])
    also have "\<dots> \<longleftrightarrow> a div 16 = b div 16 \<and> a mod 16 = b mod 16"
      using 1 [of "b div 16"] False by (simp only: hex_digit_inject) simp
    also have "\<dots> \<longleftrightarrow> a = b" by (metis div_mult_mod_eq)
    finally show ?thesis .
  qed
qed

lemma hex_nat_length: "n < 16 ^ Suc k \<Longrightarrow> length (hex_nat n) \<le> Suc k"
proof (induction k arbitrary: n)
  case 0
  then show ?case by (simp add: hex_nat.simps)
next
  case (Suc k)
  show ?case
  proof (cases "n < 16")
    case True
    then show ?thesis by (simp add: hex_nat.simps)
  next
    case False
    from Suc.prems have "n div 16 < 16 ^ Suc k" by (simp add: less_mult_imp_div_less)
    from Suc.IH [OF this] False show ?thesis by (simp add: hex_nat.simps [of n])
  qed
qed

lemma Sprintf_x_inject [simp]: "Sprintf_x a = Sprintf_x b \<longleftrightarrow> a = b"
  by (simp add: Sprintf_x_def hex_nat_inject word_unat_eq_iff)

lemma Sprintf_x_not_Nil [simp]: "Sprintf_x a \<noteq> []"
  by (simp add: Sprintf_x_def)

lemma Sprintf_x_length: "length (Sprintf_x a) \<le> 16"
proof -
  have "unat a < 16 ^ Suc 15" using unsigned_less [of a] by simp
  from hex_nat_length [OF this] show ?thesis by (simp add: Sprintf_x_def)
qed

lemma ucast_byte_pred_small:
  fixes z :: "8 word"
  assumes "z \<noteq> 0"
  shows "drop_bit 31 ((ucast z :: 32 word) - 1) = 0"
proof -
  have lt: "unat z < 2 ^ LENGTH(8)" by (rule unsigned_less)
  have u: "unat (ucast z :: 32 word) = unat z"
    using lt by (simp add: unsigned_ucast_eq take_bit_nat_eq_self)
  have nz: "(ucast z :: 32 word) \<noteq> 0"
    using assms u by (metis unat_0 unat_eq_zero)
  have "unat ((ucast z :: 32 word) - 1) < 2 ^ 8"
    using lt by (simp add: unat_minus_one [OF nz] u)
  then have "unat (drop_bit 31 ((ucast z :: 32 word) - 1)) = 0"
    by (simp add: drop_bit_eq_div unat_div)
  then show ?thesis by (simp add: unat_eq_zero)
qed

lemma ConstantTimeByteEq_iff: "ConstantTimeByteEq x y = 1 \<longleftrightarrow> x = y"
proof (cases "x = y")
  case True
  have "unat (drop_bit 31 (0 - 1 :: 32 word)) = 1" by code_simp
  with True show ?thesis by (simp add: ConstantTimeByteEq_def)
next
  case False
  then have "x XOR y \<noteq> 0" by (metis bit.xor_left_self xor.right_neutral)
  from ucast_byte_pred_small [OF this] False show ?thesis by (simp add: ConstantTimeByteEq_def)
qed

lemma ct_loop_zero_iff: "ct_loop v ps = 0 \<longleftrightarrow> v = 0 \<and> (\<forall>p \<in> set ps. fst p = snd p)"
proof (induction ps arbitrary: v)
  case Nil
  then show ?case by simp
next
  case (Cons p ps)
  have "v OR (fst p XOR snd p) = 0 \<longleftrightarrow> v = 0 \<and> fst p = snd p"
    by (metis or_eq_0_iff bit.xor_left_self xor.right_neutral xor_self_eq)
  with Cons show ?case by auto
qed

lemma unat_byte: "unat (of_char c :: 8 word) = of_char c"
proof -
  have "(of_char c :: nat) < 2 ^ LENGTH(8)"
    using mod_less_divisor [of 256 "of_char c :: nat"] by (simp only: of_char_mod_256) simp
  then have "unat (of_nat (of_char c) :: 8 word) = of_char c" by (simp add: unat_of_nat)
  then show ?thesis by (simp only: of_nat_of_char)
qed

lemma bytes_inject: "bytes a = bytes b \<longleftrightarrow> a = b"
proof -
  have "inj (of_char :: char \<Rightarrow> 8 word)"
    by (rule injI) (metis unat_byte of_char_eqI)
  then show ?thesis by (auto simp: bytes_def inj_map_eq_map)
qed

lemma ConstantTimeCompare_iff: "ConstantTimeCompare x y = 1 \<longleftrightarrow> x = y"
proof (cases "length x = length y")
  case True
  then show ?thesis
    by (auto simp: ConstantTimeCompare_def ConstantTimeByteEq_iff ct_loop_zero_iff list_eq_iff_zip_eq
        simp del: One_nat_def)
next
  case False
  then show ?thesis by (auto simp: ConstantTimeCompare_def)
qed

lemma Equal_iff [simp]: "Equal a b \<longleftrightarrow> a = b"
  unfolding Equal_def ConstantTimeCompare_iff bytes_inject ..

lemma SecureEqual_iff [simp]: "SecureEqual a b \<longleftrightarrow> a = b"
  unfolding SecureEqual_def ConstantTimeCompare_iff bytes_inject ..

section \<open>The contract of hashers\<close>

text \<open>The Go interface \<open>ObjectHasher\<close> as its clients use it: a hash found equal to another is that
  hash.\<close>

locale object_hasher =
  fixes h :: "'o hasher"
  assumes equal_hash: "hasher_Equal h a b \<longleftrightarrow> a = b"
    and hash_not_empty: "hasher_Hash h x \<noteq> []"
begin

lemma empty_never_equal: "\<not> hasher_Equal h [] (hasher_Hash h x)"
  by (simp add: equal_hash hash_not_empty [symmetric])

end

interpretation object_hash: object_hasher "NewObjectHash L" for L
  by unfold_locales (simp_all add: NewObjectHash_def hasher_Equal_def hasher_Hash_def Object_def)

interpretation secure_hash: object_hasher "NewSecureObjectHash L" for L
  by unfold_locales
    (simp_all add: NewSecureObjectHash_def hasher_Equal_def hasher_Hash_def SecureObject_def)

section \<open>The contract of hash sets\<close>

text \<open>Hash sets as a client sees them: \<open>view\<close> is the partial map of a set, \<open>ok\<close> its invariant,
  \<open>order\<close> the admissible iteration orders.\<close>

locale hash_set =
  fixes view :: "'s \<Rightarrow> string \<Rightarrow> 'o option"
    and ok :: "'s \<Rightarrow> bool"
    and order :: "'r \<Rightarrow> bool"
    and key :: "'o \<Rightarrow> string"
    and insert :: "'s \<Rightarrow> 'o list \<Rightarrow> 's"
    and delete :: "'s \<Rightarrow> 'o list \<Rightarrow> 's"
    and has :: "'s \<Rightarrow> 'o list \<Rightarrow> bool"
    and len :: "'s \<Rightarrow> nat"
    and inter :: "'r \<Rightarrow> 's \<Rightarrow> 's \<Rightarrow> 's"
    and diff :: "'r \<Rightarrow> 's \<Rightarrow> 's \<Rightarrow> 's"
    and union :: "'r \<Rightarrow> 's \<Rightarrow> 's \<Rightarrow> 's"
    and contains :: "'r \<Rightarrow> 's \<Rightarrow> 's \<Rightarrow> bool"
    and equal :: "'r \<Rightarrow> 's \<Rightarrow> 's \<Rightarrow> bool"
  assumes finite_view: "finite (dom (view s))"
    and ok_insert: "ok s \<Longrightarrow> ok (insert s xs)"
    and ok_delete: "ok s \<Longrightarrow> ok (delete s xs)"
    and ok_inter: "ok (inter r s t)"
    and ok_diff: "ok (diff r s t)"
    and ok_union: "ok (union r s t)"
    and view_insert: "view (insert s xs) = view s ++ map_of (map (\<lambda>x. (key x, x)) (rev xs))"
    and view_delete: "ok s \<Longrightarrow> view (delete s xs) = view s |` (- key ` set xs)"
    and has_iff: "has s xs \<longleftrightarrow> key ` set xs \<subseteq> dom (view s)"
    and len_card: "ok s \<Longrightarrow> len s = card (dom (view s))"
    and view_inter: "order r \<Longrightarrow> ok s \<Longrightarrow> view (inter r s t) = view s |` dom (view t)"
    and view_diff: "order r \<Longrightarrow> ok s \<Longrightarrow> view (diff r s t) = view s |` (- dom (view t))"
    and view_union: "order r \<Longrightarrow> ok s \<Longrightarrow> ok t \<Longrightarrow> view (union r s t) = view t ++ view s"
    and contains_iff: "order r \<Longrightarrow> contains r s t \<longleftrightarrow> dom (view t) \<subseteq> dom (view s)"
    and equal_def: "equal r s t \<longleftrightarrow> len s = len t \<and> contains r s t"
begin

lemma has_after_insert: "has (insert s xs) xs"
  by (auto simp: has_iff view_insert dom_map_of_conv_image_fst image_image)

lemma has_after_delete:
  assumes "ok s"
  shows "has (delete s xs) ys \<longleftrightarrow> has s ys \<and> key ` set xs \<inter> key ` set ys = {}"
  using assms by (auto simp: has_iff view_delete)

lemma dom_inter: "order r \<Longrightarrow> ok s \<Longrightarrow> dom (view (inter r s t)) = dom (view s) \<inter> dom (view t)"
  by (auto simp: view_inter)

lemma dom_union:
  "order r \<Longrightarrow> ok s \<Longrightarrow> ok t \<Longrightarrow> dom (view (union r s t)) = dom (view s) \<union> dom (view t)"
  by (auto simp: view_union)

lemma diff_inter_partition:
  assumes "order r" and "ok s"
  shows "view (diff r s t) ++ view (inter r s t) = view s"
    and "dom (view (diff r s t)) \<inter> dom (view (inter r s t)) = {}"
  using assms
  by (auto simp: view_inter view_diff fun_eq_iff map_add_def restrict_map_def split: option.splits if_splits)

text \<open>Comparing the sizes and one inclusion is enough for equality of the sets of hashes.\<close>

lemma equal_iff:
  assumes "order r" and "ok s" and "ok t"
  shows "equal r s t \<longleftrightarrow> dom (view s) = dom (view t)"
proof
  assume "equal r s t"
  with assms have "dom (view t) \<subseteq> dom (view s)" and "card (dom (view t)) = card (dom (view s))"
    by (simp_all add: equal_def contains_iff len_card)
  with finite_view [of s] show "dom (view s) = dom (view t)" by (metis card_subset_eq)
next
  assume "dom (view s) = dom (view t)"
  with assms show "equal r s t" by (simp add: equal_def contains_iff len_card)
qed

lemma len_union_inter:
  assumes "order r" and "ok s" and "ok t"
  shows "len (union r s t) + len (inter r s t) = len s + len t"
  using assms card_Un_Int [OF finite_view finite_view, of s t]
  by (simp only: len_card ok_union ok_inter dom_union dom_inter)

end

section \<open>Lemmas on sets\<close>

lemma map_of_Set_Insert: "map_of (Set_Insert L s xs) = map_of s ++ map_of (map (\<lambda>x. (Object L x, x)) (rev xs))"
  unfolding Set_Insert_def
proof (induction xs arbitrary: s)
  case Nil
  then show ?case by simp
next
  case (Cons x xs)
  have "map_of (AList.update (Object L x) x s) = (map_of s)(Object L x \<mapsto> x)" by (rule update_conv')
  with Cons show ?case by (simp del: update_Some_unfold) (simp add: update_conv fun_upd_def)
qed

lemma map_of_Set_Insert_NewSet: "map_of (Set_Insert L s xs) = map_of s ++ map_of (NewSet L xs)"
  using map_of_Set_Insert [of L "[]" xs]
  by (simp only: map_of_Set_Insert NewSet_def Set_Insert_def [symmetric] map_of.simps empty_map_add)

lemma map_of_Set_Delete: "map_of (Set_Delete L s xs) = map_of s |` (- Object L ` set xs)"
  unfolding Set_Delete_def
proof (induction xs arbitrary: s)
  case Nil
  then show ?case by simp
next
  case (Cons x xs)
  have "- Object L ` set (x # xs) = (- {Object L x}) \<inter> (- Object L ` set xs)" by auto
  with Cons show ?case by (simp add: delete_conv' restrict_complement_singleton_eq [symmetric] Int_commute)
qed

lemma gomap_ok_Set_Insert: "gomap_ok s \<Longrightarrow> gomap_ok (Set_Insert L s xs)"
  unfolding Set_Insert_def by (induction xs arbitrary: s) auto

lemma gomap_ok_Set_Delete: "gomap_ok s \<Longrightarrow> gomap_ok (Set_Delete L s xs)"
  unfolding Set_Delete_def by (induction xs arbitrary: s) auto

lemma Set_Has_iff: "Set_Has L s xs \<longleftrightarrow> Object L ` set xs \<subseteq> dom (map_of s)"
  by (induction xs) (auto split: option.splits)

lemma contains_loop_iff: "contains_loop s es \<longleftrightarrow> fst ` set es \<subseteq> dom (map_of s)"
  by (induction s es rule: contains_loop.induct) (auto split: option.splits)

text \<open>A loop that copies the entries whose key passes a test.\<close>

lemma fold_update_filter:
  "fold (\<lambda>(h, x) out. if P h then AList.update h x out else out) es out =
   fold (\<lambda>(h, x) out. AList.update h x out) (filter (\<lambda>(h, x). P h) es) out"
  by (induction es arbitrary: out) auto

lemma Set_Intersect_filter:
  "Set_Intersect L ord s t =
     fold (\<lambda>(h, x) out. AList.update h x out) (filter (\<lambda>(h, x). h \<in> dom (map_of t)) (ord s)) []"
  unfolding fold_update_filter [symmetric] Set_Intersect_def NewSet_def
  by (rule fold_cong) (auto intro!: ext split: option.splits)

lemma Set_SetDifference_filter:
  "Set_SetDifference L ord s t =
     fold (\<lambda>(h, x) out. AList.update h x out) (filter (\<lambda>(h, x). h \<notin> dom (map_of t)) (ord s)) []"
  unfolding fold_update_filter [symmetric] Set_SetDifference_def NewSet_def
  by (rule fold_cong) (auto intro!: ext split: option.splits)

lemma map_of_fold_filter:
  assumes "range_order ord" and "gomap_ok s"
  shows "map_of (fold (\<lambda>(h, x) out. AList.update h x out) (filter (\<lambda>(h, x). P h) (ord s)) []) =
    map_of s |` Collect P"
proof -
  have "distinct (map fst (filter (\<lambda>(h, x). P h) (ord s)))"
    using assms range_order_ok [of ord s] by (auto simp: gomap_ok_def intro: distinct_map_filter)
  then show ?thesis
    using assms by (auto simp: map_of_fold_update map_of_filter_keys map_of_range_order restrict_map_def)
qed

lemma map_of_Set_Union:
  assumes "range_order ord" and "gomap_ok s" and "gomap_ok t"
  shows "map_of (Set_Union L ord s t) = map_of t ++ map_of s"
proof -
  have "distinct (map fst (ord s))" and "distinct (map fst (ord t))"
    using assms range_order_ok [of ord s] range_order_ok [of ord t] by (auto simp: gomap_ok_def)
  with assms show ?thesis
    by (simp add: Set_Union_def NewSet_def map_of_fold_update map_of_range_order)
qed

interpretation go_set: hash_set map_of gomap_ok range_order "Object L" "Set_Insert L" "Set_Delete L"
  "Set_Has L" Set_Len "Set_Intersect L" "Set_SetDifference L" "Set_Union L" Set_Contains Set_EqualElements
  for L :: "'o hash_lib"
proof
  fix s t :: "'o hset" and xs :: "'o list" and ord :: "'o set_order"
  show "gomap_ok (Set_Intersect L ord s t)" "gomap_ok (Set_SetDifference L ord s t)"
    by (simp_all add: Set_Intersect_filter Set_SetDifference_filter gomap_ok_fold_update)
  show "gomap_ok (Set_Union L ord s t)"
    by (simp add: Set_Union_def NewSet_def gomap_ok_fold_update)
  show "Set_EqualElements ord s t \<longleftrightarrow> Set_Len s = Set_Len t \<and> Set_Contains ord s t"
    by (rule Set_EqualElements_def)
  show "gomap_ok s \<Longrightarrow> Set_Len s = card (dom (map_of s))"
    by (simp add: Set_Len_def gomap_length_dom)
  assume ord: "range_order ord"
  show "Set_Contains ord s t \<longleftrightarrow> dom (map_of t) \<subseteq> dom (map_of s)"
    using range_order_set [OF ord, of t]
    by (simp add: Set_Contains_def contains_loop_iff dom_map_of_conv_image_fst)
  assume s: "gomap_ok s"
  show "map_of (Set_Intersect L ord s t) = map_of s |` dom (map_of t)"
    using map_of_fold_filter [OF ord s, of "\<lambda>h. h \<in> dom (map_of t)"] by (simp add: Set_Intersect_filter)
  show "map_of (Set_SetDifference L ord s t) = map_of s |` (- dom (map_of t))"
    using map_of_fold_filter [OF ord s, of "\<lambda>h. h \<notin> dom (map_of t)"]
    by (simp add: Set_SetDifference_filter Compl_eq)
qed (simp_all add: map_of_Set_Insert map_of_Set_Delete gomap_ok_Set_Insert gomap_ok_Set_Delete
    Set_Has_iff map_of_Set_Union)

section \<open>Properties\<close>

text \<open>a hash is a non-empty string of at most 16 characters, and both hashers find two hashes
  equal exactly when the 64-bit digests are equal: the formatting loses nothing and the
  constant-time comparison is equality.\<close>

theorem hashers_compare_digests:
  "(hasher_Equal (NewObjectHash L) (hasher_Hash (NewObjectHash L) x) (hasher_Hash (NewObjectHash L) y)
     \<longleftrightarrow> xxhash_Sum64 L (spew_Fprintf L x) = xxhash_Sum64 L (spew_Fprintf L y)) \<and>
   (hasher_Equal (NewSecureObjectHash L) (hasher_Hash (NewSecureObjectHash L) x)
       (hasher_Hash (NewSecureObjectHash L) y)
     \<longleftrightarrow> xxhash_Sum64 L (sha512_Sum512_256 L (spew_Fprintf L x)) =
         xxhash_Sum64 L (sha512_Sum512_256 L (spew_Fprintf L y))) \<and>
   length (hasher_Hash (NewObjectHash L) x) \<in> {1..16} \<and>
   length (hasher_Hash (NewSecureObjectHash L) x) \<in> {1..16}"
  by (simp add: NewObjectHash_def NewSecureObjectHash_def hasher_Equal_def hasher_Hash_def
      Object_def SecureObject_def Sprintf_x_length Suc_le_eq)


text \<open>\<open>Pop\<close> on an empty set reports false and leaves it alone; on any other set it returns an
  object of the set and removes exactly that entry, so that as many calls as the set has
  elements empty it.\<close>

theorem pop_removes_one_element:
  assumes "range_order ord" and "gomap_ok s"
  shows "case Set_Pop zero ord s of
           ((ob, False), s') \<Rightarrow> ob = zero \<and> s = [] \<and> s' = s
         | ((ob, True), s') \<Rightarrow>
             (\<exists>h. map_of s h = Some ob \<and> map_of s' = (map_of s)(h := None)) \<and>
             gomap_ok s' \<and> Set_Len s = Suc (Set_Len s')"
proof (cases "ord s")
  case Nil
  then have "s = []" using range_order_length [OF assms(1), of s] by simp
  with Nil show ?thesis by (simp add: Set_Pop_def)
next
  case (Cons e es)
  obtain h ob where e: "e = (h, ob)" by (cases e)
  have mem: "map_of s h = Some ob"
    using Cons e assms range_order_set [OF assms(1), of s] by (auto simp: gomap_ok_def)
  have del: "map_of (AList.delete h s) = (map_of s)(h := None)" by (rule delete_conv')
  have "card (dom (map_of s)) = Suc (card (dom (map_of (AList.delete h s))))"
    using mem by (simp add: del) (metis card.remove domI finite_dom_gomap card_Suc_Diff1)
  then have "Set_Len s = Suc (Set_Len (AList.delete h s))"
    using assms(2) by (simp add: Set_Len_def gomap_length_dom)
  with Cons e mem del assms(2) show ?thesis by (auto simp: Set_Pop_def)
qed

section \<open>Witnesses\<close>

definition demo_hash_lib :: "string hash_lib" where
  "demo_hash_lib = \<lparr>spew_Fprintf = (\<lambda>s. s), xxhash_Sum64 = (\<lambda>s. of_nat (length s)), sha512_Sum512_256 = rev\<rparr>"


theorem pop_removes_one_element_witness:
  "fst (Set_Pop [] rev [(''2'', ''bb''), (''1'', ''c'')]) = (''c'', True) \<and>
   Set_Len [(''2'', ''bb''), (''1'', ''c'')] =
     Suc (Set_Len (snd (Set_Pop [] rev [(''2'', ''bb''), (''1'', ''c'')])))"
  using pop_removes_one_element [of rev "[(''2'', ''bb''), (''1'', ''c'')]" "[]"]
  by (simp add: gomap_ok_def Set_Pop_def)

end
