(* ===== verification/Typed.thy ===== *)
theory Typed
  imports Prelude
begin

text \<open>
  The package \<open>typed\<close>: the registry of informer factories (typed/registry.go) and the typed views
  of the dynamic caches (typed/typedindexer.go, typed/typedlister.go).

  The informer machinery of client-go and the converter of apimachinery are parameters:
  \<open>informer_lib\<close> holds the projections from a factory to its informers, listers and indexers,
  \<open>conv_lib\<close> the conversion between unstructured and typed objects (and the texts \<open>fmt\<close> prints
  for an object), \<open>cache_indexer\<close> and \<open>cache_lister\<close> the operations of a cache on a world.
  The registry's mutex makes each of its operations one atomic step.
\<close>

section \<open>Keys\<close>

definition NewFactoryKey :: "string \<Rightarrow> string \<Rightarrow> string \<Rightarrow> string" where
  "NewFactoryKey controllerName clusterName i = controllerName @ ''/'' @ clusterName @ ''/'' @ i"

record RegistryKey =
  rk_GVR :: gvr
  rk_FactoryKey :: string

definition NewRegistryKey :: "string \<Rightarrow> gvr \<Rightarrow> RegistryKey" where
  "NewRegistryKey key g = \<lparr>rk_GVR = g, rk_FactoryKey = key\<rparr>"

section \<open>Registry\<close>

record ('f, 'i, 'l, 's, 'x) informer_lib =
  gvr_String :: "gvr \<Rightarrow> string"
  ForResource :: "'f \<Rightarrow> gvr \<Rightarrow> 'i"
  inf_Lister :: "'i \<Rightarrow> 'l"
  inf_Informer :: "'i \<Rightarrow> 's"
  inf_GetIndexer :: "'s \<Rightarrow> 'x"

definition RegistryKey_String :: "('f, 'i, 'l, 's, 'x) informer_lib \<Rightarrow> RegistryKey \<Rightarrow> string" where
  "RegistryKey_String L k = gvr_String L (rk_GVR k) @ ''/'' @ rk_FactoryKey k"

record 'f Registry =
  factories :: "(string, 'f) gomap"

type_synonym ('f, 'a) reg = "('a, 'f Registry) proc"

definition NewRegistry :: "'f Registry" where
  "NewRegistry = \<lparr>factories = []\<rparr>"

definition Registry_Add :: "string \<Rightarrow> 'f \<Rightarrow> ('f, error option) reg" where
  "Registry_Add key factory = act (\<lambda>r.
     case map_of (factories r) key of
       Some _ \<Rightarrow> (Some (Errorf (''cannot register two InformerFactories with the same key: '' @ key)), r)
     | None \<Rightarrow> (None, r\<lparr>factories := AList.update key factory (factories r)\<rparr>))"

definition Registry_Remove :: "string \<Rightarrow> ('f, unit) reg" where
  "Registry_Remove key = modify (\<lambda>r. r\<lparr>factories := AList.delete key (factories r)\<rparr>)"

text \<open>The constructor of client-go is the argument \<open>mk\<close>, applied to the client, resync period,
  namespace and tweak function of the call.\<close>

definition NewFilteredDynamicSharedInformerFactory ::
    "('o \<Rightarrow> 'f) \<Rightarrow> string \<Rightarrow> 'o \<Rightarrow> ('f, error + 'f) reg" where
  "NewFilteredDynamicSharedInformerFactory mk key opts =
     (let factory = mk opts in
      bind (Registry_Add key factory) (\<lambda>err.
        case err of Some e \<Rightarrow> Return (Inl e) | None \<Rightarrow> Return (Inr factory)))"

definition MustNewFilteredDynamicSharedInformerFactory ::
    "('o \<Rightarrow> 'f) \<Rightarrow> string \<Rightarrow> 'o \<Rightarrow> ('f, 'f) reg" where
  "MustNewFilteredDynamicSharedInformerFactory mk key opts =
     bind (NewFilteredDynamicSharedInformerFactory mk key opts) (\<lambda>r.
       case r of Inl e \<Rightarrow> Panic (error_text e) | Inr factory \<Rightarrow> Return factory)"

definition InformerFactoryForKey ::
    "('f, 'i, 'l, 's, 'x) informer_lib \<Rightarrow> RegistryKey \<Rightarrow> ('f, error + 'i) reg" where
  "InformerFactoryForKey L key = gets (\<lambda>r.
     case map_of (factories r) (rk_FactoryKey key) of
       None \<Rightarrow> Inl (Errorf (''InformerFactoryFor called with unknown key '' @ RegistryKey_String L key))
     | Some factory \<Rightarrow> Inr (ForResource L factory (rk_GVR key)))"

definition MustInformerFactoryForKey ::
    "('f, 'i, 'l, 's, 'x) informer_lib \<Rightarrow> RegistryKey \<Rightarrow> ('f, 'i) reg" where
  "MustInformerFactoryForKey L key =
     bind (InformerFactoryForKey L key) (\<lambda>r.
       case r of Inl e \<Rightarrow> Panic (error_text e) | Inr informer \<Rightarrow> Return informer)"

definition InformerFactoryFor ::
    "('f, 'i, 'l, 's, 'x) informer_lib \<Rightarrow> RegistryKey \<Rightarrow> ('f, 'i) reg" where
  "InformerFactoryFor L key = MustInformerFactoryForKey L key"

definition Registry_MustListerForKey ::
    "('f, 'i, 'l, 's, 'x) informer_lib \<Rightarrow> RegistryKey \<Rightarrow> ('f, 'l) reg" where
  "Registry_MustListerForKey L key =
     bind (MustInformerFactoryForKey L key) (\<lambda>i. Return (inf_Lister L i))"

definition Registry_ListerFor ::
    "('f, 'i, 'l, 's, 'x) informer_lib \<Rightarrow> RegistryKey \<Rightarrow> ('f, 'l) reg" where
  "Registry_ListerFor L key =
     bind (MustInformerFactoryForKey L key) (\<lambda>i. Return (inf_Lister L i))"

definition Registry_ListerForKey ::
    "('f, 'i, 'l, 's, 'x) informer_lib \<Rightarrow> RegistryKey \<Rightarrow> ('f, error + 'l) reg" where
  "Registry_ListerForKey L key =
     bind (InformerFactoryForKey L key) (\<lambda>r.
       case r of Inl e \<Rightarrow> Return (Inl e) | Inr factory \<Rightarrow> Return (Inr (inf_Lister L factory)))"

definition MustInformerForKey ::
    "('f, 'i, 'l, 's, 'x) informer_lib \<Rightarrow> RegistryKey \<Rightarrow> ('f, 's) reg" where
  "MustInformerForKey L key =
     bind (MustInformerFactoryForKey L key) (\<lambda>i. Return (inf_Informer L i))"

definition InformerFor ::
    "('f, 'i, 'l, 's, 'x) informer_lib \<Rightarrow> RegistryKey \<Rightarrow> ('f, 's) reg" where
  "InformerFor L key =
     bind (MustInformerFactoryForKey L key) (\<lambda>i. Return (inf_Informer L i))"

definition InformerForKey ::
    "('f, 'i, 'l, 's, 'x) informer_lib \<Rightarrow> RegistryKey \<Rightarrow> ('f, error + 's) reg" where
  "InformerForKey L key =
     bind (InformerFactoryForKey L key) (\<lambda>r.
       case r of Inl e \<Rightarrow> Return (Inl e) | Inr factory \<Rightarrow> Return (Inr (inf_Informer L factory)))"

definition Registry_MustIndexerForKey ::
    "('f, 'i, 'l, 's, 'x) informer_lib \<Rightarrow> RegistryKey \<Rightarrow> ('f, 'x) reg" where
  "Registry_MustIndexerForKey L key =
     bind (MustInformerForKey L key) (\<lambda>s. Return (inf_GetIndexer L s))"

definition Registry_IndexerFor ::
    "('f, 'i, 'l, 's, 'x) informer_lib \<Rightarrow> RegistryKey \<Rightarrow> ('f, 'x) reg" where
  "Registry_IndexerFor L key =
     bind (MustInformerForKey L key) (\<lambda>s. Return (inf_GetIndexer L s))"

definition Registry_IndexerForKey ::
    "('f, 'i, 'l, 's, 'x) informer_lib \<Rightarrow> RegistryKey \<Rightarrow> ('f, error + 'x) reg" where
  "Registry_IndexerForKey L key =
     bind (InformerForKey L key) (\<lambda>r.
       case r of Inl e \<Rightarrow> Return (Inl e) | Inr informer \<Rightarrow> Return (Inr (inf_GetIndexer L informer)))"

section \<open>Conversion of objects\<close>

text \<open>A value of Go type \<open>any\<close> taken from a cache: an unstructured object, another
  \<open>runtime.Object\<close>, or a value that is not a \<open>runtime.Object\<close>. \<open>boxK\<close> is the conversion of a
  \<open>K\<close> to \<open>any\<close>: for a \<open>K\<close> other than \<open>*unstructured.Unstructured\<close> it is \<open>TypedObj\<close>.\<close>

datatype ('k, 'u) any_obj = Unstructured 'u | TypedObj 'k | OtherValue string

fun is_runtime_object :: "('k, 'u) any_obj \<Rightarrow> bool" where
  "is_runtime_object (OtherValue _) = False"
| "is_runtime_object _ = True"

record ('k, 'u) conv_lib =
  FromUnstructured :: "'u \<Rightarrow> error + 'k"
  ToUnstructured :: "'k \<Rightarrow> error + 'u"
  nilObj :: 'k
  boxK :: "'k \<Rightarrow> ('k, 'u) any_obj"
  typeName :: string
  fmt_v :: "('k, 'u) any_obj \<Rightarrow> string"
  fmt_s :: "('k, 'u) any_obj \<Rightarrow> string"
  fmt_T :: "('k, 'u) any_obj \<Rightarrow> string"

fun UnstructuredObjToTypedObj :: "('k, 'u) conv_lib \<Rightarrow> ('k, 'u) any_obj \<Rightarrow> 'k \<times> error option" where
  "UnstructuredObjToTypedObj L (Unstructured u) =
     (case FromUnstructured L u of
        Inl err \<Rightarrow> (nilObj L, Some (Wrapped ''invalid object: '' err))
      | Inr typedObj \<Rightarrow> (typedObj, None))"
| "UnstructuredObjToTypedObj L obj = (nilObj L, Some (Errorf (''invalid object '' @ fmt_T L obj)))"

definition ObjToUnstructuredObj :: "('k, 'u) conv_lib \<Rightarrow> 'k \<Rightarrow> error + 'u" where
  "ObjToUnstructuredObj L typedObj =
     (case ToUnstructured L typedObj of Inl err \<Rightarrow> Inl err | Inr object \<Rightarrow> Inr object)"

fun to_type_list_loop ::
    "('k, 'u) conv_lib \<Rightarrow> ('k, 'u) any_obj list \<Rightarrow> 'k list \<Rightarrow> 'k list option \<times> error option" where
  "to_type_list_loop L [] typedObjs = (Some typedObjs, None)"
| "to_type_list_loop L (obj # objs) typedObjs =
     (case UnstructuredObjToTypedObj L obj of
        (typedObj, Some err) \<Rightarrow> (None, Some (Wrapped ''list conversion error: '' err))
      | (typedObj, None) \<Rightarrow> to_type_list_loop L objs (typedObjs @ [typedObj]))"

text \<open>The slice is \<open>None\<close> when the function returns \<open>nil\<close>.\<close>

definition UnstructuredListToTypeList ::
    "('k, 'u) conv_lib \<Rightarrow> ('k, 'u) any_obj list \<Rightarrow> 'k list option \<times> error option" where
  "UnstructuredListToTypeList L objs = to_type_list_loop L objs []"

fun indexer_list_loop ::
    "('k, 'u) conv_lib \<Rightarrow> ('k, 'u) any_obj list \<Rightarrow> 'k list \<Rightarrow> 'k list" where
  "indexer_list_loop L [] typedObjs = typedObjs"
| "indexer_list_loop L (obj # objs) typedObjs =
     (if \<not> is_runtime_object obj then indexer_list_loop L objs typedObjs
      else
        case UnstructuredObjToTypedObj L obj of
          (typedObj, Some err) \<Rightarrow> indexer_list_loop L objs typedObjs
        | (typedObj, None) \<Rightarrow> indexer_list_loop L objs (typedObjs @ [typedObj]))"

definition IndexerListToTypedList ::
    "('k, 'u) conv_lib \<Rightarrow> ('k, 'u) any_obj list \<Rightarrow> 'k list" where
  "IndexerListToTypedList L objs = indexer_list_loop L objs []"

section \<open>Indexer\<close>

record ('k, 'u, 'ix, 'w) cache_indexer =
  ci_Add :: "('k, 'u) any_obj \<Rightarrow> (error option, 'w) proc"
  ci_Update :: "('k, 'u) any_obj \<Rightarrow> (error option, 'w) proc"
  ci_Delete :: "('k, 'u) any_obj \<Rightarrow> (error option, 'w) proc"
  ci_List :: "(('k, 'u) any_obj list, 'w) proc"
  ci_ListKeys :: "(string list, 'w) proc"
  ci_Get :: "('k, 'u) any_obj \<Rightarrow> (('k, 'u) any_obj \<times> bool \<times> error option, 'w) proc"
  ci_GetByKey :: "string \<Rightarrow> (('k, 'u) any_obj \<times> bool \<times> error option, 'w) proc"
  ci_IndexKeys :: "string \<Rightarrow> string \<Rightarrow> (string list \<times> error option, 'w) proc"
  ci_ListIndexFuncValues :: "string \<Rightarrow> (string list, 'w) proc"
  ci_ByIndex :: "string \<Rightarrow> string \<Rightarrow> (('k, 'u) any_obj list \<times> error option, 'w) proc"
  ci_GetIndexers :: "('ix, 'w) proc"
  ci_AddIndexers :: "'ix \<Rightarrow> (error option, 'w) proc"

record ('k, 'u, 'ix, 'w) Indexer =
  indexer :: "('k, 'u, 'ix, 'w) cache_indexer"

definition NewIndexer :: "('k, 'u, 'ix, 'w) cache_indexer \<Rightarrow> ('k, 'u, 'ix, 'w) Indexer" where
  "NewIndexer ix = \<lparr>indexer = ix\<rparr>"

definition Indexer_Add ::
    "('k, 'u) conv_lib \<Rightarrow> ('k, 'u, 'ix, 'w) Indexer \<Rightarrow> 'k \<Rightarrow> (error option, 'w) proc" where
  "Indexer_Add L t obj = ci_Add (indexer t) (boxK L obj)"

definition Indexer_Update ::
    "('k, 'u) conv_lib \<Rightarrow> ('k, 'u, 'ix, 'w) Indexer \<Rightarrow> 'k \<Rightarrow> (error option, 'w) proc" where
  "Indexer_Update L t obj = ci_Update (indexer t) (boxK L obj)"

definition Indexer_Delete ::
    "('k, 'u) conv_lib \<Rightarrow> ('k, 'u, 'ix, 'w) Indexer \<Rightarrow> 'k \<Rightarrow> (error option, 'w) proc" where
  "Indexer_Delete L t obj = ci_Delete (indexer t) (boxK L obj)"

definition Indexer_List ::
    "('k, 'u) conv_lib \<Rightarrow> ('k, 'u, 'ix, 'w) Indexer \<Rightarrow> ('k list, 'w) proc" where
  "Indexer_List L t = bind (ci_List (indexer t)) (\<lambda>objs. Return (IndexerListToTypedList L objs))"

definition Indexer_ListKeys :: "('k, 'u, 'ix, 'w) Indexer \<Rightarrow> (string list, 'w) proc" where
  "Indexer_ListKeys t = ci_ListKeys (indexer t)"

text \<open>The tail shared by \<open>Get\<close> and \<open>GetByKey\<close>, whose bodies differ in the cache call only.\<close>

definition typed_item ::
    "('k, 'u) conv_lib \<Rightarrow> ('k, 'u) any_obj \<times> bool \<times> error option \<Rightarrow> 'k \<times> bool \<times> error option" where
  "typed_item L = (\<lambda>(gotItem, gotExists, gotErr).
     if gotErr \<noteq> None \<or> \<not> gotExists then (nilObj L, gotExists, gotErr)
     else if \<not> is_runtime_object gotItem
       then (nilObj L, gotExists, Some (Errorf (fmt_v L gotItem @ '' is not a runtime.Object'')))
     else
       (case UnstructuredObjToTypedObj L gotItem of
          (gotTypedObj, Some err) \<Rightarrow>
            (nilObj L, gotExists, Some (Errorf (''could not convert '' @ fmt_s L gotItem @ '' to '' @ typeName L)))
        | (gotTypedObj, None) \<Rightarrow> (gotTypedObj, gotExists, gotErr)))"

definition Indexer_Get ::
    "('k, 'u) conv_lib \<Rightarrow> ('k, 'u, 'ix, 'w) Indexer \<Rightarrow> 'k \<Rightarrow> ('k \<times> bool \<times> error option, 'w) proc" where
  "Indexer_Get L t obj = bind (ci_Get (indexer t) (boxK L obj)) (\<lambda>r. Return (typed_item L r))"

definition Indexer_GetByKey ::
    "('k, 'u) conv_lib \<Rightarrow> ('k, 'u, 'ix, 'w) Indexer \<Rightarrow> string \<Rightarrow> ('k \<times> bool \<times> error option, 'w) proc" where
  "Indexer_GetByKey L t key = bind (ci_GetByKey (indexer t) key) (\<lambda>r. Return (typed_item L r))"

definition Indexer_IndexKeys ::
    "('k, 'u, 'ix, 'w) Indexer \<Rightarrow> string \<Rightarrow> string \<Rightarrow> (string list \<times> error option, 'w) proc" where
  "Indexer_IndexKeys t indexName indexedValue = ci_IndexKeys (indexer t) indexName indexedValue"

definition Indexer_ListIndexFuncValues ::
    "('k, 'u, 'ix, 'w) Indexer \<Rightarrow> string \<Rightarrow> (string list, 'w) proc" where
  "Indexer_ListIndexFuncValues t indexName = ci_ListIndexFuncValues (indexer t) indexName"

definition Indexer_ByIndex ::
    "('k, 'u) conv_lib \<Rightarrow> ('k, 'u, 'ix, 'w) Indexer \<Rightarrow> string \<Rightarrow> string \<Rightarrow>
     ('k list \<times> error option, 'w) proc" where
  "Indexer_ByIndex L t indexName indexedValue =
     bind (ci_ByIndex (indexer t) indexName indexedValue) (\<lambda>(objs, err).
       case err of
         Some e \<Rightarrow> Return ([], Some e)
       | None \<Rightarrow> Return (IndexerListToTypedList L objs, None))"

definition Indexer_GetIndexers :: "('k, 'u, 'ix, 'w) Indexer \<Rightarrow> ('ix, 'w) proc" where
  "Indexer_GetIndexers t = ci_GetIndexers (indexer t)"

definition Indexer_AddIndexers :: "('k, 'u, 'ix, 'w) Indexer \<Rightarrow> 'ix \<Rightarrow> (error option, 'w) proc" where
  "Indexer_AddIndexers t newIndexers = ci_AddIndexers (indexer t) newIndexers"

section \<open>Lister\<close>

record ('k, 'u, 'sel, 'w) ns_lister =
  nl_List :: "'sel \<Rightarrow> (('k, 'u) any_obj list \<times> error option, 'w) proc"
  nl_Get :: "string \<Rightarrow> (('k, 'u) any_obj \<times> error option, 'w) proc"

record ('k, 'u, 'sel, 'w) cache_lister = "('k, 'u, 'sel, 'w) ns_lister" +
  cl_ByNamespace :: "string \<Rightarrow> ('k, 'u, 'sel, 'w) ns_lister"

record ('k, 'u, 'sel, 'w) Lister =
  lister :: "('k, 'u, 'sel, 'w) cache_lister"

definition NewLister :: "('k, 'u, 'sel, 'w) cache_lister \<Rightarrow> ('k, 'u, 'sel, 'w) Lister" where
  "NewLister l = \<lparr>lister = l\<rparr>"

definition Lister_List ::
    "('k, 'u) conv_lib \<Rightarrow> ('k, 'u, 'sel, 'w) Lister \<Rightarrow> 'sel \<Rightarrow> ('k list option \<times> error option, 'w) proc" where
  "Lister_List L t selector =
     bind (nl_List (lister t) selector) (\<lambda>(objs, err).
       case err of Some e \<Rightarrow> Return (None, Some e) | None \<Rightarrow> Return (UnstructuredListToTypeList L objs))"

definition Lister_Get ::
    "('k, 'u) conv_lib \<Rightarrow> ('k, 'u, 'sel, 'w) Lister \<Rightarrow> string \<Rightarrow> ('k \<times> error option, 'w) proc" where
  "Lister_Get L t nm =
     bind (nl_Get (lister t) nm) (\<lambda>(obj, err).
       case err of Some e \<Rightarrow> Return (nilObj L, Some e) | None \<Rightarrow> Return (UnstructuredObjToTypedObj L obj))"

definition Lister_ByNamespace :: "('k, 'u, 'sel, 'w) Lister \<Rightarrow> string \<Rightarrow> ('k, 'u, 'sel, 'w) ns_lister" where
  "Lister_ByNamespace t namespace = cl_ByNamespace (lister t) namespace"

definition NamespaceLister_List ::
    "('k, 'u) conv_lib \<Rightarrow> ('k, 'u, 'sel, 'w) ns_lister \<Rightarrow> 'sel \<Rightarrow> ('k list option \<times> error option, 'w) proc" where
  "NamespaceLister_List L t selector =
     bind (nl_List t selector) (\<lambda>(objs, err).
       case err of Some e \<Rightarrow> Return (None, Some e) | None \<Rightarrow> Return (UnstructuredListToTypeList L objs))"

definition NamespaceLister_Get ::
    "('k, 'u) conv_lib \<Rightarrow> ('k, 'u, 'sel, 'w) ns_lister \<Rightarrow> string \<Rightarrow> ('k \<times> error option, 'w) proc" where
  "NamespaceLister_Get L t nm =
     bind (nl_Get t nm) (\<lambda>(obj, err).
       case err of Some e \<Rightarrow> Return (nilObj L, Some e) | None \<Rightarrow> Return (UnstructuredObjToTypedObj L obj))"

section \<open>Typed views from a registry\<close>

definition MustListerForKey ::
    "('f, 'i, ('k, 'u, 'sel, 'w) cache_lister, 's, 'x) informer_lib \<Rightarrow> RegistryKey \<Rightarrow>
     ('f, ('k, 'u, 'sel, 'w) Lister) reg" where
  "MustListerForKey L key = bind (Registry_MustListerForKey L key) (\<lambda>l. Return (NewLister l))"

definition ListerFor ::
    "('f, 'i, ('k, 'u, 'sel, 'w) cache_lister, 's, 'x) informer_lib \<Rightarrow> RegistryKey \<Rightarrow>
     ('f, ('k, 'u, 'sel, 'w) Lister) reg" where
  "ListerFor L key = MustListerForKey L key"

definition ListerForKey ::
    "('f, 'i, ('k, 'u, 'sel, 'w) cache_lister, 's, 'x) informer_lib \<Rightarrow> RegistryKey \<Rightarrow>
     ('f, error + ('k, 'u, 'sel, 'w) Lister) reg" where
  "ListerForKey L key =
     bind (Registry_ListerForKey L key) (\<lambda>r.
       case r of Inl e \<Rightarrow> Return (Inl e) | Inr l \<Rightarrow> Return (Inr (NewLister l)))"

definition MustIndexerForKey ::
    "('f, 'i, 'l, 's, ('k, 'u, 'ix, 'w) cache_indexer) informer_lib \<Rightarrow> RegistryKey \<Rightarrow>
     ('f, ('k, 'u, 'ix, 'w) Indexer) reg" where
  "MustIndexerForKey L key = bind (Registry_MustIndexerForKey L key) (\<lambda>x. Return (NewIndexer x))"

definition IndexerFor ::
    "('f, 'i, 'l, 's, ('k, 'u, 'ix, 'w) cache_indexer) informer_lib \<Rightarrow> RegistryKey \<Rightarrow>
     ('f, ('k, 'u, 'ix, 'w) Indexer) reg" where
  "IndexerFor L key = MustIndexerForKey L key"

definition IndexerForKey ::
    "('f, 'i, 'l, 's, ('k, 'u, 'ix, 'w) cache_indexer) informer_lib \<Rightarrow> RegistryKey \<Rightarrow>
     ('f, error + ('k, 'u, 'ix, 'w) Indexer) reg" where
  "IndexerForKey L key =
     bind (Registry_IndexerForKey L key) (\<lambda>r.
       case r of Inl e \<Rightarrow> Return (Inl e) | Inr x \<Rightarrow> Return (Inr (NewIndexer x)))"

section \<open>The contract of the registry\<close>

text \<open>Controllers registering their factories one after the other.\<close>

primrec register_all ::
    "(string \<Rightarrow> 'f \<Rightarrow> (error option, 'r) proc) \<Rightarrow> (string \<times> 'f) list \<Rightarrow> (unit, 'r) proc" where
  "register_all add [] = Return ()"
| "register_all add (x # xs) = bind (add (fst x) (snd x)) (\<lambda>_. register_all add xs)"

locale factory_registry =
  fixes view :: "'r \<Rightarrow> string \<Rightarrow> 'f option"
    and add :: "string \<Rightarrow> 'f \<Rightarrow> (error option, 'r) proc"
    and remove :: "string \<Rightarrow> (unit, 'r) proc"
    and lookup :: "RegistryKey \<Rightarrow> (error + 'i, 'r) proc"
    and resource :: "'f \<Rightarrow> gvr \<Rightarrow> 'i"
  assumes add_new: "view r k = None \<Longrightarrow>
      \<exists>r'. run (add k f) r = (Normal None, r') \<and> view r' = (view r)(k \<mapsto> f)"
    and add_again: "view r k = Some g \<Longrightarrow> \<exists>e. run (add k f) r = (Normal (Some e), r)"
    and remove_key: "\<exists>r'. run (remove k) r = (Normal (), r') \<and> view r' = (view r)(k := None)"
    and lookup_known: "view r (rk_FactoryKey key) = Some f \<Longrightarrow>
      run (lookup key) r = (Normal (Inr (resource f (rk_GVR key))), r)"
    and lookup_unknown: "view r (rk_FactoryKey key) = None \<Longrightarrow>
      \<exists>e. run (lookup key) r = (Normal (Inl e), r)"
begin

text \<open>The first factory registered under a key stays, whatever is registered later.\<close>

lemma register_all_view:
  "\<exists>r'. run (register_all add xs) r = (Normal (), r') \<and> view r' = map_of xs ++ view r"
proof (induction xs arbitrary: r)
  case Nil
  show ?case by simp
next
  case (Cons x xs)
  obtain k f where x: "x = (k, f)" by (cases x)
  obtain o1 r1 where 1: "run (add k f) r = (Normal o1, r1)" "view r1 = [k \<mapsto> f] ++ view r"
  proof (cases "view r k")
    case None
    then have "(view r)(k \<mapsto> f) = [k \<mapsto> f] ++ view r" by (auto simp: map_add_def split: option.splits)
    with add_new [OF None] that show ?thesis by metis
  next
    case (Some g)
    then have "view r = [k \<mapsto> f] ++ view r" by (auto simp: map_add_def split: option.splits)
    with add_again [OF Some] that show ?thesis by metis
  qed
  obtain r2 where "run (register_all add xs) r1 = (Normal (), r2)" "view r2 = map_of xs ++ view r1"
    using Cons.IH by blast
  moreover have "map_of xs ++ ([k \<mapsto> f] ++ view r) = map_of (x # xs) ++ view r"
    by (auto simp: x map_add_def split: option.splits)
  ultimately show ?case using 1 x by (simp add: fun_upd_def)
qed

end

interpretation registry: factory_registry
    "\<lambda>r. map_of (factories r)" Registry_Add Registry_Remove "InformerFactoryForKey L" "ForResource L"
  for L :: "('f, 'i, 'l, 's, 'x) informer_lib"
  by unfold_locales
    (simp_all add: Registry_Add_def Registry_Remove_def InformerFactoryForKey_def update_conv' delete_conv')

section \<open>Lemmas\<close>

definition convertible :: "('k, 'u) conv_lib \<Rightarrow> ('k, 'u) any_obj \<Rightarrow> bool" where
  "convertible L obj \<longleftrightarrow> snd (UnstructuredObjToTypedObj L obj) = None"

lemma convertible_Unstructured:
  "convertible L obj \<longleftrightarrow> (\<exists>u k. obj = Unstructured u \<and> FromUnstructured L u = Inr k)"
  by (cases obj) (auto simp: convertible_def split: sum.splits)

lemma indexer_list_loop_eq:
  "indexer_list_loop L objs acc =
     acc @ map (fst \<circ> UnstructuredObjToTypedObj L) (filter (convertible L) objs)"
proof (induction objs arbitrary: acc)
  case Nil
  show ?case by simp
next
  case (Cons obj objs)
  then show ?case by (cases obj) (auto simp: convertible_def split: sum.splits)
qed

lemma to_type_list_loop_ok:
  "\<forall>obj \<in> set objs. convertible L obj \<Longrightarrow>
     to_type_list_loop L objs acc = (Some (acc @ map (fst \<circ> UnstructuredObjToTypedObj L) objs), None)"
  by (induction objs arbitrary: acc) (auto simp: convertible_def split: prod.split)

lemma to_type_list_loop_fail:
  "\<exists>obj \<in> set objs. \<not> convertible L obj \<Longrightarrow>
     \<exists>e. to_type_list_loop L objs acc = (None, Some (Wrapped ''list conversion error: '' e))"
  by (induction objs arbitrary: acc) (auto simp: convertible_def split: prod.split option.split)

lemmas registry_defs = InformerFactoryForKey_def MustInformerFactoryForKey_def
  Registry_MustListerForKey_def Registry_ListerForKey_def MustInformerForKey_def InformerForKey_def
  Registry_MustIndexerForKey_def Registry_IndexerForKey_def MustListerForKey_def ListerForKey_def
  MustIndexerForKey_def IndexerForKey_def

section \<open>Properties\<close>

text \<open>C33: the first factory registered under a key is the one every later lookup of the key
  goes to, until the key is removed; a lookup of a key that was never registered, or whose
  factory was removed, returns an error.\<close>

theorem first_registered_factory_is_found:
  "\<exists>r1. run (register_all Registry_Add xs) NewRegistry = (Normal (), r1) \<and>
     (\<forall>key. (\<exists>x. run (InformerFactoryForKey L key) r1 = (Normal x, r1) \<and>
        (case map_of xs (rk_FactoryKey key) of
           Some f \<Rightarrow> x = Inr (ForResource L f (rk_GVR key))
         | None \<Rightarrow> isl x))) \<and>
     (\<forall>g. \<exists>e r2. run (andthen (Registry_Remove k) (InformerFactoryForKey L (NewRegistryKey k g))) r1 =
        (Normal (Inl e), r2))"
proof -
  obtain r1 where r1: "run (register_all Registry_Add xs) NewRegistry = (Normal (), r1)"
    "map_of (factories r1) = map_of xs"
    using registry.register_all_view [of xs NewRegistry] by (auto simp: NewRegistry_def)
  have "\<exists>x. run (InformerFactoryForKey L key) r1 = (Normal x, r1) \<and>
      (case map_of xs (rk_FactoryKey key) of
         Some f \<Rightarrow> x = Inr (ForResource L f (rk_GVR key)) | None \<Rightarrow> isl x)" for key
    using registry.lookup_known [of r1 key] registry.lookup_unknown [of r1 key L] r1(2)
    by (cases "map_of xs (rk_FactoryKey key)") auto
  moreover have "\<exists>e r2. run (andthen (Registry_Remove k) (InformerFactoryForKey L (NewRegistryKey k g))) r1 =
      (Normal (Inl e), r2)" for g
  proof -
    obtain r2 where r2: "run (Registry_Remove k) r1 = (Normal (), r2)"
      "map_of (factories r2) = (map_of (factories r1))(k := None)"
      using registry.remove_key by blast
    then show ?thesis using registry.lookup_unknown [of r2 "NewRegistryKey k g" L]
      by (auto simp: NewRegistryKey_def)
  qed
  ultimately show ?thesis using r1(1) by blast
qed

text \<open>A panicking accessor made from one that returns an error.\<close>

definition must :: "(error + 'a, 'w) proc \<Rightarrow> ('a, 'w) proc" where
  "must p = bind p (\<lambda>r. case r of Inl e \<Rightarrow> Panic (error_text e) | Inr a \<Rightarrow> Return a)"

text \<open>each panicking accessor of the registry does what the accessor that returns an error
  does, except that it panics with the error's text: the typed lister, the informer and the
  typed indexer of a key, and the registration of a new factory. In particular the accessors
  never change the registry.\<close>

theorem must_accessors_panic_on_error:
  "run (MustListerForKey L key) r = run (must (ListerForKey L key)) r \<and>
   run (MustInformerForKey L key) r = run (must (InformerForKey L key)) r \<and>
   run (MustIndexerForKey L' key) r = run (must (IndexerForKey L' key)) r \<and>
   run (MustNewFilteredDynamicSharedInformerFactory mk k opts) r =
     run (must (NewFilteredDynamicSharedInformerFactory mk k opts)) r \<and>
   snd (run (MustListerForKey L key) r) = r \<and> snd (run (MustIndexerForKey L' key) r) = r"
  by (simp add: registry_defs must_def MustNewFilteredDynamicSharedInformerFactory_def
      split: option.split sum.split)

text \<open>the two list conversions agree on lists of convertible objects, where they convert
  every element in order. On other lists the indexer's conversion drops the elements that do
  not convert, and the lister's conversion returns no list and an error.\<close>

theorem list_conversions:
  "IndexerListToTypedList L objs =
     map (fst \<circ> UnstructuredObjToTypedObj L) (filter (convertible L) objs) \<and>
   (if list_all (convertible L) objs
    then UnstructuredListToTypeList L objs = (Some (IndexerListToTypedList L objs), None)
    else \<exists>e. UnstructuredListToTypeList L objs = (None, Some (Wrapped ''list conversion error: '' e)))"
  using to_type_list_loop_ok [of objs L "[]"] to_type_list_loop_fail [of objs L "[]"]
  by (auto simp: IndexerListToTypedList_def UnstructuredListToTypeList_def indexer_list_loop_eq
      list_all_iff)

text \<open>an object added through a typed indexer cannot be read back through it. For a type
  other than unstructured and a cache that stores what it is given, \<open>Add\<close> succeeds, and then
  \<open>GetByKey\<close> reports that the object exists together with a conversion error and the zero value.\<close>

theorem added_object_does_not_convert:
  assumes "boxK L obj = TypedObj obj"
    and store: "run (ci_Add ix (boxK L obj)) w = (Normal None, w')"
    and fetch: "run (ci_GetByKey ix key) w' = (Normal (boxK L obj, True, None), w')"
  shows "run (bind (Indexer_Add L (NewIndexer ix) obj) (\<lambda>_. Indexer_GetByKey L (NewIndexer ix) key)) w =
     (Normal (nilObj L, True,
        Some (Errorf (''could not convert '' @ fmt_s L (TypedObj obj) @ '' to '' @ typeName L))), w')"
  using assms
  by (simp add: Indexer_Add_def Indexer_GetByKey_def NewIndexer_def typed_item_def)

section \<open>Witnesses\<close>

text \<open>A cache with one slot per key, whose objects are strings that are their own keys.\<close>

type_synonym demo_cache = "string \<Rightarrow> (string, nat) any_obj option"

definition demo_key :: "(string, nat) any_obj \<Rightarrow> string" where
  "demo_key x = (case x of TypedObj s \<Rightarrow> s | _ \<Rightarrow> [])"

definition demo_indexer :: "(string, nat, unit, demo_cache) cache_indexer" where
  "demo_indexer =
     \<lparr>ci_Add = (\<lambda>x. act (\<lambda>m. (None, m(demo_key x \<mapsto> x)))),
      ci_Update = (\<lambda>x. act (\<lambda>m. (None, m(demo_key x \<mapsto> x)))),
      ci_Delete = (\<lambda>x. act (\<lambda>m. (None, m(demo_key x := None)))),
      ci_List = Return [], ci_ListKeys = Return [],
      ci_Get = (\<lambda>x. gets (\<lambda>m. case m (demo_key x) of Some y \<Rightarrow> (y, True, None) | None \<Rightarrow> (OtherValue [], False, None))),
      ci_GetByKey = (\<lambda>k. gets (\<lambda>m. case m k of Some y \<Rightarrow> (y, True, None) | None \<Rightarrow> (OtherValue [], False, None))),
      ci_IndexKeys = (\<lambda>_ _. Return ([], None)), ci_ListIndexFuncValues = (\<lambda>_. Return []),
      ci_ByIndex = (\<lambda>_ _. Return ([], None)), ci_GetIndexers = Return (), ci_AddIndexers = (\<lambda>_. Return None)\<rparr>"

definition demo_conv :: "(string, nat) conv_lib" where
  "demo_conv =
     \<lparr>FromUnstructured = (\<lambda>n. Inr (replicate n CHR ''x'')), ToUnstructured = (\<lambda>s. Inr (length s)),
      nilObj = [], boxK = TypedObj, typeName = ''string'', fmt_v = (\<lambda>_. ''v''), fmt_s = (\<lambda>_. ''s''),
      fmt_T = (\<lambda>_. ''T'')\<rparr>"

theorem added_object_does_not_convert_witness:
  "fst (run (bind (Indexer_Add demo_conv (NewIndexer demo_indexer) ''a'')
         (\<lambda>_. Indexer_GetByKey demo_conv (NewIndexer demo_indexer) ''a'')) Map.empty) =
   Normal ([], True, Some (Errorf ''could not convert s to string''))"
  using added_object_does_not_convert [of demo_conv "''a''" demo_indexer Map.empty "[''a'' \<mapsto> TypedObj ''a'']" "''a''"]
  by (simp add: demo_conv_def demo_indexer_def demo_key_def)

end
