(* ===== verification/Component.thy ===== *)
theory Component
  imports Queue Hash Typed
begin

text \<open>
  The package \<open>component\<close>: finding the objects related to an owner (component/component.go),
  the handler that stores them in the context (component/component_handler.go), and the handler
  that keeps one object with a computed specification in the cluster
  (component/ensure_component.go).

  The cluster is reached through the callbacks the handler is given (\<open>applyObject\<close>,
  \<open>deleteObject\<close>, \<open>newObj\<close>), arbitrary code on the world. The label selector is a function of the
  context. \<open>utilruntime.HandleError\<close> is the argument \<open>HE\<close>.
\<close>

section \<open>Component\<close>

record ('c, 'k, 'u, 'ix, 'w) Component =
  co_indexer :: "('k, 'u, 'ix, 'w) Indexer"
  co_selectorFunc :: "'c \<Rightarrow> (string, string) gomap \<Rightarrow> bool"
  co_indexName :: string

definition NewIndexedComponent ::
    "('k, 'u, 'ix, 'w) Indexer \<Rightarrow> string \<Rightarrow> ('c \<Rightarrow> (string, string) gomap \<Rightarrow> bool) \<Rightarrow>
     ('c, 'k, 'u, 'ix, 'w) Component" where
  "NewIndexedComponent ix indexName selectorFunc =
     \<lparr>co_indexer = ix, co_selectorFunc = selectorFunc, co_indexName = indexName\<rparr>"

fun list_loop ::
    "((string, string) gomap \<Rightarrow> bool) \<Rightarrow> 'z kobject_scheme list \<Rightarrow> 'z kobject_scheme list \<Rightarrow>
     'z kobject_scheme list" where
  "list_loop matches [] out = out"
| "list_loop matches (d # ds) out =
     (case obj_Labels d of
        None \<Rightarrow> list_loop matches ds out
      | Some ls \<Rightarrow> if matches ls then list_loop matches ds (out @ [d]) else list_loop matches ds out)"

definition Component_List ::
    "('z kobject_scheme, 'u) conv_lib \<Rightarrow> (error \<Rightarrow> (unit, 'w) proc) \<Rightarrow>
     ('c, 'z kobject_scheme, 'u, 'ix, 'w) Component \<Rightarrow> 'c \<Rightarrow> namespaced_name \<Rightarrow>
     ('z kobject_scheme list, 'w) proc" where
  "Component_List L HE c ctx indexValue =
     bind (Indexer_ByIndex L (co_indexer c) (co_indexName c) (nn_String indexValue))
       (\<lambda>(ownedObjects, err).
         case err of
           Some e \<Rightarrow> andthen (HE e) (Return [])
         | None \<Rightarrow> Return (list_loop (co_selectorFunc c ctx) ownedObjects []))"

record ('c, 'k, 'u, 'ix, 'a, 'w) HashableComponent =
  hc_Component :: "('c, 'k, 'u, 'ix, 'w) Component"
  hc_ObjectHasher :: "'a hasher"
  hc_HashAnnotationKey :: string

definition NewHashableComponent ::
    "('c, 'k, 'u, 'ix, 'w) Component \<Rightarrow> 'a hasher \<Rightarrow> string \<Rightarrow> ('c, 'k, 'u, 'ix, 'a, 'w) HashableComponent" where
  "NewHashableComponent component hasher key =
     \<lparr>hc_Component = component, hc_ObjectHasher = hasher, hc_HashAnnotationKey = key\<rparr>"

section \<open>ContextHandler\<close>

record ('c, 'k, 'u, 'ix, 'w) ComponentContextHandler =
  ch_owner :: "'c \<Rightarrow> (namespaced_name, 'w) proc"
  ch_ctxKey :: "'c \<Rightarrow> 'k list \<Rightarrow> ('c, 'w) proc"
  ch_component :: "('c, 'k, 'u, 'ix, 'w) Component"
  ch_next :: "'c \<Rightarrow> (unit, 'w) proc"

definition NewComponentContextHandler ::
    "('c \<Rightarrow> 'k list \<Rightarrow> ('c, 'w) proc) \<Rightarrow> ('c, 'k, 'u, 'ix, 'w) Component \<Rightarrow>
     ('c \<Rightarrow> (namespaced_name, 'w) proc) \<Rightarrow> ('c \<Rightarrow> (unit, 'w) proc) \<Rightarrow>
     ('c, 'k, 'u, 'ix, 'w) ComponentContextHandler" where
  "NewComponentContextHandler contextKey component owner nxt =
     \<lparr>ch_owner = owner, ch_ctxKey = contextKey, ch_component = component, ch_next = nxt\<rparr>"

definition ComponentContextHandler_Handle ::
    "('z kobject_scheme, 'u) conv_lib \<Rightarrow> (error \<Rightarrow> (unit, 'w) proc) \<Rightarrow>
     ('c, 'z kobject_scheme, 'u, 'ix, 'w) ComponentContextHandler \<Rightarrow> 'c \<Rightarrow> (unit, 'w) proc" where
  "ComponentContextHandler_Handle L HE h ctx =
     bind (ch_owner h ctx) (\<lambda>nn.
       bind (Component_List L HE (ch_component h) ctx nn) (\<lambda>objs.
         bind (ch_ctxKey h ctx objs) (\<lambda>ctx'. ch_next h ctx')))"

section \<open>EnsureComponentByHash\<close>

record ('d, 'k, 'u, 'ix, 'a, 'w) EnsureComponentByHash =
  ec_component :: "('d goctx, 'k, 'u, 'ix, 'a, 'w) HashableComponent"
  ec_ctrls :: ctx_key
  ec_nn :: "'d goctx \<Rightarrow> (namespaced_name, 'w) proc"
  ec_applyObject :: "'d goctx \<Rightarrow> 'a \<Rightarrow> ('k \<times> error option, 'w) proc"
  ec_deleteObject :: "'d goctx \<Rightarrow> namespaced_name \<Rightarrow> (error option, 'w) proc"
  ec_newObj :: "'d goctx \<Rightarrow> ('a, 'w) proc"

definition NewEnsureComponentByHash ::
    "('d goctx, 'k, 'u, 'ix, 'a, 'w) HashableComponent \<Rightarrow> ('d goctx \<Rightarrow> (namespaced_name, 'w) proc) \<Rightarrow>
     ctx_key \<Rightarrow> ('d goctx \<Rightarrow> 'a \<Rightarrow> ('k \<times> error option, 'w) proc) \<Rightarrow>
     ('d goctx \<Rightarrow> namespaced_name \<Rightarrow> (error option, 'w) proc) \<Rightarrow> ('d goctx \<Rightarrow> ('a, 'w) proc) \<Rightarrow>
     ('d, 'k, 'u, 'ix, 'a, 'w) EnsureComponentByHash" where
  "NewEnsureComponentByHash component owner ctrls applyObj deleteObject newObj =
     \<lparr>ec_component = component, ec_ctrls = ctrls, ec_nn = owner, ec_applyObject = applyObj,
      ec_deleteObject = deleteObject, ec_newObj = newObj\<rparr>"

text \<open>The loop that sorts the owned objects into matching and extra ones.\<close>

fun ensure_loop ::
    "'a hasher \<Rightarrow> string \<Rightarrow> string \<Rightarrow> 'z kobject_scheme list \<Rightarrow>
     'z kobject_scheme list \<times> 'z kobject_scheme list \<Rightarrow> 'z kobject_scheme list \<times> 'z kobject_scheme list" where
  "ensure_loop h annKey hash [] (matchingObjs, extraObjs) = (matchingObjs, extraObjs)"
| "ensure_loop h annKey hash (ob # obs) (matchingObjs, extraObjs) =
     (let annotations = obj_Annotations ob;
          extraObjs = (if annotations = None then extraObjs @ [ob] else extraObjs)
      in if hasher_Equal h (str_index annotations annKey) hash
         then ensure_loop h annKey hash obs (matchingObjs @ [ob], extraObjs)
         else ensure_loop h annKey hash obs (matchingObjs, extraObjs @ [ob]))"

text \<open>The loop over the extra objects; it reports whether it ended without an error.\<close>

primrec delete_loop ::
    "('w queue_iface, 'd) gotype \<Rightarrow> ('d, 'z kobject_scheme, 'u, 'ix, 'a, 'w) EnsureComponentByHash \<Rightarrow>
     'd goctx \<Rightarrow> 'z kobject_scheme list \<Rightarrow> (unit, 'w) proc" where
  "delete_loop T e ctx [] = Return ()"
| "delete_loop T e ctx (ob # obs) =
     bind (ec_deleteObject e ctx (obj_nn ob)) (\<lambda>err.
       if err \<noteq> None then OpsCtx_RequeueErr T (ec_ctrls e) ctx err else delete_loop T e ctx obs)"

definition EnsureComponentByHash_Handle ::
    "('z kobject_scheme, 'u) conv_lib \<Rightarrow> (error \<Rightarrow> (unit, 'w) proc) \<Rightarrow>
     ('a \<Rightarrow> (string, string) gomap \<Rightarrow> 'a) \<Rightarrow> ('w queue_iface, 'd) gotype \<Rightarrow>
     ('d, 'z kobject_scheme, 'u, 'ix, 'a, 'w) EnsureComponentByHash \<Rightarrow> 'd goctx \<Rightarrow> (unit, 'w) proc" where
  "EnsureComponentByHash_Handle L HE WithAnnotations T e ctx =
     bind (ec_nn e ctx) (\<lambda>nn.
       bind (Component_List L HE (hc_Component (ec_component e)) ctx nn) (\<lambda>ownedObjs.
         bind (ec_newObj e ctx) (\<lambda>newObj.
           (let hash = hasher_Hash (hc_ObjectHasher (ec_component e)) newObj;
                newObj = WithAnnotations newObj [(hc_HashAnnotationKey (ec_component e), hash)]
            in case ensure_loop (hc_ObjectHasher (ec_component e)) (hc_HashAnnotationKey (ec_component e))
                      hash ownedObjs ([], []) of
                 (matchingObjs, extraObjs) \<Rightarrow>
                   bind (if length matchingObjs = 0
                         then bind (ec_applyObject e ctx newObj) (\<lambda>(_, err).
                                if err \<noteq> None
                                then andthen (OpsCtx_RequeueErr T (ec_ctrls e) ctx err) (Return False)
                                else Return True)
                         else Return True)
                     (\<lambda>continue.
                       if continue \<and> length matchingObjs = 1
                       then delete_loop T e ctx extraObjs
                       else Return ())))))"

section \<open>Lemmas\<close>

lemma list_loop_filter:
  "list_loop matches ds out =
     out @ filter (\<lambda>d. case obj_Labels d of None \<Rightarrow> False | Some ls \<Rightarrow> matches ls) ds"
  by (induction matches ds out rule: list_loop.induct) (auto split: option.split)

text \<open>The objects whose annotation holds the wanted hash, and the entries each owned object
  contributes to the list of extra objects: two when it has no annotations at all.\<close>

definition has_hash :: "string \<Rightarrow> string \<Rightarrow> 'z kobject_scheme \<Rightarrow> bool" where
  "has_hash annKey hash ob \<longleftrightarrow> str_index (obj_Annotations ob) annKey = hash"

definition extra_entries :: "string \<Rightarrow> string \<Rightarrow> 'z kobject_scheme \<Rightarrow> 'z kobject_scheme list" where
  "extra_entries annKey hash ob =
     (if obj_Annotations ob = None then [ob, ob] else if has_hash annKey hash ob then [] else [ob])"

context object_hasher
begin

lemma ensure_loop_split:
  assumes "hash = hasher_Hash h x"
  shows "ensure_loop h annKey hash obs (ms, es) =
    (ms @ filter (has_hash annKey hash) obs, es @ concat (map (extra_entries annKey hash) obs))"
proof (induction obs arbitrary: ms es)
  case Nil
  show ?case by simp
next
  case (Cons ob obs)
  have "hash \<noteq> []" using assms hash_not_empty by simp
  with Cons show ?case
    by (cases "obj_Annotations ob")
      (auto simp: Let_def equal_hash has_hash_def extra_entries_def str_index_def)
qed

end

text \<open>What the handler decides from the owned objects and the new object: apply when no object
  has the wanted hash, delete the extra entries when exactly one has, and do nothing when several
  have.\<close>

definition ensure_decision ::
    "('a \<Rightarrow> (string, string) gomap \<Rightarrow> 'a) \<Rightarrow> ('w queue_iface, 'd) gotype \<Rightarrow>
     ('d, 'z kobject_scheme, 'u, 'ix, 'a, 'w) EnsureComponentByHash \<Rightarrow> 'd goctx \<Rightarrow>
     'z kobject_scheme list \<Rightarrow> 'a \<Rightarrow> (unit, 'w) proc" where
  "ensure_decision WithAnnotations T e ctx obs new =
     (let annKey = hc_HashAnnotationKey (ec_component e);
          hash = hasher_Hash (hc_ObjectHasher (ec_component e)) new
      in case filter (has_hash annKey hash) obs of
           [] \<Rightarrow>
             bind (ec_applyObject e ctx (WithAnnotations new [(annKey, hash)])) (\<lambda>(_, err).
               if err = None then Return () else OpsCtx_RequeueErr T (ec_ctrls e) ctx err)
         | [_] \<Rightarrow> delete_loop T e ctx (concat (map (extra_entries annKey hash) obs))
         | _ \<Rightarrow> Return ())"

context object_hasher
begin

lemma ensure_handle_decision:
  assumes "hc_ObjectHasher (ec_component e) = h"
  shows "run (EnsureComponentByHash_Handle L HE WithAnnotations T e ctx) w =
    run (bind (ec_nn e ctx) (\<lambda>nn.
           bind (Component_List L HE (hc_Component (ec_component e)) ctx nn) (\<lambda>obs.
             bind (ec_newObj e ctx) (ensure_decision WithAnnotations T e ctx obs)))) w"
  unfolding EnsureComponentByHash_Handle_def
  apply (intro run_cong_bind)
  apply (simp add: assms ensure_loop_split [OF refl] ensure_decision_def Let_def
      split: list.split prod.split outcome.split)
  done

end

section \<open>A cluster that does what it is told\<close>

text \<open>The documented behaviour of the callbacks when nothing fails: the cache is in step with the
  cluster, an apply creates or replaces the object under its name and keeps the annotations it
  was given, and a delete succeeds whether or not the object is still there. \<open>objs\<close> reads the
  objects of the component off the world.\<close>

definition cluster_synced ::
    "('w \<Rightarrow> 'z kobject_scheme list) \<Rightarrow> ('z kobject_scheme, 'u) conv_lib \<Rightarrow> (error \<Rightarrow> (unit, 'w) proc) \<Rightarrow>
     ('a \<Rightarrow> (string, string) gomap \<Rightarrow> 'a) \<Rightarrow>
     ('d, 'z kobject_scheme, 'u, 'ix, 'a, 'w) EnsureComponentByHash \<Rightarrow> 'd goctx \<Rightarrow> 'a \<Rightarrow>
     'z kobject_scheme \<Rightarrow> bool" where
  "cluster_synced objs L HE WithAnnotations e ctx new stored \<longleftrightarrow>
     (let annKey = hc_HashAnnotationKey (ec_component e);
          hash = hasher_Hash (hc_ObjectHasher (ec_component e)) new in
      has_hash annKey hash stored \<and>
      (\<forall>w. \<exists>nn. run (ec_nn e ctx) w = (Normal nn, w) \<and>
         run (Component_List L HE (hc_Component (ec_component e)) ctx nn) w = (Normal (objs w), w)) \<and>
      (\<forall>w. run (ec_newObj e ctx) w = (Normal new, w)) \<and>
      (\<forall>w. \<exists>w'. run (ec_applyObject e ctx (WithAnnotations new [(annKey, hash)])) w = (Normal (stored, None), w') \<and>
         objs w' = stored # filter (\<lambda>ob. obj_nn ob \<noteq> obj_nn stored) (objs w)) \<and>
      (\<forall>w nn. \<exists>w'. run (ec_deleteObject e ctx nn) w = (Normal None, w') \<and>
         objs w' = filter (\<lambda>ob. obj_nn ob \<noteq> nn) (objs w)))"

lemma delete_loop_synced:
  assumes "cluster_synced objs L HE WA e ctx new stored"
  shows "\<exists>w'. run (delete_loop T e ctx obs) w = (Normal (), w') \<and>
    objs w' = filter (\<lambda>ob. obj_nn ob \<notin> obj_nn ` set obs) (objs w)"
proof (induction obs arbitrary: w)
  case Nil
  show ?case by simp
next
  case (Cons ob obs)
  obtain w1 where w1: "run (ec_deleteObject e ctx (obj_nn ob)) w = (Normal None, w1)"
    "objs w1 = filter (\<lambda>x. obj_nn x \<noteq> obj_nn ob) (objs w)"
    using assms unfolding cluster_synced_def Let_def by blast
  from Cons [of w1] w1 show ?case by (auto intro!: filter_cong)
qed

lemma extra_entries_set:
  assumes "hash \<noteq> []"
  shows "set (concat (map (extra_entries annKey hash) obs)) = {ob \<in> set obs. \<not> has_hash annKey hash ob}"
  using assms by (auto simp: extra_entries_def has_hash_def str_index_def split: if_splits)

lemma filter_not_named:
  assumes "distinct (map obj_nn obs)"
  shows "filter (\<lambda>ob. obj_nn ob \<notin> obj_nn ` {x \<in> set obs. \<not> P x}) obs = filter P obs"
  using assms by (intro filter_cong) (auto simp: distinct_map inj_on_def)

context object_hasher
begin

lemma run_ensure_synced:
  assumes "cluster_synced objs L HE WA e ctx new stored" and "hc_ObjectHasher (ec_component e) = h"
  shows "run (EnsureComponentByHash_Handle L HE WA T e ctx) w =
    run (ensure_decision WA T e ctx (objs w) new) w"
proof -
  obtain nn where "run (ec_nn e ctx) w = (Normal nn, w)"
    "run (Component_List L HE (hc_Component (ec_component e)) ctx nn) w = (Normal (objs w), w)"
    using assms(1) unfolding cluster_synced_def Let_def by blast
  moreover have "run (ec_newObj e ctx) w = (Normal new, w)"
    using assms(1) unfolding cluster_synced_def Let_def by blast
  ultimately show ?thesis by (simp add: ensure_handle_decision [OF assms(2)])
qed

lemma ensure_one_matching:
  assumes synced: "cluster_synced objs L HE WA e ctx new stored"
    and h: "hc_ObjectHasher (ec_component e) = h"
    and one: "filter (has_hash (hc_HashAnnotationKey (ec_component e)) (hasher_Hash h new)) (objs w) = [m]"
    and "distinct (map obj_nn (objs w))"
  shows "\<exists>w'. run (EnsureComponentByHash_Handle L HE WA T e ctx) w = (Normal (), w') \<and> objs w' = [m]"
proof -
  let ?P = "has_hash (hc_HashAnnotationKey (ec_component e)) (hasher_Hash h new)"
    and ?extras = "concat (map (extra_entries (hc_HashAnnotationKey (ec_component e)) (hasher_Hash h new)) (objs w))"
  obtain w' where w': "run (delete_loop T e ctx ?extras) w = (Normal (), w')"
    "objs w' = filter (\<lambda>ob. obj_nn ob \<notin> obj_nn ` set ?extras) (objs w)"
    using delete_loop_synced [OF synced] by blast
  have "objs w' = filter ?P (objs w)"
    unfolding w'(2) extra_entries_set [OF hash_not_empty] by (rule filter_not_named) fact
  with one w'(1) show ?thesis
    by (simp add: run_ensure_synced [OF synced h] ensure_decision_def Let_def h)
qed

lemma ensure_single_stable:
  assumes "cluster_synced objs L HE WA e ctx new stored" and h: "hc_ObjectHasher (ec_component e) = h"
    and "objs w = [m]" and m: "has_hash (hc_HashAnnotationKey (ec_component e)) (hasher_Hash h new) m"
  shows "run (EnsureComponentByHash_Handle L HE WA T e ctx) w = (Normal (), w)"
proof -
  have "obj_Annotations m \<noteq> None"
    using m hash_not_empty [of new] by (cases "obj_Annotations m") (auto simp: has_hash_def str_index_def)
  with assms(3) m show ?thesis
    by (auto simp: run_ensure_synced [OF assms(1) h] ensure_decision_def Let_def h extra_entries_def)
qed

lemma ensure_none_matching:
  assumes synced: "cluster_synced objs L HE WA e ctx new stored"
    and h: "hc_ObjectHasher (ec_component e) = h"
    and none: "filter (has_hash (hc_HashAnnotationKey (ec_component e)) (hasher_Hash h new)) (objs w) = []"
    and "distinct (map obj_nn (objs w))"
  shows "\<exists>w'. run (EnsureComponentByHash_Handle L HE WA T e ctx) w = (Normal (), w') \<and>
    distinct (map obj_nn (objs w')) \<and>
    filter (has_hash (hc_HashAnnotationKey (ec_component e)) (hasher_Hash h new)) (objs w') = [stored]"
proof -
  let ?key = "hc_HashAnnotationKey (ec_component e)" and ?hash = "hasher_Hash h new"
  obtain w' where w': "run (ec_applyObject e ctx (WA new [(?key, ?hash)])) w = (Normal (stored, None), w')"
    "objs w' = stored # filter (\<lambda>ob. obj_nn ob \<noteq> obj_nn stored) (objs w)"
    using synced unfolding cluster_synced_def Let_def h by blast
  moreover have "has_hash ?key ?hash stored" using synced by (simp add: cluster_synced_def Let_def h)
  moreover have "filter (has_hash ?key ?hash) (filter P (objs w)) = []" for P
    using none by (auto simp: filter_empty_conv)
  ultimately show ?thesis
    using none assms(4)
    by (auto simp: run_ensure_synced [OF synced h] ensure_decision_def Let_def h distinct_map_filter)
qed

lemma ensure_converges:
  assumes synced: "cluster_synced objs L HE WA e ctx new stored"
    and h: "hc_ObjectHasher (ec_component e) = h"
    and d: "distinct (map obj_nn (objs w))"
    and le: "length (filter (has_hash (hc_HashAnnotationKey (ec_component e)) (hasher_Hash h new)) (objs w)) \<le> 1"
  shows "\<exists>w' m. run (andthen (EnsureComponentByHash_Handle L HE WA T e ctx)
        (EnsureComponentByHash_Handle L HE WA T e ctx)) w = (Normal (), w') \<and>
    objs w' = [m] \<and> has_hash (hc_HashAnnotationKey (ec_component e)) (hasher_Hash h new) m \<and>
    run (EnsureComponentByHash_Handle L HE WA T e ctx) w' = (Normal (), w')"
proof -
  let ?H = "EnsureComponentByHash_Handle L HE WA T e ctx"
    and ?P = "has_hash (hc_HashAnnotationKey (ec_component e)) (hasher_Hash h new)"
  have "\<exists>w1 m. run ?H w = (Normal (), w1) \<and> distinct (map obj_nn (objs w1)) \<and> filter ?P (objs w1) = [m]"
  proof (cases "filter ?P (objs w)")
    case Nil
    from ensure_none_matching [OF synced h Nil d] show ?thesis by blast
  next
    case (Cons m ms)
    with le have one: "filter ?P (objs w) = [m]" by simp
    then have "?P m" by (metis filter_eq_ConsD)
    with ensure_one_matching [OF synced h one d, of T] show ?thesis by auto
  qed
  then obtain w1 m where 1: "run ?H w = (Normal (), w1)" "distinct (map obj_nn (objs w1))"
    "filter ?P (objs w1) = [m]" by blast
  from ensure_one_matching [OF synced h 1(3,2), of T] obtain w2
    where 2: "run ?H w1 = (Normal (), w2)" "objs w2 = [m]" by blast
  have "?P m" using 1(3) by (metis filter_eq_ConsD)
  with 1(1) 2 ensure_single_stable [OF synced h 2(2), of T] show ?thesis by auto
qed

end

section \<open>Errors of the cluster\<close>

lemma ensure_handle_library_hasher:
  assumes "hc_ObjectHasher (ec_component e) \<in> {NewObjectHash H, NewSecureObjectHash H}"
  shows "run (EnsureComponentByHash_Handle L HE WA T e ctx) w =
    run (bind (ec_nn e ctx) (\<lambda>nn.
           bind (Component_List L HE (hc_Component (ec_component e)) ctx nn) (\<lambda>obs.
             bind (ec_newObj e ctx) (ensure_decision WA T e ctx obs)))) w"
  using assms object_hash.ensure_handle_decision [of e H] secure_hash.ensure_handle_decision [of e H]
  by blast

text \<open>A rejected apply, and a rejected delete, seen through the contract of the queue controls.\<close>

context queue_control
begin

lemma ensure_apply_error:
  assumes q: "Key_Value T (ec_ctrls e) ctx = Some q"
    and h: "hc_ObjectHasher (ec_component e) \<in> {NewObjectHash H, NewSecureObjectHash H}"
    and reads: "run (ec_nn e ctx) w = (Normal nn, w)"
      "run (Component_List L HE (hc_Component (ec_component e)) ctx nn) w = (Normal obs, w)"
      "run (ec_newObj e ctx) w = (Normal new, w)"
    and none: "filter (has_hash (hc_HashAnnotationKey (ec_component e))
        (hasher_Hash (hc_ObjectHasher (ec_component e)) new)) obs = []"
    and fails: "run (ec_applyObject e ctx (WA new [(hc_HashAnnotationKey (ec_component e),
        hasher_Hash (hc_ObjectHasher (ec_component e)) new)])) w = (Normal (k, Some err), w1)"
  shows "\<exists>w'. run (EnsureComponentByHash_Handle L HE WA T e ctx) w = (Normal (), w') \<and>
    verdicts w' = verdicts w1 @ [Again 0] \<and> stopped w' \<and> lastErr w' = Some err"
  using ctx_requeue_err [OF q, of "Some err" w1] none fails
  by (simp add: ensure_handle_library_hasher [OF h] reads ensure_decision_def Let_def)

lemma delete_loop_error:
  assumes q: "Key_Value T (ec_ctrls e) ctx = Some q"
    and fails: "run (ec_deleteObject e ctx (obj_nn ob)) w = (Normal (Some err), w1)"
  shows "\<exists>w'. run (delete_loop T e ctx (ob # obs)) w = (Normal (), w') \<and>
    verdicts w' = verdicts w1 @ [Again 0] \<and> stopped w' \<and> lastErr w' = Some err"
  using ctx_requeue_err [OF q, of "Some err" w1] fails by simp

end

section \<open>Properties\<close>


text \<open>C29: what the ensure handler does with any callbacks, errors included, equals the decision
  written out in \<open>ensure_decision\<close>: it applies the new object, and deletes nothing, when no owned
  object has the wanted hash; it deletes the others when exactly one has, naming an object without
  annotations twice; and it does nothing, leaving the others in the cluster, when several have.\<close>

theorem ensure_component_decides:
  assumes "hc_ObjectHasher (ec_component e) \<in> {NewObjectHash H, NewSecureObjectHash H}"
  shows "run (EnsureComponentByHash_Handle L HE WA T e ctx) w =
    run (bind (ec_nn e ctx) (\<lambda>nn.
           bind (Component_List L HE (hc_Component (ec_component e)) ctx nn) (\<lambda>obs.
             bind (ec_newObj e ctx) (ensure_decision WA T e ctx obs)))) w"
  using assms by (rule ensure_handle_library_hasher)

text \<open>an apply the cluster rejects. With the controls of \<open>queue.Operations\<close> in the context, the ensure
  handler returns normally, asks for the key exactly once more after the rejection, cancels the key's
  context and records the error.\<close>

theorem rejected_apply_requeues_key:
  assumes "Key_Value T (ec_ctrls e) ctx = Some (Operations_iface api tracked_ops)"
    and "hc_ObjectHasher (ec_component e) \<in> {NewObjectHash H, NewSecureObjectHash H}"
    and "run (ec_nn e ctx) w = (Normal nn, w)"
    and "run (Component_List L HE (hc_Component (ec_component e)) ctx nn) w = (Normal obs, w)"
    and "run (ec_newObj e ctx) w = (Normal new, w)"
    and "filter (has_hash (hc_HashAnnotationKey (ec_component e))
        (hasher_Hash (hc_ObjectHasher (ec_component e)) new)) obs = []"
    and "run (ec_applyObject e ctx (WA new [(hc_HashAnnotationKey (ec_component e),
        hasher_Hash (hc_ObjectHasher (ec_component e)) new)])) w = (Normal (k, Some err), w1)"
  shows "\<exists>w'. run (EnsureComponentByHash_Handle L HE WA T e ctx) w = (Normal (), w') \<and>
    ow_verdicts w' = ow_verdicts w1 @ [Again 0] \<and> ow_cancelled w' \<and> ow_err w' = Some err"
  using assms by (rule tracked.ensure_apply_error)

section \<open>Witnesses\<close>

text \<open>A cluster as a list of objects, and a handler for it whose new object is a string.\<close>

definition demo_kobject :: "string \<Rightarrow> (string, string) gomap option \<Rightarrow> kobject" where
  "demo_kobject nm anns =
     \<lparr>obj_Namespace = ''ns'', obj_Name = nm, obj_Labels = Some [], obj_Annotations = anns,
      obj_Finalizers = [], obj_DeletionTimestamp = None\<rparr>"

definition demo_cluster_indexer :: "(kobject, kobject, unit, kobject list) cache_indexer" where
  "demo_cluster_indexer =
     \<lparr>ci_Add = (\<lambda>_. Return None), ci_Update = (\<lambda>_. Return None), ci_Delete = (\<lambda>_. Return None),
      ci_List = gets (map Unstructured), ci_ListKeys = Return [],
      ci_Get = (\<lambda>_. Return (OtherValue [], False, None)),
      ci_GetByKey = (\<lambda>_. Return (OtherValue [], False, None)),
      ci_IndexKeys = (\<lambda>_ _. Return ([], None)), ci_ListIndexFuncValues = (\<lambda>_. Return []),
      ci_ByIndex = (\<lambda>_ _. gets (\<lambda>obs. (map Unstructured (filter (\<lambda>ob. obj_Labels ob \<noteq> None) obs), None))),
      ci_GetIndexers = Return (), ci_AddIndexers = (\<lambda>_. Return None)\<rparr>"

definition demo_kconv :: "(kobject, kobject) conv_lib" where
  "demo_kconv =
     \<lparr>FromUnstructured = Inr, ToUnstructured = Inr, nilObj = demo_kobject [] None, boxK = TypedObj,
      typeName = ''kobject'', fmt_v = (\<lambda>_. ''v''), fmt_s = (\<lambda>_. ''s''), fmt_T = (\<lambda>_. ''T'')\<rparr>"

definition demo_ensure ::
    "(unit, kobject, kobject, unit, string \<times> (string, string) gomap, kobject list) EnsureComponentByHash" where
  "demo_ensure =
     \<lparr>ec_component = NewHashableComponent
        (NewIndexedComponent (NewIndexer demo_cluster_indexer) ''idx'' (\<lambda>_ _. True))
        (NewObjectHash \<lparr>spew_Fprintf = fst, xxhash_Sum64 = (\<lambda>_. 7), sha512_Sum512_256 = (\<lambda>s. s)\<rparr>) ''hash'',
      ec_ctrls = NewQueueOperationsCtx,
      ec_nn = (\<lambda>_. Return \<lparr>Namespace = ''ns'', Name = ''owner''\<rparr>),
      ec_applyObject = (\<lambda>_ a. act (\<lambda>obs. ((demo_kobject (fst a) (Some (snd a)), None),
         demo_kobject (fst a) (Some (snd a)) # filter (\<lambda>ob. obj_nn ob \<noteq> obj_nn (demo_kobject (fst a) None)) obs))),
      ec_deleteObject = (\<lambda>_ nn. act (\<lambda>obs. (None, filter (\<lambda>ob. obj_nn ob \<noteq> nn) obs))),
      ec_newObj = (\<lambda>_. Return (''a'', []))\<rparr>"

definition demo_annotate ::
    "string \<times> (string, string) gomap \<Rightarrow> (string, string) gomap \<Rightarrow> string \<times> (string, string) gomap" where
  "demo_annotate a entries = (fst a, entries @ snd a)"

definition demo_queue_type :: "('w queue_iface, unit) gotype" where
  "demo_queue_type = \<lparr>tname = ''queue.Interface'', to_any = (\<lambda>_. None), of_any = (\<lambda>_. None),
     zero_val = \<lparr>qDone = Return (), qRequeueAfter = (\<lambda>_. Return ()), qRequeue = Return (),
       qRequeueErr = (\<lambda>_. Return ()), qRequeueAPIErr = (\<lambda>_. Return ()), qError = Return None\<rparr>\<rparr>"

lemma demo_hash_7: "Sprintf_x 7 = ''7''"
  by (simp add: Sprintf_x_def hex_nat.simps hex_digit_def)

lemmas demo_ensure_simps = demo_ensure_def NewHashableComponent_def NewIndexedComponent_def
  NewIndexer_def NewObjectHash_def hasher_Hash_def Object_def demo_hash_7

lemma demo_list:
  "run (Component_List demo_kconv HE (hc_Component (ec_component demo_ensure)) [] nn) obs =
     (Normal (filter (\<lambda>ob. obj_Labels ob \<noteq> None) obs), obs)"
proof -
  have "map (fst \<circ> UnstructuredObjToTypedObj demo_kconv) (filter (convertible demo_kconv) (map Unstructured xs)) = xs" for xs
    by (induction xs) (auto simp: convertible_def demo_kconv_def)
  then show ?thesis
    by (auto simp: Component_List_def Indexer_ByIndex_def demo_ensure_simps demo_cluster_indexer_def
        IndexerListToTypedList_def indexer_list_loop_eq list_loop_filter intro!: filter_cong split: option.splits)
qed

lemma demo_ensure_calls:
  "ec_nn demo_ensure ctx = Return \<lparr>Namespace = ''ns'', Name = ''owner''\<rparr>"
  "ec_newObj demo_ensure ctx = Return (''a'', [])"
  by (simp_all add: demo_ensure_def)

lemma demo_cluster_synced:
  "cluster_synced (filter (\<lambda>ob. obj_Labels ob \<noteq> None)) demo_kconv (\<lambda>_. Return ()) demo_annotate demo_ensure []
     (''a'', []) (demo_kobject ''a'' (Some [(''hash'', ''7'')]))"
  by (simp add: cluster_synced_def Let_def demo_list)
    (auto simp: demo_ensure_simps demo_annotate_def demo_kobject_def obj_nn_def has_hash_def
      str_index_def intro!: filter_cong)


theorem ensure_component_decides_witness:
  "run (EnsureComponentByHash_Handle demo_kconv (\<lambda>_. Return ()) demo_annotate demo_queue_type demo_ensure [])
     [demo_kobject ''b'' (Some [(''hash'', ''8'')])] =
   (Normal (), [demo_kobject ''a'' (Some [(''hash'', ''7'')]), demo_kobject ''b'' (Some [(''hash'', ''8'')])])"
proof -
  have "hc_ObjectHasher (ec_component demo_ensure) \<in>
      {NewObjectHash \<lparr>spew_Fprintf = fst, xxhash_Sum64 = (\<lambda>_. 7), sha512_Sum512_256 = (\<lambda>s. s)\<rparr>,
       NewSecureObjectHash \<lparr>spew_Fprintf = fst, xxhash_Sum64 = (\<lambda>_. 7), sha512_Sum512_256 = (\<lambda>s. s)\<rparr>}"
    by (simp add: demo_ensure_def NewHashableComponent_def)
  from ensure_component_decides [OF this] show ?thesis
    by (simp add: demo_list demo_ensure_calls ensure_decision_def Let_def)
      (simp add: demo_ensure_simps demo_kobject_def has_hash_def str_index_def obj_nn_def demo_annotate_def)
qed

definition demo_rejecting ::
    "(op_world queue_iface, kobject, kobject, unit, string, op_world) EnsureComponentByHash" where
  "demo_rejecting =
     \<lparr>ec_component = NewHashableComponent
        (NewIndexedComponent (NewIndexer
          \<lparr>ci_Add = (\<lambda>_. Return None), ci_Update = (\<lambda>_. Return None), ci_Delete = (\<lambda>_. Return None),
           ci_List = Return [], ci_ListKeys = Return [], ci_Get = (\<lambda>_. Return (OtherValue [], False, None)),
           ci_GetByKey = (\<lambda>_. Return (OtherValue [], False, None)),
           ci_IndexKeys = (\<lambda>_ _. Return ([], None)), ci_ListIndexFuncValues = (\<lambda>_. Return []),
           ci_ByIndex = (\<lambda>_ _. Return ([], None)), ci_GetIndexers = Return (), ci_AddIndexers = (\<lambda>_. Return None)\<rparr>)
          ''idx'' (\<lambda>_ _. True))
        (NewObjectHash demo_hash_lib) ''hash'',
      ec_ctrls = NewQueueOperationsCtx, ec_nn = (\<lambda>_. Return \<lparr>Namespace = ''ns'', Name = ''owner''\<rparr>),
      ec_applyObject = (\<lambda>_ _. Return (demo_kobject [] None, Some (External ''rejected''))),
      ec_deleteObject = (\<lambda>_ _. Return None), ec_newObj = (\<lambda>_. Return ''a'')\<rparr>"

definition demo_ops_type :: "(op_world queue_iface, op_world queue_iface) gotype" where
  "demo_ops_type = \<lparr>tname = ''queue.Interface'', to_any = Some, of_any = Some,
     zero_val = Operations_iface (demo_api 0) tracked_ops\<rparr>"

theorem rejected_apply_requeues_key_witness:
  "\<exists>w'. run (EnsureComponentByHash_Handle demo_kconv (\<lambda>_. Return ()) (\<lambda>a _. a) demo_ops_type demo_rejecting
       [(NewQueueOperationsCtx, Some (Operations_iface (demo_api 0) tracked_ops))])
       \<lparr>ow_verdicts = [], ow_cancelled = False, ow_err = None\<rparr> = (Normal (), w') \<and>
     ow_verdicts w' = [Again 0] \<and> ow_err w' = Some (External ''rejected'')"
proof -
  let ?ctx = "[(NewQueueOperationsCtx, Some (Operations_iface (demo_api 0) tracked_ops))]"
    and ?w = "\<lparr>ow_verdicts = [], ow_cancelled = False, ow_err = None\<rparr>"
  have "\<exists>w'. run (EnsureComponentByHash_Handle demo_kconv (\<lambda>_. Return ()) (\<lambda>a _. a) demo_ops_type demo_rejecting ?ctx) ?w = (Normal (), w') \<and>
    ow_verdicts w' = ow_verdicts ?w @ [Again 0] \<and> ow_cancelled w' \<and> ow_err w' = Some (External ''rejected'')"
  proof (rule rejected_apply_requeues_key [where H = demo_hash_lib])
    show "Key_Value demo_ops_type (ec_ctrls demo_rejecting) ?ctx = Some (Operations_iface (demo_api 0) tracked_ops)"
      by (simp add: Key_Value_def ctx_Value_def type_assert_def demo_ops_type_def demo_rejecting_def)
    show "run (Component_List demo_kconv (\<lambda>_. Return ()) (hc_Component (ec_component demo_rejecting)) ?ctx
        \<lparr>Namespace = ''ns'', Name = ''owner''\<rparr>) ?w = (Normal [], ?w)"
      by (simp add: demo_rejecting_def Component_List_def Indexer_ByIndex_def NewHashableComponent_def
          NewIndexedComponent_def NewIndexer_def IndexerListToTypedList_def)
  qed (simp_all add: demo_rejecting_def NewHashableComponent_def)
  then show ?thesis by auto
qed

end
