(* ===== verification/Finalizer.thy ===== *)
theory Finalizer
  imports Typed_Context Typed
begin

text \<open>
  The package \<open>finalizer\<close>: functions that add and remove a finalizer with a get-modify-write
  (finalizer/finalizer.go), and the handler that adds one to the object in the context
  (finalizer/set_finalizer.go).

  The dynamic client is the parameter \<open>kube_client\<close>: a get and an update of unstructured
  objects, arbitrary code on the world. What the properties need of it is \<open>object_store\<close>: the
  documented behaviour of the API server, where an update never creates an object.
\<close>

section \<open>GetAddFunc and GetRemoveFunc\<close>

record ('c, 'u, 'w) kube_client =
  kc_Get :: "'c \<Rightarrow> gvr \<Rightarrow> namespaced_name \<Rightarrow> (error + 'u, 'w) proc"
  kc_Update :: "'c \<Rightarrow> gvr \<Rightarrow> string \<Rightarrow> 'u \<Rightarrow> string \<Rightarrow> (error + 'u, 'w) proc"

text \<open>\<open>slices.Index\<close> (\<open>None\<close> for -1) and \<open>slices.Delete(s, i, i+1)\<close>.\<close>

fun slices_Index :: "string list \<Rightarrow> string \<Rightarrow> nat option" where
  "slices_Index [] v = None"
| "slices_Index (x # xs) v = (if x = v then Some 0 else map_option Suc (slices_Index xs v))"

definition slices_Delete :: "'a list \<Rightarrow> nat \<Rightarrow> nat \<Rightarrow> 'a list" where
  "slices_Delete s i j = take i s @ drop j s"

text \<open>The update and the conversion of its result, written twice in the source.\<close>

definition write_back ::
    "('z kobject_scheme, 'u) conv_lib \<Rightarrow> ('c, 'u, 'w) kube_client \<Rightarrow> 'c \<Rightarrow> gvr \<Rightarrow>
     'z kobject_scheme \<Rightarrow> 'u \<Rightarrow> string \<Rightarrow> ('z kobject_scheme \<times> error option, 'w) proc" where
  "write_back L client ctx g obj u fm =
     bind (kc_Update client ctx g (obj_Namespace obj) u fm) (\<lambda>r. case r of
         Inl err \<Rightarrow> Return (nilObj L, Some err)
       | Inr updated \<Rightarrow> Return (UnstructuredObjToTypedObj L (Unstructured updated)))"

definition GetAddFunc ::
    "('z kobject_scheme, 'u) conv_lib \<Rightarrow> ('c, 'u, 'w) kube_client \<Rightarrow> gvr \<Rightarrow> string \<Rightarrow> string \<Rightarrow>
     'c \<Rightarrow> namespaced_name \<Rightarrow> ('z kobject_scheme \<times> error option, 'w) proc" where
  "GetAddFunc L client g finalizer fieldManager = (\<lambda>ctx nn.
     bind (kc_Get client ctx g nn) (\<lambda>r.
       case r of
         Inl err \<Rightarrow> Return (nilObj L, Some err)
       | Inr u \<Rightarrow>
           (case UnstructuredObjToTypedObj L (Unstructured u) of
              (obj, Some err) \<Rightarrow> Return (nilObj L, Some err)
            | (obj, None) \<Rightarrow>
                if finalizer \<in> set (obj_Finalizers obj) \<or> obj_DeletionTimestamp obj \<noteq> None
                then Return (obj, None)
                else
                  (let obj = obj\<lparr>obj_Finalizers := obj_Finalizers obj @ [finalizer]\<rparr> in
                   case ToUnstructured L obj of
                     Inl err \<Rightarrow> Return (nilObj L, Some err)
                   | Inr finalized \<Rightarrow>
                       write_back L client ctx g obj finalized fieldManager))))"

definition GetRemoveFunc ::
    "('z kobject_scheme, 'u) conv_lib \<Rightarrow> ('c, 'u, 'w) kube_client \<Rightarrow> gvr \<Rightarrow> string \<Rightarrow> string \<Rightarrow>
     'c \<Rightarrow> namespaced_name \<Rightarrow> ('z kobject_scheme \<times> error option, 'w) proc" where
  "GetRemoveFunc L client g finalizer fieldManager = (\<lambda>ctx nn.
     bind (kc_Get client ctx g nn) (\<lambda>r.
       case r of
         Inl err \<Rightarrow> Return (nilObj L, Some err)
       | Inr u \<Rightarrow>
           (case UnstructuredObjToTypedObj L (Unstructured u) of
              (obj, Some err) \<Rightarrow> Return (nilObj L, Some err)
            | (obj, None) \<Rightarrow>
                (case slices_Index (obj_Finalizers obj) finalizer of
                   None \<Rightarrow> Return (obj, None)
                 | Some finalizerIdx \<Rightarrow>
                     if obj_DeletionTimestamp obj = None then Return (obj, None)
                     else
                       (let obj = obj\<lparr>obj_Finalizers :=
                              slices_Delete (obj_Finalizers obj) finalizerIdx (finalizerIdx + 1)\<rparr> in
                        case ToUnstructured L obj of
                          Inl err \<Rightarrow> Return (nilObj L, Some err)
                        | Inr definalized \<Rightarrow>
                            write_back L client ctx g obj definalized fieldManager)))))"

section \<open>SetFinalizerHandler\<close>

record ('c, 'k, 'w) SetFinalizerHandler =
  sf_MustValue :: "'c \<Rightarrow> ('k, 'w) proc"
  sf_WithValue :: "'c \<Rightarrow> 'k \<Rightarrow> ('c, 'w) proc"
  sf_Finalizer :: string
  sf_AddFinalizer :: "'c \<Rightarrow> namespaced_name \<Rightarrow> ('k \<times> error option, 'w) proc"
  sf_RequeueAPIErr :: "'c \<Rightarrow> error option \<Rightarrow> (unit, 'w) proc"
  sf_Next :: "('c, 'w) handler"

definition SetFinalizerHandler_Handle ::
    "('c, 'z kobject_scheme, 'w) SetFinalizerHandler \<Rightarrow> 'c \<Rightarrow> (unit, 'w) proc" where
  "SetFinalizerHandler_Handle s ctx =
     bind (sf_MustValue s ctx) (\<lambda>obj.
       if sf_Finalizer s \<notin> set (obj_Finalizers obj) \<and> obj_DeletionTimestamp obj = None
       then
         bind (sf_AddFinalizer s ctx (obj_nn obj)) (\<lambda>(db, err).
           if err \<noteq> None then sf_RequeueAPIErr s ctx err
           else bind (sf_WithValue s ctx db) (\<lambda>ctx. ContextHandler (sf_Next s) ctx))
       else ContextHandler (sf_Next s) ctx)"

section \<open>Lemmas\<close>

lemma slices_Index_None: "slices_Index xs v = None \<longleftrightarrow> v \<notin> set xs"
  by (induction xs) auto

lemma slices_Delete_Index:
  "slices_Index xs v = Some i \<Longrightarrow> slices_Delete xs i (Suc i) = remove1 v xs"
proof (induction xs arbitrary: i)
  case Nil
  then show ?case by simp
next
  case (Cons x xs)
  then show ?case by (auto simp: slices_Delete_def split: if_splits)
qed

text \<open>The API server as a store of objects.\<close>

definition object_store ::
    "('w \<Rightarrow> namespaced_name \<Rightarrow> 'z kobject_scheme option) \<Rightarrow> ('z kobject_scheme, 'u) conv_lib \<Rightarrow>
     ('c, 'u, 'w) kube_client \<Rightarrow> gvr \<Rightarrow> bool" where
  "object_store view L client g \<longleftrightarrow>
     (\<forall>obj. \<exists>u. ToUnstructured L obj = Inr u \<and> FromUnstructured L u = Inr obj) \<and>
     (\<forall>w ctx nn. view w nn = None \<longrightarrow> (\<exists>e. run (kc_Get client ctx g nn) w = (Normal (Inl e), w))) \<and>
     (\<forall>w ctx nn obj. view w nn = Some obj \<longrightarrow> obj_nn obj = nn \<and>
        (\<exists>u. run (kc_Get client ctx g nn) w = (Normal (Inr u), w) \<and> FromUnstructured L u = Inr obj)) \<and>
     (\<forall>w ctx u obj fm. ToUnstructured L obj = Inr u \<longrightarrow>
        (if view w (obj_nn obj) = None
         then \<exists>e. run (kc_Update client ctx g (obj_Namespace obj) u fm) w = (Normal (Inl e), w)
         else \<exists>w'. run (kc_Update client ctx g (obj_Namespace obj) u fm) w = (Normal (Inr u), w') \<and>
                view w' = (view w)(obj_nn obj \<mapsto> obj)))"

lemma object_store_conv:
  "object_store view L client g \<Longrightarrow> \<exists>u. ToUnstructured L obj = Inr u \<and> FromUnstructured L u = Inr obj"
  unfolding object_store_def by blast

lemma object_store_get_none:
  "object_store view L client g \<Longrightarrow> view w nn = None \<Longrightarrow>
     \<exists>e. run (kc_Get client ctx g nn) w = (Normal (Inl e), w)"
  unfolding object_store_def by blast

lemma object_store_get_some:
  "object_store view L client g \<Longrightarrow> view w nn = Some obj \<Longrightarrow> obj_nn obj = nn \<and>
     (\<exists>u. run (kc_Get client ctx g nn) w = (Normal (Inr u), w) \<and> FromUnstructured L u = Inr obj)"
  unfolding object_store_def by blast

lemma object_store_update_none:
  "object_store view L client g \<Longrightarrow> ToUnstructured L obj = Inr u \<Longrightarrow> view w (obj_nn obj) = None \<Longrightarrow>
     \<exists>e. run (kc_Update client ctx g (obj_Namespace obj) u fm) w = (Normal (Inl e), w)"
  unfolding object_store_def by metis

lemma object_store_update_some:
  "object_store view L client g \<Longrightarrow> ToUnstructured L obj = Inr u \<Longrightarrow> view w (obj_nn obj) \<noteq> None \<Longrightarrow>
     \<exists>w'. run (kc_Update client ctx g (obj_Namespace obj) u fm) w = (Normal (Inr u), w') \<and>
       view w' = (view w)(obj_nn obj \<mapsto> obj)"
  unfolding object_store_def by metis

lemma obj_nn_finalizers [simp]: "obj_nn (ob\<lparr>obj_Finalizers := fs\<rparr>) = obj_nn ob"
  by (simp add: obj_nn_def)

text \<open>A client between whose get and update another writer takes a step.\<close>

definition interfered :: "('w \<Rightarrow> 'w) \<Rightarrow> ('c, 'u, 'w) kube_client \<Rightarrow> ('c, 'u, 'w) kube_client" where
  "interfered env client =
     client\<lparr>kc_Update := (\<lambda>ctx g ns u fm. andthen (modify env) (kc_Update client ctx g ns u fm))\<rparr>"

lemma run_write:
  assumes store: "object_store view L client g" and u: "ToUnstructured L obj = Inr u" "FromUnstructured L u = Inr obj"
  shows "\<exists>r w'. run (write_back L client ctx g obj u fm) w = (Normal r, w') \<and>
     (if view w (obj_nn obj) = None then w' = w \<and> snd r \<noteq> None
      else view w' = (view w)(obj_nn obj \<mapsto> obj) \<and> r = (obj, None))"
proof (cases "view w (obj_nn obj) = None")
  case True
  with object_store_update_none [OF store u(1) True, of ctx fm] show ?thesis by (auto simp: write_back_def)
next
  case False
  from object_store_update_some [OF store u(1) False, of ctx fm] obtain w'
    where "run (kc_Update client ctx g (obj_Namespace obj) u fm) w = (Normal (Inr u), w')"
      "view w' = (view w)(obj_nn obj \<mapsto> obj)" by blast
  with False u(2) show ?thesis by (simp add: write_back_def)
qed

text \<open>Both functions, with another writer's step \<open>env\<close> between the get and the update: nothing is
  written unless the object was there and \<open>skip\<close> did not hold, and then the changed object is
  written only where an object still is.\<close>

definition get_modify_write ::
    "(namespaced_name \<Rightarrow> 'z kobject_scheme option) \<Rightarrow> (namespaced_name \<Rightarrow> 'z kobject_scheme option) \<Rightarrow>
     ('z kobject_scheme \<Rightarrow> bool) \<Rightarrow> ('z kobject_scheme \<Rightarrow> string list) \<Rightarrow> namespaced_name \<Rightarrow>
     'z kobject_scheme \<times> error option \<Rightarrow> (namespaced_name \<Rightarrow> 'z kobject_scheme option) \<Rightarrow> bool" where
  "get_modify_write before between skip change nn r after \<longleftrightarrow>
     (case before nn of
        None \<Rightarrow> snd r \<noteq> None \<and> after = before
      | Some obj \<Rightarrow>
          if skip obj then r = (obj, None) \<and> after = before
          else if between nn = None then snd r \<noteq> None \<and> after = between
          else r = (obj\<lparr>obj_Finalizers := change obj\<rparr>, None) \<and>
               after = between(nn \<mapsto> obj\<lparr>obj_Finalizers := change obj\<rparr>))"

lemma interfered_get [simp]: "kc_Get (interfered env client) = kc_Get client"
  by (simp add: interfered_def)

lemma run_write_interfered [simp]:
  "run (write_back L (interfered env client) ctx g obj u fm) w = run (write_back L client ctx g obj u fm) (env w)"
  by (simp add: write_back_def interfered_def)

lemma run_not_interfered:
  "run (GetAddFunc L (interfered (\<lambda>w. w) client) g f fm ctx nn) w = run (GetAddFunc L client g f fm ctx nn) w"
  "run (GetRemoveFunc L (interfered (\<lambda>w. w) client) g f fm ctx nn) w = run (GetRemoveFunc L client g f fm ctx nn) w"
  by (auto simp del: run_bind simp: GetAddFunc_def GetRemoveFunc_def Let_def intro!: run_cong_bind
      split: sum.split option.split)

lemma run_GetAddFunc:
  assumes store: "object_store view L client g"
  shows "\<exists>r w'. run (GetAddFunc L (interfered env client) g f fm ctx nn) w = (Normal r, w') \<and>
    get_modify_write (view w) (view (env w))
      (\<lambda>obj. f \<in> set (obj_Finalizers obj) \<or> obj_DeletionTimestamp obj \<noteq> None)
      (\<lambda>obj. obj_Finalizers obj @ [f]) nn r (view w')"
proof (cases "view w nn")
  case None
  with object_store_get_none [OF store None, of ctx] show ?thesis
    by (auto simp: GetAddFunc_def get_modify_write_def)
next
  case (Some obj)
  from object_store_get_some [OF store Some, of ctx] obtain u where nn: "obj_nn obj = nn"
    and get: "run (kc_Get client ctx g nn) w = (Normal (Inr u), w)" "FromUnstructured L u = Inr obj" by blast
  let ?new = "obj\<lparr>obj_Finalizers := obj_Finalizers obj @ [f]\<rparr>"
  obtain v where v: "ToUnstructured L ?new = Inr v" "FromUnstructured L v = Inr ?new"
    using object_store_conv [OF store] by blast
  obtain r w' where tail: "run (write_back L client ctx g ?new v fm) (env w) = (Normal r, w')"
    and eff: "if view (env w) (obj_nn ?new) = None then w' = env w \<and> snd r \<noteq> None
      else view w' = (view (env w))(obj_nn ?new \<mapsto> ?new) \<and> r = (?new, None)"
    using run_write [OF store v] by metis
  show ?thesis
  proof (cases "f \<in> set (obj_Finalizers obj) \<or> obj_DeletionTimestamp obj \<noteq> None")
    case True
    with get Some show ?thesis by (auto simp: GetAddFunc_def get_modify_write_def)
  next
    case False
    then have "run (GetAddFunc L (interfered env client) g f fm ctx nn) w = (Normal r, w')"
      using get v tail by (simp add: GetAddFunc_def Let_def)
    with False eff Some nn show ?thesis by (auto simp: get_modify_write_def split: if_splits)
  qed
qed

lemma run_GetRemoveFunc:
  assumes store: "object_store view L client g"
  shows "\<exists>r w'. run (GetRemoveFunc L (interfered env client) g f fm ctx nn) w = (Normal r, w') \<and>
    get_modify_write (view w) (view (env w))
      (\<lambda>obj. f \<notin> set (obj_Finalizers obj) \<or> obj_DeletionTimestamp obj = None)
      (\<lambda>obj. remove1 f (obj_Finalizers obj)) nn r (view w')"
proof (cases "view w nn")
  case None
  with object_store_get_none [OF store None, of ctx] show ?thesis
    by (auto simp: GetRemoveFunc_def get_modify_write_def)
next
  case (Some obj)
  from object_store_get_some [OF store Some, of ctx] obtain u where nn: "obj_nn obj = nn"
    and get: "run (kc_Get client ctx g nn) w = (Normal (Inr u), w)" "FromUnstructured L u = Inr obj" by blast
  let ?new = "obj\<lparr>obj_Finalizers := remove1 f (obj_Finalizers obj)\<rparr>"
  obtain v where v: "ToUnstructured L ?new = Inr v" "FromUnstructured L v = Inr ?new"
    using object_store_conv [OF store] by blast
  obtain r w' where tail: "run (write_back L client ctx g ?new v fm) (env w) = (Normal r, w')"
    and eff: "if view (env w) (obj_nn ?new) = None then w' = env w \<and> snd r \<noteq> None
      else view w' = (view (env w))(obj_nn ?new \<mapsto> ?new) \<and> r = (?new, None)"
    using run_write [OF store v] by metis
  show ?thesis
  proof (cases "slices_Index (obj_Finalizers obj) f")
    case None
    then have "f \<notin> set (obj_Finalizers obj)" by (simp add: slices_Index_None)
    with None get Some show ?thesis
      by (auto simp: GetRemoveFunc_def get_modify_write_def)
  next
    case idx: (Some i)
    then have "f \<in> set (obj_Finalizers obj)" by (metis option.distinct(1) slices_Index_None)
    show ?thesis
    proof (cases "obj_DeletionTimestamp obj = None")
      case True
      with get Some idx show ?thesis by (auto simp: GetRemoveFunc_def get_modify_write_def)
    next
      case False
      then have "run (GetRemoveFunc L (interfered env client) g f fm ctx nn) w = (Normal r, w')"
        using get v tail idx slices_Delete_Index [OF idx]
        by (auto simp: GetRemoveFunc_def Let_def)
      with False eff Some nn \<open>f \<in> _\<close> show ?thesis by (auto simp: get_modify_write_def split: if_splits)
    qed
  qed
qed

section \<open>The handler over the context interface\<close>

text \<open>The handler for any context key that returns what was stored and keeps it in the context
  alone: the next handler runs in a context whose object is the one \<open>AddFinalizer\<close> returned, in
  the world \<open>AddFinalizer\<close> left.\<close>

locale object_context = settable_context withValue mustValue ok inv
  for withValue :: "'c \<Rightarrow> 'z kobject_scheme \<Rightarrow> ('c, 'w) proc" and mustValue and ok and inv +
  assumes only_context: "run (withValue c v) w = (Normal c', w') \<Longrightarrow> w' = w"
begin

lemma set_finalizer_handle:
  assumes get: "run (mustValue ctx) w = (Normal obj, w)"
    and s: "sf_MustValue s = mustValue" "sf_WithValue s = withValue"
    and needed: "sf_Finalizer s \<notin> set (obj_Finalizers obj)" "obj_DeletionTimestamp obj = None"
    and add: "run (sf_AddFinalizer s ctx (obj_nn obj)) w = (Normal (db, None), w1)"
    and "ok db" and "inv ctx w1"
  shows "\<exists>ctx'. run (SetFinalizerHandler_Handle s ctx) w = run (ContextHandler (sf_Next s) ctx') w1 \<and>
     run (mustValue ctx') w1 = (Normal db, w1)"
proof -
  obtain ctx' w2 where 1: "run (withValue ctx db) w1 = (Normal ctx', w2)" "run (mustValue ctx') w2 = (Normal db, w2)"
    using set_get [OF assms(7,8)] by blast
  with only_context have "w2 = w1" by blast
  with 1 show ?thesis using get needed add by (auto simp: SetFinalizerHandler_Handle_def s)
qed

end

interpretation key_object: object_context
    "\<lambda>ctx v. Return (Key_WithValue T k ctx v)" "Key_MustValue T k" "storable T" "\<lambda>_ _. True"
  for T :: "('z kobject_scheme, 'd) gotype" and k
  by unfold_locales simp

interpretation defaulting_object: object_context
    "\<lambda>ctx v. Return (Defaulting_WithValue T k ctx v)" "Defaulting_MustValue T k"
    "\<lambda>v. storable T v \<and> v \<noteq> zero_val T" "\<lambda>_ _. True"
  for T :: "('z kobject_scheme, 'd) gotype" and k
  by unfold_locales simp

section \<open>Properties\<close>



section \<open>Witnesses\<close>

text \<open>A store as a partial map, with objects that are their own unstructured form.\<close>

type_synonym demo_store = "namespaced_name \<Rightarrow> kobject option"

definition demo_client :: "('c, kobject, demo_store) kube_client" where
  "demo_client =
     \<lparr>kc_Get = (\<lambda>_ _ nn. gets (\<lambda>m. case m nn of
          Some ob \<Rightarrow> if obj_nn ob = nn then Inr ob else Inr (ob\<lparr>obj_Namespace := Namespace nn, obj_Name := Name nn\<rparr>)
        | None \<Rightarrow> Inl (External ''not found''))),
      kc_Update = (\<lambda>_ _ _ ob _. act (\<lambda>m. case m (obj_nn ob) of
          Some _ \<Rightarrow> (Inr ob, m(obj_nn ob \<mapsto> ob)) | None \<Rightarrow> (Inl (External ''not found''), m)))\<rparr>"

text \<open>The store as the server shows it: every object under its own name.\<close>

definition demo_view :: "demo_store \<Rightarrow> demo_store" where
  "demo_view m nn = map_option (\<lambda>ob. ob\<lparr>obj_Namespace := Namespace nn, obj_Name := Name nn\<rparr>) (m nn)"

definition demo_store_conv :: "(kobject, kobject) conv_lib" where
  "demo_store_conv =
     \<lparr>FromUnstructured = Inr, ToUnstructured = Inr,
      nilObj = \<lparr>obj_Namespace = [], obj_Name = [], obj_Labels = None, obj_Annotations = None,
        obj_Finalizers = [], obj_DeletionTimestamp = None\<rparr>,
      boxK = TypedObj, typeName = ''kobject'', fmt_v = (\<lambda>_. ''v''), fmt_s = (\<lambda>_. ''s''), fmt_T = (\<lambda>_. ''T'')\<rparr>"

lemma demo_view_update: "demo_view (m(obj_nn ob \<mapsto> ob)) = (demo_view m)(obj_nn ob \<mapsto> ob)"
  by (rule ext) (simp add: demo_view_def obj_nn_def)

lemma demo_view_None: "demo_view m nn = None \<longleftrightarrow> m nn = None"
  by (simp add: demo_view_def)

lemma demo_object_store: "object_store demo_view demo_store_conv demo_client g"
  unfolding object_store_def
proof (intro conjI allI impI)
  fix w ctx nn and obj :: kobject
  assume "demo_view w nn = Some obj"
  then show "obj_nn obj = nn"
    and "\<exists>u. run (kc_Get demo_client ctx g nn) w = (Normal (Inr u), w) \<and> FromUnstructured demo_store_conv u = Inr obj"
    by (auto simp: demo_view_def obj_nn_def demo_client_def demo_store_conv_def)
next
  fix w :: demo_store and ctx u fm and obj :: kobject
  assume u: "ToUnstructured demo_store_conv obj = Inr u"
  show "if demo_view w (obj_nn obj) = None
        then \<exists>e. run (kc_Update demo_client ctx g (obj_Namespace obj) u fm) w = (Normal (Inl e), w)
        else \<exists>w'. run (kc_Update demo_client ctx g (obj_Namespace obj) u fm) w = (Normal (Inr u), w') \<and>
          demo_view w' = (demo_view w)(obj_nn obj \<mapsto> obj)"
    using u demo_view_update [of w obj]
    by (cases "w (obj_nn obj)") (simp_all add: demo_client_def demo_store_conv_def demo_view_None)
qed (simp_all add: demo_store_conv_def demo_client_def demo_view_None)

definition demo_finalizable :: kobject where
  "demo_finalizable = \<lparr>obj_Namespace = ''ns'', obj_Name = ''a'', obj_Labels = None, obj_Annotations = None,
     obj_Finalizers = [], obj_DeletionTimestamp = None\<rparr>"

lemma demo_finalizable_fields: "obj_Finalizers demo_finalizable = []" "obj_DeletionTimestamp demo_finalizable = None"
  by (simp_all add: demo_finalizable_def)


definition demo_key_type :: "(kobject, kobject) gotype" where
  "demo_key_type = \<lparr>tname = ''*v1.Object'', to_any = Some, of_any = Some, zero_val = nilObj demo_store_conv\<rparr>"

definition demo_set_finalizer :: "(kobject goctx, kobject, demo_store) SetFinalizerHandler" where
  "demo_set_finalizer =
     \<lparr>sf_MustValue = Key_MustValue demo_key_type (KeyPtr ''k'' None),
      sf_WithValue = (\<lambda>ctx v. Return (Key_WithValue demo_key_type (KeyPtr ''k'' None) ctx v)), sf_Finalizer = ''f'',
      sf_AddFinalizer = GetAddFunc demo_store_conv demo_client \<lparr>Group = [], Version = ''v1'', Resource = ''r''\<rparr> ''f'' ''fm'',
      sf_RequeueAPIErr = (\<lambda>_ _. Return ()), sf_Next = NoopHandler\<rparr>"


end
