(* ===== verification/Adopt.thy ===== *)
theory Adopt
  imports Component
begin

text \<open>
  The package \<open>adopt\<close>: the handler that labels and annotates an existing object for its owner and
  releases the objects the owner no longer refers to (adopt/adopt.go), and the index function that
  recovers the owners from the annotations (adopt/owners.go).

  The cluster is reached through the handler's callbacks, arbitrary code on the world. The builder
  methods of an apply configuration are \<open>adoptable\<close>; \<open>errors.IsNotFound\<close> is the argument \<open>nf\<close>. Map
  iterations take their order as an argument. Log calls, and the deletion of labels from the local
  copy of a released object, which nothing reads afterwards, are not modelled.
\<close>

section \<open>AdoptionHandler\<close>

record 'a adoptable =
  WithAnnotations :: "'a \<Rightarrow> (string, string) gomap \<Rightarrow> 'a"
  WithLabels :: "'a \<Rightarrow> (string, string) gomap \<Rightarrow> 'a"

record ApplyOptions =
  Force :: bool
  FieldManager :: string

definition Owned :: string where
  "Owned = ''owned''"

definition AlwaysExistsFunc :: "'c \<Rightarrow> namespaced_name \<Rightarrow> (error option, 'w) proc" where
  "AlwaysExistsFunc ctx nn = Return None"

definition NoopObjectMissingFunc :: "'c \<Rightarrow> error option \<Rightarrow> (unit, 'w) proc" where
  "NoopObjectMissingFunc ctx err = Return ()"

record ('d, 'k, 'u, 'ix, 'a, 'w) AdoptionHandler =
  ad_OperationsContext :: ctx_key
  ad_ControllerFieldManager :: string
  ad_AdopteeCtx :: "'d goctx \<Rightarrow> (namespaced_name, 'w) proc"
  ad_OwnerCtx :: "'d goctx \<Rightarrow> (namespaced_name, 'w) proc"
  ad_AdoptedCtx :: "'d goctx \<Rightarrow> 'k \<Rightarrow> ('d goctx, 'w) proc"
  ad_ObjectAdoptedFunc :: "'d goctx \<Rightarrow> 'k \<Rightarrow> (unit, 'w) proc"
  ad_ObjectMissingFunc :: "('d goctx \<Rightarrow> error option \<Rightarrow> (unit, 'w) proc) option"
  ad_GetFromCache :: "'d goctx \<Rightarrow> ('k \<times> error option, 'w) proc"
  ad_Indexer :: "('k, 'u, 'ix, 'w) Indexer"
  ad_IndexName :: string
  ad_Labels :: "(string, string) gomap"
  ad_NewPatch :: "namespaced_name \<Rightarrow> 'a"
  ad_OwnerAnnotationPrefix :: string
  ad_OwnerAnnotationKeyFunc :: "namespaced_name \<Rightarrow> string"
  ad_OwnerFieldManagerFunc :: "namespaced_name \<Rightarrow> string"
  ad_ApplyFunc :: "'d goctx \<Rightarrow> 'a \<Rightarrow> ApplyOptions \<Rightarrow> ('k \<times> error option, 'w) proc"
  ad_ExistsFunc :: "('d goctx \<Rightarrow> namespaced_name \<Rightarrow> (error option, 'w) proc) option"
  ad_Next :: "'d goctx \<Rightarrow> (unit, 'w) proc"

type_synonym ann_order = "(string, string) gomap \<Rightarrow> (string, string) gomap"

text \<open>The loop over the objects of the index: the last object named like the adoptee, and the
  others.\<close>

fun match_loop ::
    "namespaced_name \<Rightarrow> 'z kobject_scheme list \<Rightarrow> 'z kobject_scheme option \<times> 'z kobject_scheme list \<Rightarrow>
     'z kobject_scheme option \<times> 'z kobject_scheme list" where
  "match_loop adoptee [] (matching, extras) = (matching, extras)"
| "match_loop adoptee (obj # objs) (matching, extras) =
     (if obj_Name obj = Name adoptee \<and> obj_Namespace obj = Namespace adoptee
      then match_loop adoptee objs (Some obj, extras)
      else match_loop adoptee objs (matching, extras @ [obj]))"

text \<open>The loop over the annotations of a released object. \<open>None\<close>: the handler returned after an
  error; \<open>Some b\<close>: \<open>b\<close> is \<open>hasOtherOwner\<close>.\<close>

fun annotations_loop ::
    "('w queue_iface, 'd) gotype \<Rightarrow> 'a adoptable \<Rightarrow> ('d, 'k, 'u, 'ix, 'a, 'w) AdoptionHandler \<Rightarrow>
     'd goctx \<Rightarrow> namespaced_name \<Rightarrow> namespaced_name \<Rightarrow> (string, string) gomap \<Rightarrow> bool \<Rightarrow>
     (bool option, 'w) proc" where
  "annotations_loop T A s ctx owner nn [] hasOtherOwner = Return (Some hasOtherOwner)"
| "annotations_loop T A s ctx owner nn ((k, v) # kvs) hasOtherOwner =
     (if k = ad_OwnerAnnotationKeyFunc s owner \<and> v = Owned
      then
        bind (ad_ApplyFunc s ctx (WithAnnotations A (ad_NewPatch s nn) [])
               \<lparr>Force = True, FieldManager = ad_OwnerFieldManagerFunc s owner\<rparr>) (\<lambda>(_, err).
          if err \<noteq> None
          then andthen (OpsCtx_RequeueAPIErr T (ad_OperationsContext s) ctx err) (Return None)
          else annotations_loop T A s ctx owner nn kvs hasOtherOwner)
      else if HasPrefix k (ad_OwnerAnnotationPrefix s)
      then annotations_loop T A s ctx owner nn kvs True
      else annotations_loop T A s ctx owner nn kvs hasOtherOwner)"

definition annotations_of :: "'z kobject_scheme \<Rightarrow> (string, string) gomap" where
  "annotations_of ob = (case obj_Annotations ob of None \<Rightarrow> [] | Some m \<Rightarrow> m)"

text \<open>The loop over the objects to release, followed by the next handler.\<close>

fun release_loop ::
    "('w queue_iface, 'd) gotype \<Rightarrow> 'a adoptable \<Rightarrow> ann_order \<Rightarrow>
     ('d, 'z kobject_scheme, 'u, 'ix, 'a, 'w) AdoptionHandler \<Rightarrow>
     'd goctx \<Rightarrow> namespaced_name \<Rightarrow> 'z kobject_scheme list \<Rightarrow> (unit, 'w) proc" where
  "release_loop T A ord s ctx owner [] = ad_Next s ctx"
| "release_loop T A ord s ctx owner (old # olds) =
     bind (annotations_loop T A s ctx owner (obj_nn old) (ord (annotations_of old)) False) (\<lambda>r.
       case r of
         None \<Rightarrow> Return ()
       | Some True \<Rightarrow> release_loop T A ord s ctx owner olds
       | Some False \<Rightarrow>
           bind (ad_ApplyFunc s ctx (WithLabels A (ad_NewPatch s (obj_nn old)) [])
                  \<lparr>Force = True, FieldManager = ad_ControllerFieldManager s\<rparr>) (\<lambda>(_, err).
             if err \<noteq> None then OpsCtx_RequeueAPIErr T (ad_OperationsContext s) ctx err
             else release_loop T A ord s ctx owner olds))"

text \<open>The handler from the index lookup on.\<close>

definition adopt_and_release ::
    "('z kobject_scheme, 'u) conv_lib \<Rightarrow> ('w queue_iface, 'd) gotype \<Rightarrow> 'a adoptable \<Rightarrow> ann_order \<Rightarrow>
     ('d, 'z kobject_scheme, 'u, 'ix, 'a, 'w) AdoptionHandler \<Rightarrow>
     'd goctx \<Rightarrow> namespaced_name \<Rightarrow> namespaced_name \<Rightarrow> (unit, 'w) proc" where
  "adopt_and_release L T A ord s ctx adoptee owner =
     bind (Indexer_ByIndex L (ad_Indexer s) (ad_IndexName s) (nn_String owner)) (\<lambda>(objects, err).
       if err \<noteq> None then OpsCtx_RequeueErr T (ad_OperationsContext s) ctx err
       else
         case match_loop adoptee objects (None, []) of
           (matchingObject, extraObjects) \<Rightarrow>
             if matchingObject = None \<and> length (Name adoptee) > 0
             then
               bind (ad_ApplyFunc s ctx
                      (WithAnnotations A (ad_NewPatch s adoptee) [(ad_OwnerAnnotationKeyFunc s owner, Owned)])
                      \<lparr>Force = True, FieldManager = ad_OwnerFieldManagerFunc s owner\<rparr>) (\<lambda>(obj, err).
                 if err \<noteq> None then OpsCtx_RequeueAPIErr T (ad_OperationsContext s) ctx err
                 else
                   andthen (ad_ObjectAdoptedFunc s ctx obj)
                     (bind (ad_AdoptedCtx s ctx obj) (\<lambda>ctx.
                       release_loop T A ord s ctx owner extraObjects)))
             else
               bind (ad_AdoptedCtx s ctx (case matchingObject of None \<Rightarrow> nilObj L | Some obj \<Rightarrow> obj))
                 (\<lambda>ctx. release_loop T A ord s ctx owner extraObjects))"

definition AdoptionHandler_Handle ::
    "(error option \<Rightarrow> bool) \<Rightarrow> ('z kobject_scheme, 'u) conv_lib \<Rightarrow> ('w queue_iface, 'd) gotype \<Rightarrow>
     'a adoptable \<Rightarrow> ann_order \<Rightarrow> ('d, 'z kobject_scheme, 'u, 'ix, 'a, 'w) AdoptionHandler \<Rightarrow>
     'd goctx \<Rightarrow> (unit, 'w) proc" where
  "AdoptionHandler_Handle nf L T A ord s ctx =
     bind (ad_AdopteeCtx s ctx) (\<lambda>adoptee.
     bind (ad_OwnerCtx s ctx) (\<lambda>owner.
       (let existsFunc = (case ad_ExistsFunc s of None \<Rightarrow> AlwaysExistsFunc | Some f \<Rightarrow> f);
            missingFunc = (case ad_ObjectMissingFunc s of None \<Rightarrow> NoopObjectMissingFunc | Some f \<Rightarrow> f) in
        bind (ad_GetFromCache s ctx) (\<lambda>(_, err).
          if err \<noteq> None \<and> \<not> nf err then OpsCtx_RequeueErr T (ad_OperationsContext s) ctx err
          else if length (Name adoptee) > 0 \<and> nf err
          then
            bind (existsFunc ctx adoptee) (\<lambda>err.
              if err \<noteq> None then missingFunc ctx err
              else
                bind (ad_ApplyFunc s ctx (WithLabels A (ad_NewPatch s adoptee) (ad_Labels s))
                       \<lparr>Force = True, FieldManager = ad_ControllerFieldManager s\<rparr>) (\<lambda>(_, err).
                  if err \<noteq> None then OpsCtx_RequeueAPIErr T (ad_OperationsContext s) ctx err
                  else adopt_and_release L T A ord s ctx adoptee owner))
          else adopt_and_release L T A ord s ctx adoptee owner))))"

section \<open>OwnerKeysFromMeta\<close>

text \<open>\<open>meta.Accessor\<close> is the argument \<open>accessor\<close>; the type assertion panics on a value that is not a
  runtime object.\<close>

fun owner_names_loop :: "string \<Rightarrow> string \<Rightarrow> (string, string) gomap \<Rightarrow> string list \<Rightarrow> string list" where
  "owner_names_loop pre namespace [] ownerNames = ownerNames"
| "owner_names_loop pre namespace ((k, v) # kvs) ownerNames =
     (if HasPrefix k pre
      then owner_names_loop pre namespace kvs
             (ownerNames @ [nn_String \<lparr>Namespace = namespace, Name = TrimPrefix k pre\<rparr>])
      else owner_names_loop pre namespace kvs ownerNames)"

definition OwnerKeysFromMeta ::
    "(('k, 'u) any_obj \<Rightarrow> error + 'z kobject_scheme) \<Rightarrow> ann_order \<Rightarrow> string \<Rightarrow>
     ('k, 'u) any_obj \<Rightarrow> (error + string list, 'w) proc" where
  "OwnerKeysFromMeta accessor ord annotationPrefix inp =
     (if \<not> is_runtime_object inp then Panic ''interface conversion''
      else
        case accessor inp of
          Inl err \<Rightarrow> Return (Inl err)
        | Inr objMeta \<Rightarrow>
            Return (Inr (owner_names_loop annotationPrefix (obj_Namespace objMeta)
              (ord (annotations_of objMeta)) [])))"

section \<open>The plan of an adoption\<close>

text \<open>Abstractly, the handler computes a list of patches from what it read and applies them in
  order; it stops at the first that fails, requeues, and otherwise runs the next handler. A patch
  that adopts the object is reported after it was applied.\<close>

datatype 'a adopt_event = Applied 'a ApplyOptions | Adopted | Requeued "error option" | NextRan

type_synonym 'a patch = "'a \<times> ApplyOptions \<times> bool"

fun play :: "('a adopt_event list \<Rightarrow> error option) \<Rightarrow> 'a patch list \<Rightarrow> 'a adopt_event list \<Rightarrow> 'a adopt_event list" where
  "play fail [] l = l @ [NextRan]"
| "play fail ((a, opts, adopts) # ps) l =
     (if fail l \<noteq> None then l @ [Applied a opts, Requeued (fail l)]
      else play fail ps (l @ [Applied a opts] @ (if adopts then [Adopted] else [])))"

definition owned_by :: "string \<Rightarrow> 'z kobject_scheme \<Rightarrow> bool" where
  "owned_by key ob \<longleftrightarrow> map_of (annotations_of ob) key = Some Owned"

text \<open>Whether an annotation other than the owner's own mark has the common prefix.\<close>

definition other_owner :: "string \<Rightarrow> string \<Rightarrow> (string, string) gomap \<Rightarrow> bool" where
  "other_owner pre key anns \<longleftrightarrow> list_ex (\<lambda>(k, v). HasPrefix k pre \<and> \<not> (k = key \<and> v = Owned)) anns"

definition release_plan ::
    "'a adoptable \<Rightarrow> ('d, 'z kobject_scheme, 'u, 'ix, 'a, 'w) AdoptionHandler \<Rightarrow> namespaced_name \<Rightarrow>
     'z kobject_scheme \<Rightarrow> 'a patch list" where
  "release_plan A s owner old =
     (let key = ad_OwnerAnnotationKeyFunc s owner in
      (if owned_by key old
       then [(WithAnnotations A (ad_NewPatch s (obj_nn old)) [],
              \<lparr>Force = True, FieldManager = ad_OwnerFieldManagerFunc s owner\<rparr>, False)]
       else []) @
      (if other_owner (ad_OwnerAnnotationPrefix s) key (annotations_of old) then []
       else [(WithLabels A (ad_NewPatch s (obj_nn old)) [],
              \<lparr>Force = True, FieldManager = ad_ControllerFieldManager s\<rparr>, False)]))"

definition adoption_plan ::
    "'a adoptable \<Rightarrow> ('d, 'z kobject_scheme, 'u, 'ix, 'a, 'w) AdoptionHandler \<Rightarrow> namespaced_name \<Rightarrow>
     namespaced_name \<Rightarrow> bool \<Rightarrow> 'z kobject_scheme list \<Rightarrow> 'a patch list" where
  "adoption_plan A s adoptee owner uncached objects =
     (if Name adoptee \<noteq> [] \<and> uncached
      then [(WithLabels A (ad_NewPatch s adoptee) (ad_Labels s),
             \<lparr>Force = True, FieldManager = ad_ControllerFieldManager s\<rparr>, False)]
      else []) @
     (if Name adoptee \<noteq> [] \<and> adoptee \<notin> set (map obj_nn objects)
      then [(WithAnnotations A (ad_NewPatch s adoptee) [(ad_OwnerAnnotationKeyFunc s owner, Owned)],
             \<lparr>Force = True, FieldManager = ad_OwnerFieldManagerFunc s owner\<rparr>, True)]
      else []) @
     concat (map (release_plan A s owner) (filter (\<lambda>ob. obj_nn ob \<noteq> adoptee) objects))"

text \<open>A handler whose callbacks record what they are asked to do: \<open>fail\<close> says, from the events so
  far, whether the API rejects the next patch; \<open>good\<close> are the contexts that carry the recording
  queue controls.\<close>

definition recording ::
    "('a adopt_event list \<Rightarrow> error option) \<Rightarrow> ('d goctx \<Rightarrow> bool) \<Rightarrow>
     ('a adopt_event list queue_iface, 'd) gotype \<Rightarrow>
     ('d, 'k, 'u, 'ix, 'a, 'a adopt_event list) AdoptionHandler \<Rightarrow> bool" where
  "recording fail good T s \<longleftrightarrow>
     (\<forall>ctx a opts l. \<exists>k. run (ad_ApplyFunc s ctx a opts) l = (Normal (k, fail l), l @ [Applied a opts])) \<and>
     (\<forall>ctx k l. run (ad_ObjectAdoptedFunc s ctx k) l = (Normal (), l @ [Adopted])) \<and>
     (\<forall>ctx k l. good ctx \<longrightarrow> (\<exists>ctx'. run (ad_AdoptedCtx s ctx k) l = (Normal ctx', l) \<and> good ctx')) \<and>
     (\<forall>ctx e l. good ctx \<longrightarrow>
        run (OpsCtx_RequeueAPIErr T (ad_OperationsContext s) ctx e) l = (Normal (), l @ [Requeued e])) \<and>
     (\<forall>ctx l. run (ad_Next s ctx) l = (Normal (), l @ [NextRan]))"

section \<open>Lemmas\<close>

lemma recording_apply:
  "recording fail good T s \<Longrightarrow> \<exists>k. run (ad_ApplyFunc s ctx a opts) l = (Normal (k, fail l), l @ [Applied a opts])"
  by (simp add: recording_def)

lemma recording_simps:
  assumes "recording fail good T s"
  shows "run (ad_ObjectAdoptedFunc s ctx k) l = (Normal (), l @ [Adopted])"
    and "good ctx \<Longrightarrow> run (OpsCtx_RequeueAPIErr T (ad_OperationsContext s) ctx e) l = (Normal (), l @ [Requeued e])"
    and "run (ad_Next s ctx) l = (Normal (), l @ [NextRan])"
  using assms by (simp_all add: recording_def)

lemma recording_adopted:
  "recording fail good T s \<Longrightarrow> good ctx \<Longrightarrow> \<exists>ctx'. run (ad_AdoptedCtx s ctx k) l = (Normal ctx', l) \<and> good ctx'"
  by (simp add: recording_def)

lemma match_loop_eq:
  "match_loop adoptee objs (m, ex) =
     (fold (\<lambda>ob r. Some ob) (filter (\<lambda>ob. obj_nn ob = adoptee) objs) m,
      ex @ filter (\<lambda>ob. obj_nn ob \<noteq> adoptee) objs)"
proof (induction objs arbitrary: m ex)
  case Nil
  show ?case by simp
next
  case (Cons ob objs)
  have "obj_Name ob = Name adoptee \<and> obj_Namespace ob = Namespace adoptee \<longleftrightarrow> obj_nn ob = adoptee"
    by (auto simp: obj_nn_def)
  with Cons show ?case by simp
qed

lemma fold_last_None: "fold (\<lambda>ob r. Some ob) xs m = None \<longleftrightarrow> xs = [] \<and> m = None"
  by (induction xs arbitrary: m) auto

lemma match_loop_found:
  "fst (match_loop adoptee objs (None, [])) = None \<longleftrightarrow> adoptee \<notin> set (map obj_nn objs)"
  by (auto simp: match_loop_eq fold_last_None filter_empty_conv)

text \<open>Annotations without the owner's own mark cause no call.\<close>

lemma annotations_loop_unmarked:
  assumes "(ad_OwnerAnnotationKeyFunc s owner, Owned) \<notin> set kvs"
  shows "annotations_loop T A s ctx owner nn kvs b =
    Return (Some (b \<or> other_owner (ad_OwnerAnnotationPrefix s) (ad_OwnerAnnotationKeyFunc s owner) kvs))"
  using assms
proof (induction kvs arbitrary: b)
  case Nil
  show ?case by (simp add: other_owner_def)
next
  case (Cons p kvs)
  obtain k v where p: "p = (k, v)" by (cases p)
  with Cons.prems have "\<not> (k = ad_OwnerAnnotationKeyFunc s owner \<and> v = Owned)" by auto
  with Cons p show ?case by (auto simp: other_owner_def)
qed

lemma run_annotations_loop:
  assumes rec: "recording fail good T s" and good: "good ctx" and "gomap_ok kvs"
  shows "run (annotations_loop T A s ctx owner nn kvs b) l =
    (let key = ad_OwnerAnnotationKeyFunc s owner;
         unown = Applied (WithAnnotations A (ad_NewPatch s nn) []) \<lparr>Force = True, FieldManager = ad_OwnerFieldManagerFunc s owner\<rparr>;
         r = Normal (Some (b \<or> other_owner (ad_OwnerAnnotationPrefix s) key kvs)) in
     if map_of kvs key \<noteq> Some Owned then (r, l)
     else if fail l \<noteq> None then (Normal None, l @ [unown, Requeued (fail l)])
     else (r, l @ [unown]))"
  using assms(3)
proof (induction kvs arbitrary: b)
  case Nil
  show ?case by (simp add: other_owner_def)
next
  case (Cons p kvs)
  obtain k v where p: "p = (k, v)" by (cases p)
  from Cons.prems have ok: "gomap_ok kvs" and new: "k \<notin> fst ` set kvs"
    by (auto simp: gomap_ok_def p)
  show ?case
  proof (cases "k = ad_OwnerAnnotationKeyFunc s owner \<and> v = Owned")
    case True
    obtain x where "run (ad_ApplyFunc s ctx (WithAnnotations A (ad_NewPatch s nn) [])
        \<lparr>Force = True, FieldManager = ad_OwnerFieldManagerFunc s owner\<rparr>) l = (Normal (x, fail l),
      l @ [Applied (WithAnnotations A (ad_NewPatch s nn) []) \<lparr>Force = True, FieldManager = ad_OwnerFieldManagerFunc s owner\<rparr>])"
      using recording_apply [OF rec] by blast
    moreover have "(ad_OwnerAnnotationKeyFunc s owner, Owned) \<notin> set kvs" using True new by force
    ultimately show ?thesis
      using True p by (simp add: annotations_loop_unmarked recording_simps [OF rec] good other_owner_def)
  next
    case False
    have "map_of kvs k = None" using new by (simp add: map_of_eq_None_iff)
    with False show ?thesis using p Cons.IH [OF ok]
      by (cases "k = ad_OwnerAnnotationKeyFunc s owner") (auto simp: Let_def other_owner_def)
  qed
qed

lemma other_owner_order: "range_order ord \<Longrightarrow> other_owner pre key (ord m) = other_owner pre key m"
  by (simp add: other_owner_def list_ex_iff range_order_set)

text \<open>The release loop plays the plans of the objects it is given.\<close>

lemma run_release_loop:
  assumes rec: "recording fail good T s" and good: "good ctx" and ord: "range_order ord"
    and "list_all (\<lambda>ob. gomap_ok (annotations_of ob)) olds"
  shows "run (release_loop T A ord s ctx owner olds) l =
    (Normal (), play fail (concat (map (release_plan A s owner) olds)) l)"
  using assms(4)
proof (induction olds arbitrary: l)
  case Nil
  show ?case by (simp add: recording_simps [OF rec])
next
  case (Cons old olds)
  then have ok: "gomap_ok (annotations_of old)" and IH: "\<And>l. run (release_loop T A ord s ctx owner olds) l =
      (Normal (), play fail (concat (map (release_plan A s owner) olds)) l)" by simp_all
  let ?key = "ad_OwnerAnnotationKeyFunc s owner"
  let ?unlabel = "WithLabels A (ad_NewPatch s (obj_nn old)) []"
    and ?opts = "\<lparr>Force = True, FieldManager = ad_ControllerFieldManager s\<rparr>"
  have anns: "run (annotations_loop T A s ctx owner (obj_nn old) (ord (annotations_of old)) False) l = (let
       unown = Applied (WithAnnotations A (ad_NewPatch s (obj_nn old)) []) \<lparr>Force = True, FieldManager = ad_OwnerFieldManagerFunc s owner\<rparr>;
       r = Normal (Some (other_owner (ad_OwnerAnnotationPrefix s) ?key (annotations_of old))) in
     if \<not> owned_by ?key old then (r, l)
     else if fail l \<noteq> None then (Normal None, l @ [unown, Requeued (fail l)])
     else (r, l @ [unown]))" for l
    using run_annotations_loop [OF rec good, of "ord (annotations_of old)" A owner "obj_nn old" False l]
      range_order_ok [OF ord] ok
    by (simp add: Let_def owned_by_def map_of_range_order [OF ord ok] other_owner_order [OF ord])
  have unlabel: "run (bind (ad_ApplyFunc s ctx ?unlabel ?opts) (\<lambda>(_, err).
       if err \<noteq> None then OpsCtx_RequeueAPIErr T (ad_OperationsContext s) ctx err
       else release_loop T A ord s ctx owner olds)) l =
     (Normal (), play fail ((?unlabel, ?opts, False) # concat (map (release_plan A s owner) olds)) l)" for l
  proof -
    obtain x where "run (ad_ApplyFunc s ctx ?unlabel ?opts) l = (Normal (x, fail l), l @ [Applied ?unlabel ?opts])"
      using recording_apply [OF rec] by blast
    then show ?thesis by (simp add: IH recording_simps [OF rec] good)
  qed
  show ?case
    unfolding release_loop.simps
    by (simp only: run_bind anns)
      (simp add: Let_def release_plan_def [of A s owner old] IH unlabel del: run_bind not_None_eq split: bool.split)
qed

lemma run_adopt_and_release:
  assumes rec: "recording fail good T s" and good: "good ctx" and ord: "range_order ord"
    and index: "run (Indexer_ByIndex L (ad_Indexer s) (ad_IndexName s) (nn_String owner)) l = (Normal (objs, None), l)"
    and anns: "list_all (\<lambda>ob. gomap_ok (annotations_of ob)) objs"
  shows "run (adopt_and_release L T A ord s ctx adoptee owner) l =
    (Normal (), play fail (adoption_plan A s adoptee owner False objs) l)"
proof -
  let ?extras = "filter (\<lambda>ob. obj_nn ob \<noteq> adoptee) objs"
    and ?patch = "WithAnnotations A (ad_NewPatch s adoptee) [(ad_OwnerAnnotationKeyFunc s owner, Owned)]"
    and ?opts = "\<lparr>Force = True, FieldManager = ad_OwnerFieldManagerFunc s owner\<rparr>"
  obtain m where m: "match_loop adoptee objs (None, []) = (m, ?extras)"
    by (simp add: match_loop_eq)
  have none: "m = None \<longleftrightarrow> adoptee \<notin> set (map obj_nn objs)"
    using match_loop_found [of adoptee objs] m by simp
  have "list_all (\<lambda>ob. gomap_ok (annotations_of ob)) ?extras" using anns by (auto simp: list_all_iff)
  then have rel: "run (release_loop T A ord s c owner ?extras) l =
      (Normal (), play fail (concat (map (release_plan A s owner) ?extras)) l)" if "good c" for c l
    using run_release_loop [OF rec that ord] by blast
  have tail: "run (bind (ad_AdoptedCtx s ctx k) (\<lambda>ctx. release_loop T A ord s ctx owner ?extras)) l =
      (Normal (), play fail (concat (map (release_plan A s owner) ?extras)) l)" for k l
    using recording_adopted [OF rec good, of k l] rel by auto
  obtain x where x: "run (ad_ApplyFunc s ctx ?patch ?opts) l = (Normal (x, fail l), l @ [Applied ?patch ?opts])"
    using recording_apply [OF rec] by blast
  show ?thesis
  proof (cases "m = None \<and> Name adoptee \<noteq> []")
    case True
    then show ?thesis
      using none x tail by (simp add: adopt_and_release_def index m adoption_plan_def recording_simps [OF rec] good)
  next
    case False
    then show ?thesis
      using none tail by (auto simp: adopt_and_release_def index m adoption_plan_def)
  qed
qed

lemma owner_names_loop_eq:
  "owner_names_loop pre ns kvs out =
     out @ map (\<lambda>(k, v). ns @ ''/'' @ TrimPrefix k pre) (filter (\<lambda>(k, v). HasPrefix k pre) kvs)"
  by (induction pre ns kvs out rule: owner_names_loop.induct) (auto simp: nn_String_def)

section \<open>Properties\<close>

text \<open>C5: the adoption handler refines its plan. When the reads succeed, one run of the handler
  applies exactly the patches of \<open>adoption_plan\<close> in order: the controller's label when the object is
  not cached, the owner's annotation when the object is not in the owner's index, and for every
  other object of the index the removal of the owner's mark and, unless another owner's
  annotation is left, of the controller's labels. It stops at the first patch that fails, requeues
  the key with that error and does not run the next handler; otherwise the next handler runs once.
  The order in which Go iterates over annotations does not matter.\<close>

theorem adoption_plays_its_plan:
  assumes rec: "recording fail good T s" and good: "good ctx" and ord: "range_order ord"
    and adoptee: "\<And>l. run (ad_AdopteeCtx s ctx) l = (Normal adoptee, l)"
    and owner: "\<And>l. run (ad_OwnerCtx s ctx) l = (Normal owner, l)"
    and cache: "run (ad_GetFromCache s ctx) l = (Normal (k, cacheErr), l)"
    and nf: "nf cacheErr \<longleftrightarrow> cacheErr \<noteq> None"
    and exists: "ad_ExistsFunc s = None"
    and index: "\<And>l. run (Indexer_ByIndex L (ad_Indexer s) (ad_IndexName s) (nn_String owner)) l = (Normal (objs, None), l)"
    and anns: "list_all (\<lambda>ob. gomap_ok (annotations_of ob)) objs"
  shows "run (AdoptionHandler_Handle nf L T A ord s ctx) l =
     (Normal (), play fail (adoption_plan A s adoptee owner (cacheErr \<noteq> None) objs) l)"
proof -
  let ?patch = "WithLabels A (ad_NewPatch s adoptee) (ad_Labels s)"
    and ?opts = "\<lparr>Force = True, FieldManager = ad_ControllerFieldManager s\<rparr>"
  obtain x where x: "run (ad_ApplyFunc s ctx ?patch ?opts) l = (Normal (x, fail l), l @ [Applied ?patch ?opts])"
    using recording_apply [OF rec] by blast
  note rest = run_adopt_and_release [OF rec good ord index anns]
  show ?thesis
    using x nf
    by (simp add: AdoptionHandler_Handle_def adoptee owner cache exists AlwaysExistsFunc_def Let_def rest
        recording_simps [OF rec] good del: not_None_eq) (simp add: adoption_plan_def)
qed

text \<open>the handler gives up early, without applying any patch and without running the next
  handler, in two cases: a cache error other than not-found is requeued, and when the object is
  not in the cache and the existence check fails, only the missing-object callback runs.\<close>

theorem adoption_early_exits:
  assumes "run (ad_AdopteeCtx s ctx) w = (Normal adoptee, w)"
    and "run (ad_OwnerCtx s ctx) w = (Normal owner, w)"
    and "run (ad_GetFromCache s ctx) w = (Normal (k, Some e), w1)"
  shows "if \<not> nf (Some e)
     then run (AdoptionHandler_Handle nf L T A ord s ctx) w = run (OpsCtx_RequeueErr T (ad_OperationsContext s) ctx (Some e)) w1
     else case ad_ExistsFunc s of
       Some f \<Rightarrow> (case run (f ctx adoptee) w1 of
           (Normal (Some e'), w2) \<Rightarrow>
             Name adoptee = [] \<or>
             run (AdoptionHandler_Handle nf L T A ord s ctx) w =
               (case ad_ObjectMissingFunc s of None \<Rightarrow> (Normal (), w2) | Some g \<Rightarrow> run (g ctx (Some e')) w2)
         | _ \<Rightarrow> True)
     | None \<Rightarrow> True"
  using assms
  by (auto simp: AdoptionHandler_Handle_def Let_def NoopObjectMissingFunc_def
      split: option.split prod.split outcome.split)

text \<open>the index function finds exactly the owners the adoption handler has marked. For an owner
  in the object's namespace, the owner's key is among the index values of the object exactly when
  the object has an annotation made of the prefix and the owner's name, whatever the iteration
  order; values that are not runtime objects panic.\<close>

theorem owner_keys_find_marked_owners:
  assumes "range_order ord" and "is_runtime_object inp" and "accessor inp = Inr ob"
    and "Namespace owner = obj_Namespace ob"
  shows "\<exists>keys. OwnerKeysFromMeta accessor ord pre inp = Return (Inr keys) \<and>
     (nn_String owner \<in> set keys \<longleftrightarrow> pre @ Name owner \<in> fst ` set (annotations_of ob))"
proof -
  have "nn_String owner \<in> set (owner_names_loop pre (obj_Namespace ob) (ord (annotations_of ob)) []) \<longleftrightarrow>
      (\<exists>k v. (k, v) \<in> set (annotations_of ob) \<and> HasPrefix k pre \<and> TrimPrefix k pre = Name owner)"
    using assms(4) range_order_set [OF assms(1), of "annotations_of ob"]
    by (force simp: owner_names_loop_eq nn_String_def)
  also have "\<dots> \<longleftrightarrow> pre @ Name owner \<in> fst ` set (annotations_of ob)"
    by (force simp: HasPrefix_iff)
  finally show ?thesis using assms(2,3) by (simp add: OwnerKeysFromMeta_def)
qed

section \<open>Witnesses\<close>

text \<open>An owner that refers to no object any more, with one object left in its index that another
  owner has marked too.\<close>

type_synonym demo_log = "string adopt_event list"

definition demo_controls :: "demo_log queue_iface" where
  "demo_controls =
     \<lparr>qDone = Return (), qRequeueAfter = (\<lambda>_. Return ()), qRequeue = Return (),
      qRequeueErr = (\<lambda>_. Return ()), qRequeueAPIErr = (\<lambda>e. emit (Requeued e)), qError = Return None\<rparr>"

definition demo_controls_type :: "(demo_log queue_iface, demo_log queue_iface) gotype" where
  "demo_controls_type = \<lparr>tname = ''queue.Interface'', to_any = Some, of_any = Some, zero_val = demo_controls\<rparr>"

definition demo_adopted :: kobject where
  "demo_adopted = demo_kobject ''secret'' (Some [(''own/a'', ''owned''), (''own/b'', ''owned'')])"

definition demo_adopt_indexer :: "(kobject, kobject, unit, demo_log) cache_indexer" where
  "demo_adopt_indexer =
     \<lparr>ci_Add = (\<lambda>_. Return None), ci_Update = (\<lambda>_. Return None), ci_Delete = (\<lambda>_. Return None),
      ci_List = Return [], ci_ListKeys = Return [], ci_Get = (\<lambda>_. Return (OtherValue [], False, None)),
      ci_GetByKey = (\<lambda>_. Return (OtherValue [], False, None)),
      ci_IndexKeys = (\<lambda>_ _. Return ([], None)), ci_ListIndexFuncValues = (\<lambda>_. Return []),
      ci_ByIndex = (\<lambda>_ _. Return ([Unstructured demo_adopted], None)),
      ci_GetIndexers = Return (), ci_AddIndexers = (\<lambda>_. Return None)\<rparr>"

definition demo_adopt ::
    "(demo_log queue_iface, kobject, kobject, unit, string, demo_log) AdoptionHandler" where
  "demo_adopt =
     \<lparr>ad_OperationsContext = NewQueueOperationsCtx, ad_ControllerFieldManager = ''ctl'',
      ad_AdopteeCtx = (\<lambda>_. Return \<lparr>Namespace = [], Name = []\<rparr>),
      ad_OwnerCtx = (\<lambda>_. Return \<lparr>Namespace = ''ns'', Name = ''a''\<rparr>),
      ad_AdoptedCtx = (\<lambda>ctx _. Return ctx), ad_ObjectAdoptedFunc = (\<lambda>_ _. emit Adopted),
      ad_ObjectMissingFunc = None,
      ad_GetFromCache = (\<lambda>_. Return (nilObj demo_kconv, Some (External ''not found''))),
      ad_Indexer = NewIndexer demo_adopt_indexer, ad_IndexName = ''owners'', ad_Labels = [(''managed'', ''yes'')],
      ad_NewPatch = Name, ad_OwnerAnnotationPrefix = ''own/'',
      ad_OwnerAnnotationKeyFunc = (\<lambda>nn. ''own/'' @ Name nn), ad_OwnerFieldManagerFunc = Name,
      ad_ApplyFunc = (\<lambda>_ a opts. act (\<lambda>l. ((nilObj demo_kconv, None), l @ [Applied a opts]))),
      ad_ExistsFunc = None, ad_Next = (\<lambda>_. emit NextRan)\<rparr>"

definition demo_adoptable :: "string adoptable" where
  "demo_adoptable = \<lparr>WithAnnotations = (\<lambda>a _. a), WithLabels = (\<lambda>a _. a)\<rparr>"

definition demo_adopt_ctx :: "demo_log queue_iface goctx" where
  "demo_adopt_ctx = Key_WithValue demo_controls_type NewQueueOperationsCtx Background demo_controls"

lemma demo_adopt_recording:
  "recording (\<lambda>_. None) (\<lambda>ctx. Key_Value demo_controls_type NewQueueOperationsCtx ctx = Some demo_controls)
     demo_controls_type demo_adopt"
  by (simp add: recording_def demo_adopt_def OpsCtx_RequeueAPIErr_def Key_MustValue_def)
    (simp add: demo_controls_def)

theorem adoption_plays_its_plan_witness:
  "run (AdoptionHandler_Handle (\<lambda>e. e \<noteq> None) demo_kconv demo_controls_type demo_adoptable rev demo_adopt demo_adopt_ctx) [] =
     (Normal (), [Applied ''secret'' \<lparr>Force = True, FieldManager = ''a''\<rparr>, NextRan])"
proof -
  have "Key_Value demo_controls_type NewQueueOperationsCtx demo_adopt_ctx = Some demo_controls"
    by (simp add: demo_adopt_ctx_def Key_Value_def Key_WithValue_def type_assert_def demo_controls_type_def)
  moreover have "run (Indexer_ByIndex demo_kconv (ad_Indexer demo_adopt) (ad_IndexName demo_adopt) v) l =
      (Normal ([demo_adopted], None), l)" for v l
    by (simp add: Indexer_ByIndex_def demo_adopt_def NewIndexer_def demo_adopt_indexer_def
        IndexerListToTypedList_def demo_kconv_def)
  ultimately show ?thesis
    using adoption_plays_its_plan [OF demo_adopt_recording, of demo_adopt_ctx rev
      "\<lparr>Namespace = [], Name = []\<rparr>" "\<lparr>Namespace = ''ns'', Name = ''a''\<rparr>" "[]" "nilObj demo_kconv"
      "Some (External ''not found'')" "\<lambda>e. e \<noteq> None" demo_kconv "[demo_adopted]" demo_adoptable]
    by (simp add: demo_adopt_def adoption_plan_def release_plan_def owned_by_def other_owner_def Owned_def
        annotations_of_def demo_adopted_def demo_kobject_def gomap_ok_def demo_adoptable_def obj_nn_def HasPrefix_def)
qed

theorem adoption_early_exits_witness:
  "run (AdoptionHandler_Handle (\<lambda>_. False) demo_kconv demo_controls_type demo_adoptable rev demo_adopt demo_adopt_ctx) [] =
     run (OpsCtx_RequeueErr demo_controls_type NewQueueOperationsCtx demo_adopt_ctx (Some (External ''not found''))) []"
  using adoption_early_exits [of demo_adopt demo_adopt_ctx "[]" "\<lparr>Namespace = [], Name = []\<rparr>"
    "\<lparr>Namespace = ''ns'', Name = ''a''\<rparr>" "nilObj demo_kconv" "External ''not found''" "[]"
    "\<lambda>_. False" demo_kconv demo_controls_type demo_adoptable rev]
  by (simp add: demo_adopt_def)

theorem owner_keys_find_marked_owners_witness:
  "\<exists>keys. (OwnerKeysFromMeta (\<lambda>_. Inr demo_adopted) rev ''own/'' (TypedObj ()) :: (error + string list, unit) proc) =
       Return (Inr keys) \<and> ''ns/a'' \<in> set keys"
  using owner_keys_find_marked_owners [of rev "TypedObj ()" "\<lambda>_. Inr demo_adopted" demo_adopted
    "\<lparr>Namespace = ''ns'', Name = ''a''\<rparr>" "''own/''"]
  by (simp add: demo_adopted_def demo_kobject_def annotations_of_def nn_String_def)

end
