(* ===== verification/Conditions.thy ===== *)
theory Conditions
  imports Prelude
begin

text \<open>
  The package \<open>conditions\<close> (conditions/conditions.go): the mix-in that gives a resource the standard
  accessors of its status conditions.

  The functions of \<open>k8s.io/apimachinery/pkg/api/meta\<close> that search and change a list of conditions
  are the parameter \<open>meta_lib\<close>; \<open>meta_ok\<close> is their documented behaviour. A resource is its labels and
  its status; the status is a pointer (\<open>None\<close> is nil) to a list of conditions. A method called
  through a nil status pointer panics.
\<close>

section \<open>Data\<close>

record condition =
  Type :: string
  Status :: string
  ObservedGeneration :: int
  LastTransitionTime :: int
  Reason :: string
  Message :: string

record meta_lib =
  meta_FindStatusCondition :: "condition list \<Rightarrow> string \<Rightarrow> condition option"
  meta_SetStatusCondition :: "condition list \<Rightarrow> condition \<Rightarrow> condition list"
  meta_RemoveStatusCondition :: "condition list \<Rightarrow> string \<Rightarrow> condition list"
  meta_IsStatusConditionTrue :: "condition list \<Rightarrow> string \<Rightarrow> bool"
  meta_IsStatusConditionFalse :: "condition list \<Rightarrow> string \<Rightarrow> bool"
  meta_IsStatusConditionPresentAndEqual :: "condition list \<Rightarrow> string \<Rightarrow> string \<Rightarrow> bool"

record StatusConditions =
  sc_Conditions :: "condition list"

definition StatusConditions_GetStatusConditions :: "StatusConditions \<Rightarrow> condition list" where
  "StatusConditions_GetStatusConditions c = sc_Conditions c"

record resource =
  res_Labels :: "(string, string) gomap option"
  res_ManagedFields :: "string list"
  res_Status :: "StatusConditions option"

section \<open>StatusWithConditions\<close>

definition GetStatusConditions :: "resource \<Rightarrow> condition list option" where
  "GetStatusConditions s =
     (if res_Status s = None then None
      else map_option StatusConditions_GetStatusConditions (res_Status s))"

definition FindStatusCondition :: "meta_lib \<Rightarrow> resource \<Rightarrow> string \<Rightarrow> condition option" where
  "FindStatusCondition M s conditionType =
     (case GetStatusConditions s of
        None \<Rightarrow> None
      | Some cs \<Rightarrow> meta_FindStatusCondition M cs conditionType)"

text \<open>The two mutators do not test for a nil status; \<open>None\<close> is the panic.\<close>

definition SetStatusCondition :: "meta_lib \<Rightarrow> resource \<Rightarrow> condition \<Rightarrow> resource option" where
  "SetStatusCondition M s c =
     map_option (\<lambda>st. s\<lparr>res_Status := Some (st\<lparr>sc_Conditions :=
        meta_SetStatusCondition M (StatusConditions_GetStatusConditions st) c\<rparr>)\<rparr>) (res_Status s)"

definition RemoveStatusCondition :: "meta_lib \<Rightarrow> resource \<Rightarrow> string \<Rightarrow> resource option" where
  "RemoveStatusCondition M s conditionType =
     map_option (\<lambda>st. s\<lparr>res_Status := Some (st\<lparr>sc_Conditions :=
        meta_RemoveStatusCondition M (StatusConditions_GetStatusConditions st) conditionType\<rparr>)\<rparr>) (res_Status s)"

definition IsStatusConditionTrue :: "meta_lib \<Rightarrow> resource \<Rightarrow> string \<Rightarrow> bool" where
  "IsStatusConditionTrue M s conditionType =
     (case GetStatusConditions s of
        None \<Rightarrow> False
      | Some cs \<Rightarrow> meta_IsStatusConditionTrue M cs conditionType)"

definition IsStatusConditionFalse :: "meta_lib \<Rightarrow> resource \<Rightarrow> string \<Rightarrow> bool" where
  "IsStatusConditionFalse M s conditionType =
     (case GetStatusConditions s of
        None \<Rightarrow> False
      | Some cs \<Rightarrow> meta_IsStatusConditionFalse M cs conditionType)"

definition IsStatusConditionPresentAndEqual :: "meta_lib \<Rightarrow> resource \<Rightarrow> string \<Rightarrow> string \<Rightarrow> bool" where
  "IsStatusConditionPresentAndEqual M s conditionType status =
     (case GetStatusConditions s of
        None \<Rightarrow> False
      | Some cs \<Rightarrow> meta_IsStatusConditionPresentAndEqual M cs conditionType status)"

definition IsStatusConditionChanged :: "meta_lib \<Rightarrow> resource \<Rightarrow> string \<Rightarrow> condition option \<Rightarrow> bool" where
  "IsStatusConditionChanged M s conditionType condition =
     (case (FindStatusCondition M s conditionType, condition) of
        (None, None) \<Rightarrow> False
      | (None, Some _) \<Rightarrow> True
      | (Some _, None) \<Rightarrow> True
      | (Some ex, Some c) \<Rightarrow> Message ex \<noteq> Message c \<or> Reason ex \<noteq> Reason c)"

section \<open>The documented behaviour of the library\<close>

text \<open>A condition that was set is found, with the fields it was given but for the transition time;
  a removed one is not found; the other conditions stay.\<close>

definition meta_ok :: "meta_lib \<Rightarrow> bool" where
  "meta_ok M \<longleftrightarrow>
     (\<forall>cs c. \<exists>c'. meta_FindStatusCondition M (meta_SetStatusCondition M cs c) (Type c) = Some c' \<and>
        Status c' = Status c \<and> Reason c' = Reason c \<and> Message c' = Message c) \<and>
     (\<forall>cs c t. t \<noteq> Type c \<longrightarrow>
        meta_FindStatusCondition M (meta_SetStatusCondition M cs c) t = meta_FindStatusCondition M cs t) \<and>
     (\<forall>cs t. meta_FindStatusCondition M (meta_RemoveStatusCondition M cs t) t = None) \<and>
     (\<forall>cs t t'. t' \<noteq> t \<longrightarrow>
        meta_FindStatusCondition M (meta_RemoveStatusCondition M cs t) t' = meta_FindStatusCondition M cs t')"

section \<open>Lemmas\<close>

lemmas conditions_defs = GetStatusConditions_def FindStatusCondition_def SetStatusCondition_def
  RemoveStatusCondition_def IsStatusConditionTrue_def IsStatusConditionFalse_def
  IsStatusConditionPresentAndEqual_def IsStatusConditionChanged_def StatusConditions_GetStatusConditions_def

lemma Find_Set:
  assumes "meta_ok M" and "SetStatusCondition M s c = Some s'"
  shows "\<exists>c'. FindStatusCondition M s' (Type c) = Some c' \<and>
    Status c' = Status c \<and> Reason c' = Reason c \<and> Message c' = Message c"
  using assms
  by (auto simp: SetStatusCondition_def FindStatusCondition_def GetStatusConditions_def
      StatusConditions_GetStatusConditions_def meta_ok_def)

lemma Find_Remove:
  assumes "meta_ok M" and "RemoveStatusCondition M s t = Some s'"
  shows "FindStatusCondition M s' t = None"
  using assms
  by (auto simp: RemoveStatusCondition_def FindStatusCondition_def GetStatusConditions_def
      StatusConditions_GetStatusConditions_def meta_ok_def)

lemma Set_frame:
  "SetStatusCondition M s c = Some s' \<Longrightarrow> res_Labels s' = res_Labels s"
  by (auto simp: SetStatusCondition_def)

lemma Remove_frame:
  "RemoveStatusCondition M s t = Some s' \<Longrightarrow> res_Labels s' = res_Labels s"
  by (auto simp: RemoveStatusCondition_def)

lemma Find_Some_status:
  "FindStatusCondition M s t = Some c \<Longrightarrow> res_Status s \<noteq> None"
  by (auto simp: FindStatusCondition_def GetStatusConditions_def split: if_splits)

lemma Remove_defined:
  "res_Status s \<noteq> None \<Longrightarrow> \<exists>s'. RemoveStatusCondition M s t = Some s'"
  by (auto simp: RemoveStatusCondition_def)

lemma Set_defined:
  "res_Status s \<noteq> None \<Longrightarrow> \<exists>s'. SetStatusCondition M s c = Some s'"
  by (auto simp: SetStatusCondition_def)

section \<open>Properties\<close>


section \<open>Witnesses\<close>

definition demo_meta :: meta_lib where
  "demo_meta =
     \<lparr>meta_FindStatusCondition = (\<lambda>cs t. find (\<lambda>c. Type c = t) cs),
      meta_SetStatusCondition = (\<lambda>cs c. c # filter (\<lambda>c'. Type c' \<noteq> Type c) cs),
      meta_RemoveStatusCondition = (\<lambda>cs t. filter (\<lambda>c. Type c \<noteq> t) cs),
      meta_IsStatusConditionTrue = (\<lambda>cs t. list_ex (\<lambda>c. Type c = t \<and> Status c = ''True'') cs),
      meta_IsStatusConditionFalse = (\<lambda>cs t. list_ex (\<lambda>c. Type c = t \<and> Status c = ''False'') cs),
      meta_IsStatusConditionPresentAndEqual = (\<lambda>cs t st. list_ex (\<lambda>c. Type c = t \<and> Status c = st) cs)\<rparr>"

lemma find_filter_other: "t' \<noteq> t \<Longrightarrow> find (\<lambda>c. Type c = t') (filter (\<lambda>c. Type c \<noteq> t) cs) = find (\<lambda>c. Type c = t') cs"
  by (induction cs) auto

lemma demo_meta_ok: "meta_ok demo_meta"
  by (auto simp: meta_ok_def demo_meta_def find_None_iff find_filter_other)

definition demo_condition :: condition where
  "demo_condition = \<lparr>Type = ''Ready'', Status = ''True'', ObservedGeneration = 0, LastTransitionTime = 0,
     Reason = ''r'', Message = ''m''\<rparr>"


end
