(* ===== verification/Pause.thy ===== *)
theory Pause
  imports Queue Conditions
begin

text \<open>
  The package \<open>pause\<close> (pause/pause.go): the handler that stops the processing of a resource while it
  carries a label, and the handler with which a controller pauses a resource itself.

  The resource in the context is a pointer, and the handlers change it in place: the world holds
  the heap of resources beside the rest \<open>'x\<close>. The patches are callbacks, arbitrary code on the
  world. \<open>time.Now\<close> is the argument \<open>now\<close>, \<open>utilruntime.HandleError\<close> the argument \<open>HE\<close>.
\<close>

section \<open>Conditions and labels\<close>

definition ConditionTypePaused :: string where
  "ConditionTypePaused = ''Paused''"

definition NewPausedCondition :: "int \<Rightarrow> string \<Rightarrow> condition" where
  "NewPausedCondition time pausedLabelKey =
     \<lparr>Type = ConditionTypePaused, Status = ''True'', ObservedGeneration = 0, LastTransitionTime = time,
      Reason = ''PausedByLabel'',
      Message = ''Controller pause requested via label: '' @ pausedLabelKey\<rparr>"

definition NewSelfPausedCondition :: "int \<Rightarrow> string \<Rightarrow> condition" where
  "NewSelfPausedCondition time pausedLabelKey =
     \<lparr>Type = ConditionTypePaused, Status = ''True'', ObservedGeneration = 0, LastTransitionTime = time,
      Reason = ''PausedByController'',
      Message = ''Reconiciliation has been paused by the controller; see other conditions for more information. When ready, unpause by removing the '' @ pausedLabelKey @ '' label''\<rparr>"

definition IsPaused :: "resource \<Rightarrow> string \<Rightarrow> bool" where
  "IsPaused object pausedLabelKey =
     (case res_Labels object of
        None \<Rightarrow> False
      | Some objLabels \<Rightarrow> map_of objLabels pausedLabelKey \<noteq> None)"

section \<open>Resources in the heap\<close>

record 'x pause_world =
  pw_heap :: "addr \<Rightarrow> resource"
  pw_rest :: 'x

type_synonym ('x, 'a) pp = "('a, 'x pause_world) proc"

definition load :: "addr \<Rightarrow> ('x, resource) pp" where
  "load a = gets (\<lambda>w. pw_heap w a)"

definition change :: "addr \<Rightarrow> (resource \<Rightarrow> resource option) \<Rightarrow> ('x, unit) pp" where
  "change a f =
     bind (load a) (\<lambda>r.
       case f r of
         None \<Rightarrow> Panic ''invalid memory address or nil pointer dereference''
       | Some r' \<Rightarrow> modify (\<lambda>w. w\<lparr>pw_heap := (pw_heap w)(a := r')\<rparr>))"

section \<open>Handler\<close>

record ('d, 'x) PauseHandler =
  ph_ctrls :: ctx_key
  ph_PausedLabelKey :: string
  ph_Object :: "addr defaulting_key"
  ph_PatchStatus :: "'d goctx \<Rightarrow> addr \<Rightarrow> ('x, error option) pp"
  ph_Next :: "'d goctx \<Rightarrow> ('x, unit) pp"

definition NewPauseContextHandler ::
    "ctx_key \<Rightarrow> string \<Rightarrow> addr defaulting_key \<Rightarrow> ('d goctx \<Rightarrow> addr \<Rightarrow> ('x, error option) pp) \<Rightarrow>
     ('d goctx \<Rightarrow> ('x, unit) pp) \<Rightarrow> ('d, 'x) PauseHandler" where
  "NewPauseContextHandler ctrls pausedLabelKey object patchStatus nxt =
     \<lparr>ph_ctrls = ctrls, ph_PausedLabelKey = pausedLabelKey, ph_Object = object,
      ph_PatchStatus = patchStatus, ph_Next = nxt\<rparr>"

definition Handler_pause ::
    "meta_lib \<Rightarrow> ('x, int) pp \<Rightarrow> ('x pause_world queue_iface, 'd) gotype \<Rightarrow> ('d, 'x) PauseHandler \<Rightarrow>
     'd goctx \<Rightarrow> addr \<Rightarrow> ('x, unit) pp" where
  "Handler_pause M now T p ctx object =
     bind (load object) (\<lambda>r.
       if FindStatusCondition M r ConditionTypePaused \<noteq> None
       then bind (Key_MustValue T (ph_ctrls p) ctx) qDone
       else
         bind now (\<lambda>time.
         andthen (change object (\<lambda>r. SetStatusCondition M r (NewPausedCondition time (ph_PausedLabelKey p))))
           (andthen (change object (\<lambda>r. Some (r\<lparr>res_ManagedFields := []\<rparr>)))
             (bind (ph_PatchStatus p ctx object) (\<lambda>err.
               if err \<noteq> None
               then bind (Key_MustValue T (ph_ctrls p) ctx) (\<lambda>q. qRequeueAPIErr q err)
               else bind (Key_MustValue T (ph_ctrls p) ctx) qDone)))))"

definition PauseHandler_Handle ::
    "meta_lib \<Rightarrow> ('x, int) pp \<Rightarrow> (addr, 'd) gotype \<Rightarrow> ('x pause_world queue_iface, 'd) gotype \<Rightarrow>
     ('d, 'x) PauseHandler \<Rightarrow> 'd goctx \<Rightarrow> ('x, unit) pp" where
  "PauseHandler_Handle M now TO T p ctx =
     bind (Defaulting_MustValue TO (ph_Object p) ctx) (\<lambda>obj.
     bind (load obj) (\<lambda>r.
       if IsPaused r (ph_PausedLabelKey p) then Handler_pause M now T p ctx obj
       else if FindStatusCondition M r ConditionTypePaused = None then ph_Next p ctx
       else
         andthen (change obj (\<lambda>r. RemoveStatusCondition M r ConditionTypePaused))
           (andthen (change obj (\<lambda>r. Some (r\<lparr>res_ManagedFields := []\<rparr>)))
             (bind (ph_PatchStatus p ctx obj) (\<lambda>err.
               if err \<noteq> None
               then bind (Key_MustValue T (ph_ctrls p) ctx) (\<lambda>q. qRequeueAPIErr q err)
               else ph_Next p ctx)))))"

section \<open>SelfPauseHandler\<close>

record ('d, 'x) SelfPauseHandler =
  sp_ctrls :: ctx_key
  sp_CtxKey :: "addr defaulting_key"
  sp_PausedLabelKey :: string
  sp_OwnerUID :: string
  sp_Patch :: "'d goctx \<Rightarrow> addr \<Rightarrow> ('x, error option) pp"
  sp_PatchStatus :: "'d goctx \<Rightarrow> addr \<Rightarrow> ('x, error option) pp"

text \<open>The constructor leaves \<open>OwnerUID\<close> at its zero value.\<close>

definition NewSelfPauseHandler ::
    "ctx_key \<Rightarrow> string \<Rightarrow> addr defaulting_key \<Rightarrow> ('d goctx \<Rightarrow> addr \<Rightarrow> ('x, error option) pp) \<Rightarrow>
     ('d goctx \<Rightarrow> addr \<Rightarrow> ('x, error option) pp) \<Rightarrow> ('d, 'x) SelfPauseHandler" where
  "NewSelfPauseHandler ctrls pausedLabelKey contextKey patch patchStatus =
     \<lparr>sp_ctrls = ctrls, sp_CtxKey = contextKey, sp_PausedLabelKey = pausedLabelKey, sp_OwnerUID = [],
      sp_Patch = patch, sp_PatchStatus = patchStatus\<rparr>"

definition set_label :: "string \<Rightarrow> string \<Rightarrow> resource \<Rightarrow> resource" where
  "set_label key v r =
     (let labels = (case res_Labels r of None \<Rightarrow> [] | Some m \<Rightarrow> m) in
      r\<lparr>res_Labels := Some (AList.update key v labels)\<rparr>)"

definition SelfPauseHandler_Handle ::
    "meta_lib \<Rightarrow> ('x, int) pp \<Rightarrow> (error option \<Rightarrow> ('x, unit) pp) \<Rightarrow> (addr, 'd) gotype \<Rightarrow>
     ('x pause_world queue_iface, 'd) gotype \<Rightarrow> ('d, 'x) SelfPauseHandler \<Rightarrow> 'd goctx \<Rightarrow> ('x, unit) pp" where
  "SelfPauseHandler_Handle M now HE TO T p ctx =
     bind (Defaulting_MustValue TO (sp_CtxKey p) ctx) (\<lambda>object.
     bind now (\<lambda>time.
     andthen (change object (\<lambda>r. SetStatusCondition M r (NewSelfPausedCondition time (sp_PausedLabelKey p))))
       (bind (sp_PatchStatus p ctx object) (\<lambda>err.
         if err \<noteq> None
         then bind (Key_MustValue T (sp_ctrls p) ctx) (\<lambda>q. qRequeueErr q err)
         else
           andthen (change object (\<lambda>r. Some (set_label (sp_PausedLabelKey p) (sp_OwnerUID p) r)))
             (bind (sp_Patch p ctx object) (\<lambda>err.
               if err \<noteq> None
               then andthen (HE err) (bind (Key_MustValue T (sp_ctrls p) ctx) (\<lambda>q. qRequeueAPIErr q err))
               else bind (Key_MustValue T (sp_ctrls p) ctx) qDone))))))"

section \<open>Lemmas\<close>

lemma run_load [simp]: "run (load a) w = (Normal (pw_heap w a), w)"
  by (simp add: load_def)

lemma run_change [simp]:
  "run (change a f) w =
     (case f (pw_heap w a) of
        None \<Rightarrow> (Panicked ''invalid memory address or nil pointer dereference'', w)
      | Some r \<Rightarrow> (Normal (), w\<lparr>pw_heap := (pw_heap w)(a := r)\<rparr>))"
  by (simp add: change_def split: option.split)

lemma IsPaused_set_label: "IsPaused (set_label key v r) key"
  by (simp add: IsPaused_def set_label_def Let_def update_conv')

lemma Type_paused [simp]:
  "Type (NewPausedCondition time key) = ConditionTypePaused"
  "Type (NewSelfPausedCondition time key) = ConditionTypePaused"
  by (simp_all add: NewPausedCondition_def NewSelfPausedCondition_def)

lemma Find_managed [simp]:
  "FindStatusCondition M (r\<lparr>res_ManagedFields := m\<rparr>) t = FindStatusCondition M r t"
  by (simp add: FindStatusCondition_def GetStatusConditions_def)

lemma Find_set_label [simp]:
  "FindStatusCondition M (set_label k v r) t = FindStatusCondition M r t"
  by (simp add: FindStatusCondition_def GetStatusConditions_def set_label_def Let_def)

lemma IsPaused_managed [simp]: "IsPaused (r\<lparr>res_ManagedFields := m\<rparr>) k = IsPaused r k"
  by (simp add: IsPaused_def)

lemma IsPaused_labels: "res_Labels r = res_Labels r' \<Longrightarrow> IsPaused r k = IsPaused r' k"
  by (simp add: IsPaused_def)

text \<open>What \<open>pause\<close> writes: the resource with the condition and without managed fields.\<close>

lemma paused_resource:
  assumes "meta_ok M" and "res_Status r \<noteq> None"
  shows "\<exists>r' c. SetStatusCondition M r (NewPausedCondition time key) = Some r' \<and> res_Labels r' = res_Labels r \<and>
    FindStatusCondition M r' ConditionTypePaused = Some c \<and> Reason c = ''PausedByLabel''"
proof -
  obtain r' where r': "SetStatusCondition M r (NewPausedCondition time key) = Some r'"
    using Set_defined [OF assms(2)] by blast
  with Find_Set [OF assms(1) r'] Set_frame [OF r'] show ?thesis
    by (auto simp: NewPausedCondition_def)
qed

lemma unpaused_resource:
  assumes "meta_ok M" and "res_Status r \<noteq> None"
  shows "\<exists>r'. RemoveStatusCondition M r ConditionTypePaused = Some r' \<and> res_Labels r' = res_Labels r \<and>
    FindStatusCondition M r' ConditionTypePaused = None"
  using Remove_defined [OF assms(2)] Find_Remove [OF assms(1)] Remove_frame by metis

lemma Defaulting_MustValue_Return:
  "Defaulting_Value T k ctx = v \<Longrightarrow> v \<noteq> zero_val T \<Longrightarrow> Defaulting_MustValue T k ctx = Return v"
  by (auto simp: Defaulting_MustValue_def Defaulting_Value_def Let_def)

lemma Key_MustValue_Return: "Key_Value T k ctx = Some v \<Longrightarrow> Key_MustValue T k ctx = Return v"
  by (simp add: Key_MustValue_def)

text \<open>The four branches of the handler.\<close>

lemma run_pause_branches:
  assumes now: "\<And>w. run now w = (Normal time, w)"
    and obj: "Defaulting_Value TO (ph_Object p) ctx = a" "a \<noteq> zero_val TO"
    and q: "Key_Value T (ph_ctrls p) ctx = Some q"
  shows "IsPaused (pw_heap w a) (ph_PausedLabelKey p) \<Longrightarrow>
      FindStatusCondition M (pw_heap w a) ConditionTypePaused \<noteq> None \<Longrightarrow>
      run (PauseHandler_Handle M now TO T p ctx) w = run (qDone q) w"
    and "IsPaused (pw_heap w a) (ph_PausedLabelKey p) \<Longrightarrow>
      FindStatusCondition M (pw_heap w a) ConditionTypePaused = None \<Longrightarrow>
      SetStatusCondition M (pw_heap w a) (NewPausedCondition time (ph_PausedLabelKey p)) = Some r \<Longrightarrow>
      run (PauseHandler_Handle M now TO T p ctx) w =
        run (bind (ph_PatchStatus p ctx a) (\<lambda>err. if err \<noteq> None then qRequeueAPIErr q err else qDone q))
          (w\<lparr>pw_heap := (pw_heap w)(a := r\<lparr>res_ManagedFields := []\<rparr>)\<rparr>)"
    and "\<not> IsPaused (pw_heap w a) (ph_PausedLabelKey p) \<Longrightarrow>
      FindStatusCondition M (pw_heap w a) ConditionTypePaused = None \<Longrightarrow>
      run (PauseHandler_Handle M now TO T p ctx) w = run (ph_Next p ctx) w"
    and "\<not> IsPaused (pw_heap w a) (ph_PausedLabelKey p) \<Longrightarrow>
      FindStatusCondition M (pw_heap w a) ConditionTypePaused \<noteq> None \<Longrightarrow>
      RemoveStatusCondition M (pw_heap w a) ConditionTypePaused = Some r \<Longrightarrow>
      run (PauseHandler_Handle M now TO T p ctx) w =
        run (bind (ph_PatchStatus p ctx a) (\<lambda>err. if err \<noteq> None then qRequeueAPIErr q err else ph_Next p ctx))
          (w\<lparr>pw_heap := (pw_heap w)(a := r\<lparr>res_ManagedFields := []\<rparr>)\<rparr>)"
  unfolding PauseHandler_Handle_def Handler_pause_def Defaulting_MustValue_Return [OF obj]
    Key_MustValue_Return [OF q] bind.simps
  by (simp_all add: now del: not_None_eq)

text \<open>The four branches of the pause handler.\<close>

lemma pause_gate:
  assumes "meta_ok M" and "\<And>w. run now w = (Normal time, w)"
    and "Defaulting_Value TO (ph_Object p) ctx = a" "a \<noteq> zero_val TO"
    and "Key_Value T (ph_ctrls p) ctx = Some q"
    and "res_Status (pw_heap w a) \<noteq> None"
  shows "if IsPaused (pw_heap w a) (ph_PausedLabelKey p)
     then if FindStatusCondition M (pw_heap w a) ConditionTypePaused \<noteq> None
       then run (PauseHandler_Handle M now TO T p ctx) w = run (qDone q) w
       else \<exists>r c. IsPaused r (ph_PausedLabelKey p) \<and>
         FindStatusCondition M r ConditionTypePaused = Some c \<and> Reason c = ''PausedByLabel'' \<and>
         run (PauseHandler_Handle M now TO T p ctx) w =
         run (bind (ph_PatchStatus p ctx a) (\<lambda>err. if err \<noteq> None then qRequeueAPIErr q err else qDone q))
           (w\<lparr>pw_heap := (pw_heap w)(a := r)\<rparr>)
     else if FindStatusCondition M (pw_heap w a) ConditionTypePaused = None
       then run (PauseHandler_Handle M now TO T p ctx) w = run (ph_Next p ctx) w
       else \<exists>r. \<not> IsPaused r (ph_PausedLabelKey p) \<and> FindStatusCondition M r ConditionTypePaused = None \<and>
         run (PauseHandler_Handle M now TO T p ctx) w =
         run (bind (ph_PatchStatus p ctx a) (\<lambda>err. if err \<noteq> None then qRequeueAPIErr q err else ph_Next p ctx))
           (w\<lparr>pw_heap := (pw_heap w)(a := r)\<rparr>)"
proof -
  obtain r c where r: "SetStatusCondition M (pw_heap w a) (NewPausedCondition time (ph_PausedLabelKey p)) = Some r"
    "res_Labels r = res_Labels (pw_heap w a)" "FindStatusCondition M r ConditionTypePaused = Some c"
    "Reason c = ''PausedByLabel''"
    using paused_resource [OF assms(1,6)] by blast
  obtain r2 where r2: "RemoveStatusCondition M (pw_heap w a) ConditionTypePaused = Some r2"
    "res_Labels r2 = res_Labels (pw_heap w a)" "FindStatusCondition M r2 ConditionTypePaused = None"
    using unpaused_resource [OF assms(1,6)] by blast
  have 1: "IsPaused (r\<lparr>res_ManagedFields := []\<rparr>) k = IsPaused (pw_heap w a) k" for k
    using IsPaused_labels [OF r(2)] by simp
  have 2: "IsPaused (r2\<lparr>res_ManagedFields := []\<rparr>) k = IsPaused (pw_heap w a) k" for k
    using IsPaused_labels [OF r2(2)] by simp
  note branches = run_pause_branches [of now time TO p ctx a T q, OF assms(2,3,4,5)]
  show ?thesis
  proof (cases "IsPaused (pw_heap w a) (ph_PausedLabelKey p)")
    case paused: True
    show ?thesis
    proof (cases "FindStatusCondition M (pw_heap w a) ConditionTypePaused = None")
      case True
      show ?thesis
        unfolding if_P [OF paused] True
        by (rule if_not_P [THEN iffD2], simp, rule exI [of _ "r\<lparr>res_ManagedFields := []\<rparr>"], rule exI [of _ c])
          (use branches(2) [OF paused True r(1)] paused r 1 in simp)
    next
      case False
      with branches(1) [OF paused False] paused show ?thesis by simp
    qed
  next
    case free: False
    show ?thesis
    proof (cases "FindStatusCondition M (pw_heap w a) ConditionTypePaused = None")
      case True
      with branches(3) [OF free True] free show ?thesis by simp
    next
      case False
      show ?thesis
        unfolding if_not_P [OF free] if_not_P [OF False]
        by (rule exI [of _ "r2\<lparr>res_ManagedFields := []\<rparr>"])
          (use branches(4) [OF free False r2(1)] free r2 2 in simp)
    qed
  qed
qed

section \<open>Properties\<close>

text \<open>the pause handler as a gate. A labelled resource never reaches the next handler: one that
  already has the condition is done, one without it gets the condition with reason
  \<open>PausedByLabel\<close>, is patched, and is done or requeued with the patch's error. An unlabelled
  resource without the condition goes straight on; one with the condition loses it, is patched, and
  goes on only when the patch succeeded.\<close>

theorem pause_handler_gates_next:
  assumes "meta_ok M" and "\<And>w. run now w = (Normal time, w)"
    and "Defaulting_Value TO (ph_Object p) ctx = a" "a \<noteq> zero_val TO"
    and "Key_Value T (ph_ctrls p) ctx = Some q"
    and "res_Status (pw_heap w a) \<noteq> None"
  shows "if IsPaused (pw_heap w a) (ph_PausedLabelKey p)
     then if FindStatusCondition M (pw_heap w a) ConditionTypePaused \<noteq> None
       then run (PauseHandler_Handle M now TO T p ctx) w = run (qDone q) w
       else \<exists>r c. IsPaused r (ph_PausedLabelKey p) \<and>
         FindStatusCondition M r ConditionTypePaused = Some c \<and> Reason c = ''PausedByLabel'' \<and>
         run (PauseHandler_Handle M now TO T p ctx) w =
         run (bind (ph_PatchStatus p ctx a) (\<lambda>err. if err \<noteq> None then qRequeueAPIErr q err else qDone q))
           (w\<lparr>pw_heap := (pw_heap w)(a := r)\<rparr>)
     else if FindStatusCondition M (pw_heap w a) ConditionTypePaused = None
       then run (PauseHandler_Handle M now TO T p ctx) w = run (ph_Next p ctx) w
       else \<exists>r. \<not> IsPaused r (ph_PausedLabelKey p) \<and> FindStatusCondition M r ConditionTypePaused = None \<and>
         run (PauseHandler_Handle M now TO T p ctx) w =
         run (bind (ph_PatchStatus p ctx a) (\<lambda>err. if err \<noteq> None then qRequeueAPIErr q err else ph_Next p ctx))
           (w\<lparr>pw_heap := (pw_heap w)(a := r)\<rparr>)"
  using assms by (rule pause_gate)

text \<open>the handler changes the resource in memory before it knows whether the patch succeeds. If
  the patch of a newly labelled resource fails, the key is requeued, and the next run on the same
  in-memory resource finds the condition, does not patch again, and reports the key done.\<close>

theorem failed_pause_patch_is_not_retried:
  assumes meta: "meta_ok M" and now: "\<And>w. run now w = (Normal time, w)"
    and obj: "Defaulting_Value TO (ph_Object p) ctx = a" "a \<noteq> zero_val TO"
    and q: "Key_Value T (ph_ctrls p) ctx = Some q"
    and st: "res_Status (pw_heap w a) \<noteq> None" and paused: "IsPaused (pw_heap w a) (ph_PausedLabelKey p)"
    and fresh: "FindStatusCondition M (pw_heap w a) ConditionTypePaused = None"
    and patch: "\<And>w. \<exists>w'. run (ph_PatchStatus p ctx a) w = (Normal (Some e), w') \<and> pw_heap w' = pw_heap w"
    and requeue: "\<And>w. \<exists>w'. run (qRequeueAPIErr q (Some e)) w = (Normal (), w') \<and> pw_heap w' = pw_heap w"
  shows "\<exists>w'. run (PauseHandler_Handle M now TO T p ctx) w = (Normal (), w') \<and>
     FindStatusCondition M (pw_heap w' a) ConditionTypePaused \<noteq> None \<and>
     run (PauseHandler_Handle M now TO T p ctx) w' = run (qDone q) w'"
proof -
  note branches = run_pause_branches [of now time TO p ctx a T q, OF now obj q]
  obtain r c where r: "SetStatusCondition M (pw_heap w a) (NewPausedCondition time (ph_PausedLabelKey p)) = Some r"
    "res_Labels r = res_Labels (pw_heap w a)" "FindStatusCondition M r ConditionTypePaused = Some c"
    using paused_resource [OF meta st] by blast
  let ?w1 = "w\<lparr>pw_heap := (pw_heap w)(a := r\<lparr>res_ManagedFields := []\<rparr>)\<rparr>"
  obtain w2 w3 where "run (ph_PatchStatus p ctx a) ?w1 = (Normal (Some e), w2)" "pw_heap w2 = pw_heap ?w1"
    "run (qRequeueAPIErr q (Some e)) w2 = (Normal (), w3)" "pw_heap w3 = pw_heap w2"
    using patch [of ?w1] requeue by blast
  then have 1: "run (PauseHandler_Handle M now TO T p ctx) w = (Normal (), w3)"
    and heap: "pw_heap w3 a = r\<lparr>res_ManagedFields := []\<rparr>"
    using branches(2) [OF paused fresh r(1)] by simp_all
  have "IsPaused (pw_heap w3 a) (ph_PausedLabelKey p)"
    using paused IsPaused_labels [OF r(2)] by (simp add: heap)
  moreover have "FindStatusCondition M (pw_heap w3 a) ConditionTypePaused \<noteq> None"
    using r(3) by (simp add: heap)
  ultimately show ?thesis using 1 branches(1) by blast
qed

text \<open>a controller that pauses a resource itself. When both patches succeed, the resource carries
  the label, with an empty value because the constructor never sets the owner's UID, and the
  condition with reason \<open>PausedByController\<close>; a pause handler with the same label key then reports
  the key done without patching it and without running its next handler.\<close>

theorem self_paused_resource_stays_paused:
  assumes meta: "meta_ok M" and now: "\<And>w. run now w = (Normal time, w)"
    and sp: "sp = NewSelfPauseHandler ctrls key object patch patchStatus"
    and obj: "Defaulting_Value TO object ctx = a" "a \<noteq> zero_val TO" and q: "Key_Value T ctrls ctx = Some q"
    and st: "res_Status (pw_heap w a) \<noteq> None"
    and ps: "\<And>w. \<exists>w'. run (patchStatus ctx a) w = (Normal None, w') \<and> pw_heap w' = pw_heap w"
    and pa: "\<And>w. \<exists>w'. run (patch ctx a) w = (Normal None, w') \<and> pw_heap w' = pw_heap w"
    and fin: "\<And>w. \<exists>w'. run (qDone q) w = (Normal (), w') \<and> pw_heap w' = pw_heap w"
  shows "\<exists>w' c m. run (SelfPauseHandler_Handle M now HE TO T sp ctx) w = (Normal (), w') \<and>
     res_Labels (pw_heap w' a) = Some m \<and> map_of m key = Some [] \<and>
     FindStatusCondition M (pw_heap w' a) ConditionTypePaused = Some c \<and> Reason c = ''PausedByController'' \<and>
     run (PauseHandler_Handle M now TO T (NewPauseContextHandler ctrls key object patchStatus nxt) ctx) w' = run (qDone q) w'"
proof -
  obtain r where r: "SetStatusCondition M (pw_heap w a) (NewSelfPausedCondition time key) = Some r"
    using Set_defined [OF st] by blast
  from Find_Set [OF meta r] obtain c where c: "FindStatusCondition M r ConditionTypePaused = Some c"
    "Reason c = ''PausedByController''" by (auto simp: NewSelfPausedCondition_def)
  let ?w1 = "w\<lparr>pw_heap := (pw_heap w)(a := r)\<rparr>"
  obtain w2 where w2: "run (patchStatus ctx a) ?w1 = (Normal None, w2)" "pw_heap w2 = pw_heap ?w1"
    using ps by blast
  let ?w3 = "w2\<lparr>pw_heap := (pw_heap w2)(a := set_label key [] r)\<rparr>"
  obtain w4 w5 where w4: "run (patch ctx a) ?w3 = (Normal None, w4)" "pw_heap w4 = pw_heap ?w3"
    "run (qDone q) w4 = (Normal (), w5)" "pw_heap w5 = pw_heap w4"
    using pa fin by metis
  have run1: "run (SelfPauseHandler_Handle M now HE TO T sp ctx) w = (Normal (), w5)"
    using w2 w4 by (simp add: SelfPauseHandler_Handle_def sp NewSelfPauseHandler_def now Defaulting_MustValue_Return [OF obj] Key_MustValue_Return [OF q] r)
  have heap: "pw_heap w5 a = set_label key [] r" using w4 by simp
  have "run (PauseHandler_Handle M now TO T (NewPauseContextHandler ctrls key object patchStatus nxt) ctx) w5 = run (qDone q) w5"
    using run_pause_branches(1) [of now time TO "NewPauseContextHandler ctrls key object patchStatus nxt" ctx a T q w5 M]
      now obj q c(1) by (simp add: NewPauseContextHandler_def heap IsPaused_set_label)
  moreover obtain m where "res_Labels (set_label key [] r) = Some m" "map_of m key = Some []"
    by (simp add: set_label_def Let_def update_conv')
  ultimately show ?thesis using run1 c by (auto simp: heap)
qed

section \<open>Witnesses\<close>

text \<open>A world whose rest counts the verdicts, one resource at address 7, and patches that answer as
  told.\<close>

datatype demo_dyn = DynObj addr | DynCtrls "nat pause_world queue_iface"

definition demo_obj_type :: "(addr, demo_dyn) gotype" where
  "demo_obj_type = \<lparr>tname = ''*Resource'', to_any = (\<lambda>a. Some (DynObj a)),
     of_any = (\<lambda>x. case x of DynObj a \<Rightarrow> Some a | _ \<Rightarrow> None), zero_val = 0\<rparr>"

definition demo_verdict :: "(nat, unit) pp" where
  "demo_verdict = modify (\<lambda>w. w\<lparr>pw_rest := Suc (pw_rest w)\<rparr>)"

definition demo_pause_ctrls :: "nat pause_world queue_iface" where
  "demo_pause_ctrls =
     \<lparr>qDone = demo_verdict, qRequeueAfter = (\<lambda>_. demo_verdict), qRequeue = demo_verdict,
      qRequeueErr = (\<lambda>_. demo_verdict), qRequeueAPIErr = (\<lambda>_. demo_verdict), qError = Return None\<rparr>"

definition demo_ctrls_type :: "(nat pause_world queue_iface, demo_dyn) gotype" where
  "demo_ctrls_type = \<lparr>tname = ''queue.Interface'', to_any = (\<lambda>q. Some (DynCtrls q)),
     of_any = (\<lambda>x. case x of DynCtrls q \<Rightarrow> Some q | _ \<Rightarrow> None), zero_val = demo_pause_ctrls\<rparr>"

definition demo_obj_key :: "addr defaulting_key" where
  "demo_obj_key = \<lparr>dk_ptr = KeyPtr ''*typedctx.DefaultingKey[*Resource]'' (Some 1), dk_default = 7\<rparr>"

definition demo_pause_ctx :: "demo_dyn goctx" where
  "demo_pause_ctx = Key_WithValue demo_ctrls_type NewQueueOperationsCtx Background demo_pause_ctrls"

definition demo_pause :: "error option \<Rightarrow> (demo_dyn, nat) PauseHandler" where
  "demo_pause err = NewPauseContextHandler NewQueueOperationsCtx ''pause'' demo_obj_key
     (\<lambda>_ _. Return err) (\<lambda>_. Return ())"

definition demo_pause_world :: "(string, string) gomap option \<Rightarrow> nat pause_world" where
  "demo_pause_world labels =
     \<lparr>pw_heap = (\<lambda>_. \<lparr>res_Labels = labels, res_ManagedFields = [''m''], res_Status = Some \<lparr>sc_Conditions = []\<rparr>\<rparr>),
      pw_rest = 0\<rparr>"

lemma demo_pause_reads:
  "Defaulting_Value demo_obj_type demo_obj_key demo_pause_ctx = 7" "(7 :: addr) \<noteq> zero_val demo_obj_type"
  "Key_Value demo_ctrls_type NewQueueOperationsCtx demo_pause_ctx = Some demo_pause_ctrls"
  by (simp_all add: Defaulting_Value_def type_assert_def ctx_Value_def demo_pause_ctx_def demo_obj_key_def
      demo_obj_type_def Key_WithValue_def ctx_WithValue_def Background_def NewQueueOperationsCtx_def
      Key_Value_def demo_ctrls_type_def)

lemma demo_pause_fields:
  "ph_ctrls (demo_pause err) = NewQueueOperationsCtx" "ph_Object (demo_pause err) = demo_obj_key"
  "ph_PausedLabelKey (demo_pause err) = ''pause''" "ph_PatchStatus (demo_pause err) = (\<lambda>_ _. Return err)"
  "ph_Next (demo_pause err) = (\<lambda>_. Return ())"
  by (simp_all add: demo_pause_def NewPauseContextHandler_def)

lemma demo_verdicts:
  "run (qDone demo_pause_ctrls) w = (Normal (), w\<lparr>pw_rest := Suc (pw_rest w)\<rparr>)"
  "run (qRequeueAPIErr demo_pause_ctrls e) w = (Normal (), w\<lparr>pw_rest := Suc (pw_rest w)\<rparr>)"
  by (simp_all add: demo_pause_ctrls_def demo_verdict_def)

lemma demo_world_resource:
  "res_Status (pw_heap (demo_pause_world labels) a) \<noteq> None"
  "IsPaused (pw_heap (demo_pause_world (Some [(''pause'', v)])) a) ''pause''"
  "\<not> IsPaused (pw_heap (demo_pause_world None) a) ''pause''"
  "FindStatusCondition demo_meta (pw_heap (demo_pause_world labels) a) t = None"
  by (simp_all add: demo_pause_world_def IsPaused_def FindStatusCondition_def GetStatusConditions_def
      StatusConditions_GetStatusConditions_def demo_meta_def)

theorem pause_handler_gates_next_witness:
  "run (PauseHandler_Handle demo_meta (Return 0) demo_obj_type demo_ctrls_type (demo_pause None) demo_pause_ctx)
     (demo_pause_world None) = (Normal (), demo_pause_world None)"
  using pause_handler_gates_next [OF demo_meta_ok, of "Return 0" 0 demo_obj_type "demo_pause None" demo_pause_ctx 7
    demo_ctrls_type demo_pause_ctrls "demo_pause_world None"]
  by (simp add: demo_pause_reads demo_pause_fields demo_world_resource)

theorem failed_pause_patch_is_not_retried_witness:
  "\<exists>w'. run (PauseHandler_Handle demo_meta (Return 0) demo_obj_type demo_ctrls_type (demo_pause (Some (External ''x''))) demo_pause_ctx)
     (demo_pause_world (Some [(''pause'', [])])) = (Normal (), w') \<and>
   run (PauseHandler_Handle demo_meta (Return 0) demo_obj_type demo_ctrls_type (demo_pause (Some (External ''x''))) demo_pause_ctx) w' =
     run (qDone demo_pause_ctrls) w'"
  using failed_pause_patch_is_not_retried [OF demo_meta_ok, of "Return 0" 0 demo_obj_type "demo_pause (Some (External ''x''))"
    demo_pause_ctx 7 demo_ctrls_type demo_pause_ctrls "demo_pause_world (Some [(''pause'', [])])" "External ''x''"]
  by (auto simp: demo_pause_reads demo_pause_fields demo_world_resource demo_verdicts)

theorem self_paused_resource_stays_paused_witness:
  "\<exists>w'. run (SelfPauseHandler_Handle demo_meta (Return 0) (\<lambda>_. Return ()) demo_obj_type demo_ctrls_type
       (NewSelfPauseHandler NewQueueOperationsCtx ''pause'' demo_obj_key (\<lambda>_ _. Return None) (\<lambda>_ _. Return None)) demo_pause_ctx)
     (demo_pause_world None) = (Normal (), w') \<and> IsPaused (pw_heap w' 7) ''pause''"
  using self_paused_resource_stays_paused [OF demo_meta_ok, of "Return 0" 0
    "NewSelfPauseHandler NewQueueOperationsCtx ''pause'' demo_obj_key (\<lambda>_ _. Return None) (\<lambda>_ _. Return None)"
    NewQueueOperationsCtx "''pause''" demo_obj_key "\<lambda>_ _. Return None" "\<lambda>_ _. Return None" demo_obj_type
    demo_pause_ctx 7 demo_ctrls_type demo_pause_ctrls "demo_pause_world None" "\<lambda>_. Return ()" "\<lambda>_. Return ()"]
  by (auto simp: demo_pause_reads demo_world_resource demo_verdicts IsPaused_def)

end
