(* ===== verification/Healthz.thy ===== *)
theory Healthz
  imports Prelude
begin

text \<open>
  The package \<open>healthz\<close> (healthz/handler.go): a health endpoint whose checks can be added and removed
  while it serves. \<open>name\<close> is the method \<open>Name\<close> of a check and \<open>install\<close> the construction of a mux
  from a list of checks (\<open>mux.NewPathRecorderMux\<close> and \<open>healthz.InstallHandler\<close> of k8s.io/apiserver);
  \<open>maps.Values\<close> lists the values of a map in the order \<open>ord\<close>. The mutex makes every operation one
  step.
\<close>

record ('k, 'm) MutableHealthzHandler =
  hz_handler :: "'m option"
  hz_checks :: "(string, 'k) gomap option"

definition checks_of :: "('k, 'm) MutableHealthzHandler \<Rightarrow> (string, 'k) gomap" where
  "checks_of h = (case hz_checks h of None \<Rightarrow> [] | Some m \<Rightarrow> m)"

type_synonym 'k check_order = "(string, 'k) gomap \<Rightarrow> (string, 'k) gomap"

definition maps_Values :: "'k check_order \<Rightarrow> (string, 'k) gomap \<Rightarrow> 'k list" where
  "maps_Values ord m = map snd (ord m)"

definition AddHealthChecker ::
    "('k \<Rightarrow> string) \<Rightarrow> ('k list \<Rightarrow> 'm) \<Rightarrow> 'k check_order \<Rightarrow> 'k list \<Rightarrow>
     ('k, 'm) MutableHealthzHandler \<Rightarrow> ('k, 'm) MutableHealthzHandler" where
  "AddHealthChecker name install ord checks h =
     (let m = fold (\<lambda>c m. AList.update (name c) c m) checks (checks_of h) in
      h\<lparr>hz_checks := Some m, hz_handler := Some (install (maps_Values ord m))\<rparr>)"

definition RemoveHealthChecker ::
    "('k list \<Rightarrow> 'm) \<Rightarrow> 'k check_order \<Rightarrow> string list \<Rightarrow>
     ('k, 'm) MutableHealthzHandler \<Rightarrow> ('k, 'm) MutableHealthzHandler" where
  "RemoveHealthChecker install ord names h =
     (let m = map_option (fold AList.delete names) (hz_checks h);
          h = h\<lparr>hz_checks := m\<rparr> in
      h\<lparr>hz_handler := Some (install (maps_Values ord (checks_of h)))\<rparr>)"

definition NewMutableHealthzHandler ::
    "('k \<Rightarrow> string) \<Rightarrow> ('k list \<Rightarrow> 'm) \<Rightarrow> 'k check_order \<Rightarrow> 'k list \<Rightarrow> ('k, 'm) MutableHealthzHandler" where
  "NewMutableHealthzHandler name install ord checks =
     AddHealthChecker name install ord checks \<lparr>hz_handler = None, hz_checks = None\<rparr>"

text \<open>A nil handler panics.\<close>

definition ServeHTTP ::
    "('m \<Rightarrow> 'r \<Rightarrow> ('a, 'w) proc) \<Rightarrow> ('k, 'm) MutableHealthzHandler \<Rightarrow> 'r \<Rightarrow> ('a, 'w) proc" where
  "ServeHTTP serve h request =
     (case hz_handler h of
        None \<Rightarrow> Panic ''invalid memory address or nil pointer dereference''
      | Some m \<Rightarrow> serve m request)"

section \<open>Histories of changes\<close>

datatype 'k change = AddChecks "'k list" | RemoveChecks "string list"

fun apply_change ::
    "('k \<Rightarrow> string) \<Rightarrow> ('k list \<Rightarrow> 'm) \<Rightarrow> 'k check_order \<Rightarrow> 'k change \<Rightarrow>
     ('k, 'm) MutableHealthzHandler \<Rightarrow> ('k, 'm) MutableHealthzHandler" where
  "apply_change name install ord (AddChecks cs) h = AddHealthChecker name install ord cs h"
| "apply_change name install ord (RemoveChecks ns) h = RemoveHealthChecker install ord ns h"

text \<open>The specification: the check registered last under a name and not removed since.\<close>

fun current :: "('k \<Rightarrow> string) \<Rightarrow> 'k change \<Rightarrow> (string \<Rightarrow> 'k option) \<Rightarrow> string \<Rightarrow> 'k option" where
  "current name (AddChecks cs) m = m ++ map_of (map (\<lambda>c. (name c, c)) (rev cs))"
| "current name (RemoveChecks ns) m = m |` (- set ns)"

section \<open>Lemmas\<close>

lemma map_of_add_checks:
  "map_of (fold (\<lambda>c m. AList.update (name c) c m) cs m) = map_of m ++ map_of (map (\<lambda>c. (name c, c)) (rev cs))"
proof (induction cs arbitrary: m)
  case Nil
  show ?case by simp
next
  case (Cons c cs)
  show ?case by (rule ext) (simp add: Cons update_conv' map_add_def split: option.split)
qed

lemma map_of_remove_checks: "map_of (fold AList.delete ns m) = map_of m |` (- set ns)"
proof (induction ns arbitrary: m)
  case Nil
  show ?case by simp
next
  case (Cons n ns)
  show ?case by (rule ext) (simp add: Cons delete_conv' restrict_map_def)
qed

lemma gomap_ok_add_checks: "gomap_ok m \<Longrightarrow> gomap_ok (fold (\<lambda>c m. AList.update (name c) c m) cs m)"
  by (induction cs arbitrary: m) auto

lemma gomap_ok_remove_checks: "gomap_ok m \<Longrightarrow> gomap_ok (fold AList.delete ns m)"
  by (induction ns arbitrary: m) auto

text \<open>The installed handler is built from the stored checks, each once.\<close>

definition healthz_inv :: "('k list \<Rightarrow> 'm) \<Rightarrow> ('k, 'm) MutableHealthzHandler \<Rightarrow> bool" where
  "healthz_inv install h \<longleftrightarrow> gomap_ok (checks_of h) \<and>
     (\<exists>vs. hz_handler h = Some (install vs) \<and> mset vs = mset (map snd (checks_of h)))"

lemma mset_maps_Values: "range_order ord \<Longrightarrow> mset (maps_Values ord m) = mset (map snd m)"
  by (simp add: maps_Values_def range_order_def)

lemma maps_Values_Nil: "range_order ord \<Longrightarrow> maps_Values ord [] = []"
  by (simp add: maps_Values_def range_order_Nil)

lemma change_inv:
  assumes "range_order ord" and "gomap_ok (checks_of h)"
  shows "healthz_inv install (apply_change name install ord x h) \<and>
    map_of (checks_of (apply_change name install ord x h)) = current name x (map_of (checks_of h))"
proof (cases x)
  case (AddChecks cs)
  with assms show ?thesis
    by (auto simp: AddHealthChecker_def healthz_inv_def Let_def checks_of_def map_of_add_checks
        gomap_ok_add_checks mset_maps_Values intro!: exI)
next
  case (RemoveChecks ns)
  with assms show ?thesis
    by (cases "hz_checks h")
      (auto simp: RemoveHealthChecker_def healthz_inv_def Let_def checks_of_def map_of_remove_checks
        gomap_ok_remove_checks mset_maps_Values maps_Values_Nil intro!: exI)
qed

section \<open>Properties\<close>

text \<open>C34: after any history of added and removed checks, the endpoint serves exactly the current
  checks: for each name the one added last and not removed since, each once, and a request never
  finds a nil handler.\<close>

theorem healthz_serves_current_checks:
  assumes "range_order ord"
  shows "\<exists>vs. hz_handler (fold (apply_change name install ord) xs (NewMutableHealthzHandler name install ord [])) = Some (install vs) \<and>
     distinct (map fst (checks_of (fold (apply_change name install ord) xs (NewMutableHealthzHandler name install ord [])))) \<and>
     mset vs = mset (map snd (checks_of (fold (apply_change name install ord) xs (NewMutableHealthzHandler name install ord [])))) \<and>
     map_of (checks_of (fold (apply_change name install ord) xs (NewMutableHealthzHandler name install ord []))) =
       fold (current name) xs Map.empty"
proof -
  have "healthz_inv install (fold (apply_change name install ord) xs h) \<and>
      map_of (checks_of (fold (apply_change name install ord) xs h)) = fold (current name) xs (map_of (checks_of h))"
    if "healthz_inv install h" for h
    using that
  proof (induction xs arbitrary: h)
    case Nil
    then show ?case by simp
  next
    case (Cons x xs)
    then have "gomap_ok (checks_of h)" by (simp add: healthz_inv_def)
    with change_inv [OF assms this] Cons.IH [of "apply_change name install ord x h"] show ?case by auto
  qed
  moreover have "healthz_inv install (NewMutableHealthzHandler name install ord [])"
    using assms by (auto simp: NewMutableHealthzHandler_def AddHealthChecker_def healthz_inv_def checks_of_def
        maps_Values_def range_order_Nil intro!: exI)
  moreover have "map_of (checks_of (NewMutableHealthzHandler name install ord [])) = Map.empty"
    by (simp add: NewMutableHealthzHandler_def AddHealthChecker_def checks_of_def)
  ultimately show ?thesis by (auto simp: healthz_inv_def gomap_ok_def)
qed

theorem healthz_serves_current_checks_witness:
  "\<exists>vs. hz_handler (fold (apply_change (\<lambda>c. c) (\<lambda>cs. cs) rev) [AddChecks [''a'', ''b''], RemoveChecks [''a'']]
       (NewMutableHealthzHandler (\<lambda>c. c) (\<lambda>cs. cs) rev [])) = Some vs \<and> mset vs = {#''b''#}"
  using healthz_serves_current_checks [of rev "\<lambda>c. c" "\<lambda>cs. cs" "[AddChecks [''a'', ''b''], RemoveChecks [''a'']]"]
  by (auto simp: AddHealthChecker_def RemoveHealthChecker_def NewMutableHealthzHandler_def checks_of_def
      Let_def)

end
