(* ===== verification/Manager.thy ===== *)
theory Manager
  imports Healthz Concurrency
begin

text \<open>
  The manager of the package \<open>manager\<close> (manager/manager.go): a set of controllers that are started,
  added and cancelled together.

  The operations \<open>Start\<close>, \<open>Go\<close> and \<open>Cancel\<close> are code on the manager's state, one step per critical
  section or goroutine launch, so that calls interleave with each other and with the goroutines of the
  errgroup: one for each controller, and those that serve, broadcast and stop. A call that has to wait
  (for the \<open>sync.Once\<close> or for the errgroup) takes no step until its condition holds. The relation
  \<open>group_step\<close> holds the steps of the goroutines and \<open>system_step\<close> those of the whole system.

  The errgroup, its context, \<open>http.Server\<close> and the event broadcaster do what their packages document: the
  first error of a goroutine is kept and ends the group's context, \<open>Wait\<close> returns it when all goroutines
  have returned, and \<open>ListenAndServe\<close> returns \<open>ErrServerClosed\<close> once \<open>Shutdown\<close> was called and any other
  error before. The controllers' own code is not part of this theory: a running controller may return at
  any time. The handler that serves the debug endpoints, a value of k8s.io/controller-manager, is left out.
\<close>

section \<open>State\<close>

datatype gstate = Spawned | Running | Returned

datatype once = OnceNew | OnceRunning | OnceDone

datatype server_state = ServerUnused | Serving | ServerEnded

datatype broadcaster_state = BroadcasterUnused | BroadcasterLaunched | BroadcasterLogging | BroadcasterEnded

datatype stopper_state = StopperUnused | WaitingForContext | Cancelling | ShuttingDown | AwaitingServer | StopperEnded

datatype broadcaster_call = StartStructuredLogging int | StartRecordingToSink nat | ShutdownBroadcaster

record ('c, 'm) manager =
  mg_healthz :: "('c, 'm) MutableHealthzHandler"
  mg_Addr :: string
  mg_ReadHeaderTimeout :: int
  mg_once :: once
  mg_errG :: bool
  mg_ctxDone :: bool
  mg_firstErr :: "error option"
  mg_cancelFuncs :: "('c, nat) gomap"
  mg_cancelled :: "nat list"
  mg_broadcaster :: nat
  mg_sink :: "nat option"
  mg_broadcasts :: "broadcaster_call list"
  mg_goroutines :: "('c \<times> gstate) list"
  mg_server :: server_state
  mg_srvShutdown :: bool
  mg_broadcasting :: broadcaster_state
  mg_stopper :: stopper_state
  mg_closed :: "nat list"

record ('c, 'm) manager_lib =
  ml_Name :: "'c \<Rightarrow> string"
  ml_install :: "'c list \<Rightarrow> 'm"
  ml_order :: "'c check_order"
  ml_NewBroadcaster :: nat

type_synonym ('c, 'm, 'a) mg = "('a, ('c, 'm) manager) proc"

definition NewManager :: "('c, 'm) manager_lib \<Rightarrow> string \<Rightarrow> nat option \<Rightarrow> nat option \<Rightarrow> ('c, 'm) manager" where
  "NewManager L address broadcaster sink =
     \<lparr>mg_healthz = NewMutableHealthzHandler (ml_Name L) (ml_install L) (ml_order L) [],
      mg_Addr = address, mg_ReadHeaderTimeout = 20 * 1000000000,
      mg_once = OnceNew, mg_errG = False, mg_ctxDone = False, mg_firstErr = None, mg_cancelFuncs = [], mg_cancelled = [],
      mg_broadcaster = (case broadcaster of None \<Rightarrow> ml_NewBroadcaster L | Some b \<Rightarrow> b), mg_sink = sink, mg_broadcasts = [],
      mg_goroutines = [], mg_server = ServerUnused, mg_srvShutdown = False, mg_broadcasting = BroadcasterUnused,
      mg_stopper = StopperUnused, mg_closed = []\<rparr>"

section \<open>The errgroup\<close>

text \<open>The return of a goroutine with an error.\<close>

definition group_error :: "error option \<Rightarrow> ('c, 'm) manager \<Rightarrow> ('c, 'm) manager" where
  "group_error err m =
     (case err of
        None \<Rightarrow> m
      | Some e \<Rightarrow> if mg_firstErr m = None then m\<lparr>mg_firstErr := Some e, mg_ctxDone := True\<rparr> else m)"

definition group_done :: "('c, 'm) manager \<Rightarrow> bool" where
  "group_done m \<longleftrightarrow>
     list_all (\<lambda>g. snd g = Returned) (mg_goroutines m) \<and> mg_server m \<noteq> Serving \<and>
     mg_broadcasting m \<in> {BroadcasterUnused, BroadcasterEnded} \<and> mg_stopper m \<in> {StopperUnused, StopperEnded}"

definition errG_Wait :: "('c, 'm, error option) mg" where
  "errG_Wait = andthen (acquire group_done (\<lambda>m. m\<lparr>mg_ctxDone := True\<rparr>)) (gets mg_firstErr)"

section \<open>Operations\<close>

definition add_check :: "('c, 'm) manager_lib \<Rightarrow> 'c \<Rightarrow> ('c, 'm) manager \<Rightarrow> ('c, 'm) manager" where
  "add_check L c m =
     m\<lparr>mg_healthz := AddHealthChecker (ml_Name L) (ml_install L) (ml_order L) [c] (mg_healthz m)\<rparr>"

definition spawn :: "'c \<Rightarrow> ('c, 'm) manager \<Rightarrow> ('c, 'm) manager" where
  "spawn c m = m\<lparr>mg_goroutines := mg_goroutines m @ [(c, Spawned)]\<rparr>"

primrec go_loop :: "('c, 'm) manager_lib \<Rightarrow> 'c list \<Rightarrow> ('c, 'm, error option) mg" where
  "go_loop L [] = Return None"
| "go_loop L (c # cs) =
     andthen (modify (add_check L c))
       (andthen (modify (spawn c))
         (bind (gets mg_ctxDone) (\<lambda>d.
           if d then Return (Some (External ''context canceled'')) else go_loop L cs)))"

definition Manager_Go :: "('c, 'm) manager_lib \<Rightarrow> 'c list \<Rightarrow> ('c, 'm, error option) mg" where
  "Manager_Go L controllers =
     bind (gets mg_errG) (\<lambda>started.
       if \<not> started then Return (Some (Errorf ''cannot add controllers to an unstarted manager''))
       else go_loop L controllers)"

text \<open>\<open>sync.Once\<close>: the first caller runs the body, callers that come while it runs wait for its end.\<close>

definition once_enter :: "('c, 'm, bool) mg" where
  "once_enter =
     bind (act (\<lambda>m. case mg_once m of
        OnceNew \<Rightarrow> (Some True, m\<lparr>mg_once := OnceRunning\<rparr>)
      | OnceRunning \<Rightarrow> (None, m)
      | OnceDone \<Rightarrow> (Some False, m)))
     (\<lambda>r. case r of None \<Rightarrow> Panic blocked | Some first \<Rightarrow> Return first)"

definition once_Do :: "('c, 'm, error option) mg \<Rightarrow> ('c, 'm, error option) mg" where
  "once_Do body =
     bind once_enter (\<lambda>first. if first then deferred body (modify (\<lambda>m. m\<lparr>mg_once := OnceDone\<rparr>)) else Return None)"

text \<open>The function that \<open>Start\<close> runs once; its result is \<open>startErr\<close>.\<close>

definition start_once :: "('c, 'm) manager_lib \<Rightarrow> 'c list \<Rightarrow> ('c, 'm, error option) mg" where
  "start_once L controllers =
     andthen (modify (\<lambda>m. m\<lparr>mg_errG := True\<rparr>))
       (bind (Manager_Go L controllers) (\<lambda>err.
         if err \<noteq> None then Return err
         else
           andthen (modify (\<lambda>m. m\<lparr>mg_server := Serving\<rparr>))
             (andthen (modify (\<lambda>m. m\<lparr>mg_broadcasting := BroadcasterLaunched\<rparr>))
               (andthen (modify (\<lambda>m. m\<lparr>mg_stopper := WaitingForContext\<rparr>)) (Return None)))))"

text \<open>\<open>close(readyc)\<close>; \<open>None\<close> is a nil channel.\<close>

definition close_channel :: "nat option \<Rightarrow> ('c, 'm, unit) mg" where
  "close_channel ch =
     (case ch of
        None \<Rightarrow> Panic ''close of nil channel''
      | Some n \<Rightarrow>
          bind (act (\<lambda>m. (n \<in> set (mg_closed m), m\<lparr>mg_closed := List.insert n (mg_closed m)\<rparr>))) (\<lambda>again.
            if again then Panic ''close of closed channel'' else Return ()))"

definition Manager_Start :: "('c, 'm) manager_lib \<Rightarrow> nat option \<Rightarrow> 'c list \<Rightarrow> ('c, 'm, error option) mg" where
  "Manager_Start L readyc controllers =
     bind (gets mg_errG) (\<lambda>started.
       if started then Return (Some (Errorf ''manager already started''))
       else
         bind (once_Do (start_once L controllers)) (\<lambda>startErr.
           andthen (close_channel readyc)
             (if startErr \<noteq> None then Return startErr else errG_Wait)))"

definition cancel_context :: "nat \<Rightarrow> ('c, 'm) manager \<Rightarrow> ('c, 'm) manager" where
  "cancel_context g m = m\<lparr>mg_cancelled := g # mg_cancelled m\<rparr>"

definition delete_cancel :: "'c \<Rightarrow> ('c, 'm) manager \<Rightarrow> ('c, 'm) manager" where
  "delete_cancel c m = m\<lparr>mg_cancelFuncs := AList.delete c (mg_cancelFuncs m)\<rparr>"

primrec cancel_loop :: "'c list \<Rightarrow> ('c, 'm, unit) mg" where
  "cancel_loop [] = Return ()"
| "cancel_loop (c # cs) =
     bind (gets (\<lambda>m. map_of (mg_cancelFuncs m) c)) (\<lambda>r.
       andthen (case r of None \<Rightarrow> Return () | Some g \<Rightarrow> modify (cancel_context g))
         (andthen (modify (delete_cancel c)) (cancel_loop cs)))"

definition Manager_Cancel :: "('c, 'm) manager_lib \<Rightarrow> 'c list \<Rightarrow> ('c, 'm, unit) mg" where
  "Manager_Cancel L controllers =
     andthen (cancel_loop controllers)
       (modify (\<lambda>m. m\<lparr>mg_healthz :=
          RemoveHealthChecker (ml_install L) (ml_order L) (map (ml_Name L) controllers) (mg_healthz m)\<rparr>))"

section \<open>Goroutines\<close>

text \<open>The goroutine of a controller makes its context, registers the cancel function and calls the
  controller's \<open>Start\<close>.\<close>

definition register_goroutine :: "nat \<Rightarrow> ('c, 'm) manager \<Rightarrow> ('c, 'm) manager" where
  "register_goroutine g m =
     m\<lparr>mg_cancelFuncs := AList.update (fst (mg_goroutines m ! g)) g (mg_cancelFuncs m),
       mg_goroutines := (mg_goroutines m)[g := (fst (mg_goroutines m ! g), Running)]\<rparr>"

definition return_goroutine :: "nat \<Rightarrow> ('c, 'm) manager \<Rightarrow> ('c, 'm) manager" where
  "return_goroutine g m =
     m\<lparr>mg_goroutines := (mg_goroutines m)[g := (fst (mg_goroutines m ! g), Returned)]\<rparr>"

text \<open>The goroutine that serves, and the error \<open>ListenAndServe\<close> may return in a state.\<close>

definition http_ErrServerClosed :: error where
  "http_ErrServerClosed = External ''http: Server closed''"

definition listen_returns :: "('c, 'm) manager \<Rightarrow> error \<Rightarrow> bool" where
  "listen_returns m err =
     (if mg_srvShutdown m then err = http_ErrServerClosed else \<not> errors_Is err http_ErrServerClosed)"

definition server_returns :: "error \<Rightarrow> ('c, 'm) manager \<Rightarrow> ('c, 'm) manager" where
  "server_returns err m =
     group_error (if \<not> errors_Is err http_ErrServerClosed then Some err else None) (m\<lparr>mg_server := ServerEnded\<rparr>)"

text \<open>The goroutine that starts the broadcaster.\<close>

definition broadcaster_logs :: "('c, 'm) manager \<Rightarrow> ('c, 'm) manager" where
  "broadcaster_logs m =
     m\<lparr>mg_broadcasts := mg_broadcasts m @ [StartStructuredLogging 2], mg_broadcasting := BroadcasterLogging\<rparr>"

definition broadcaster_records :: "('c, 'm) manager \<Rightarrow> ('c, 'm) manager" where
  "broadcaster_records m =
     m\<lparr>mg_broadcasts := mg_broadcasts m @ (case mg_sink m of None \<Rightarrow> [] | Some s \<Rightarrow> [StartRecordingToSink s]),
       mg_broadcasting := BroadcasterEnded\<rparr>"

text \<open>The goroutine that waits for the context: it shuts the broadcaster down, calls and forgets every
  cancel function (the order in which the map is visited makes no difference), and shuts the server
  down, which may take some time and fail.\<close>

definition stop_broadcaster :: "('c, 'm) manager \<Rightarrow> ('c, 'm) manager" where
  "stop_broadcaster m = m\<lparr>mg_broadcasts := mg_broadcasts m @ [ShutdownBroadcaster], mg_stopper := Cancelling\<rparr>"

definition cancel_all :: "('c, 'm) manager \<Rightarrow> ('c, 'm) manager" where
  "cancel_all m = fold (\<lambda>e m. delete_cancel (fst e) (cancel_context (snd e) m)) (mg_cancelFuncs m) m"

definition stop_controllers :: "('c, 'm) manager \<Rightarrow> ('c, 'm) manager" where
  "stop_controllers m = (cancel_all m)\<lparr>mg_stopper := ShuttingDown\<rparr>"

definition stop_server :: "('c, 'm) manager \<Rightarrow> ('c, 'm) manager" where
  "stop_server m = m\<lparr>mg_srvShutdown := True, mg_stopper := AwaitingServer\<rparr>"

definition stopper_returns :: "error option \<Rightarrow> ('c, 'm) manager \<Rightarrow> ('c, 'm) manager" where
  "stopper_returns err m = group_error err (m\<lparr>mg_stopper := StopperEnded\<rparr>)"

definition context_done :: "('c, 'm) manager \<Rightarrow> nat \<Rightarrow> bool" where
  "context_done m g \<longleftrightarrow> mg_ctxDone m \<or> g \<in> set (mg_cancelled m)"

section \<open>The system\<close>

inductive group_step :: "('c, 'm) manager \<Rightarrow> ('c, 'm) manager \<Rightarrow> bool" where
  register: "g < length (mg_goroutines m) \<Longrightarrow> snd (mg_goroutines m ! g) = Spawned \<Longrightarrow> group_step m (register_goroutine g m)"
| returns: "g < length (mg_goroutines m) \<Longrightarrow> snd (mg_goroutines m ! g) = Running \<Longrightarrow> group_step m (return_goroutine g m)"
| serve: "mg_server m = Serving \<Longrightarrow> listen_returns m err \<Longrightarrow> group_step m (server_returns err m)"
| logs: "mg_broadcasting m = BroadcasterLaunched \<Longrightarrow> group_step m (broadcaster_logs m)"
| records: "mg_broadcasting m = BroadcasterLogging \<Longrightarrow> group_step m (broadcaster_records m)"
| stop: "mg_stopper m = WaitingForContext \<Longrightarrow> mg_ctxDone m \<Longrightarrow> group_step m (stop_broadcaster m)"
| cancels: "mg_stopper m = Cancelling \<Longrightarrow> group_step m (stop_controllers m)"
| shuts: "mg_stopper m = ShuttingDown \<Longrightarrow> group_step m (stop_server m)"
| ends: "mg_stopper m = AwaitingServer \<Longrightarrow> group_step m (stopper_returns err m)"

type_synonym ('c, 'm) system = "('c, 'm) manager \<times> ('c, 'm, unit) mg list"

inductive system_step :: "('c, 'm) system \<Rightarrow> ('c, 'm) system \<Rightarrow> bool" where
  call: "i < length ps \<Longrightarrow> ps ! i = Step u k \<Longrightarrow> k m \<noteq> Panic blocked \<Longrightarrow> system_step (m, ps) (u m, ps[i := k m])"
| ctx_ends: "system_step (m, ps) (m\<lparr>mg_ctxDone := True\<rparr>, ps)"
| group: "group_step m m' \<Longrightarrow> system_step (m, ps) (m', ps)"

text \<open>The programs of the manager's clients: sequences of calls, run concurrently.\<close>

datatype 'c call = CallStart "nat option" "'c list" | CallGo "'c list" | CallCancel "'c list"

fun call_proc :: "('c, 'm) manager_lib \<Rightarrow> 'c call \<Rightarrow> ('c, 'm, unit) mg" where
  "call_proc L (CallStart readyc cs) = bind (Manager_Start L readyc cs) (\<lambda>_. Return ())"
| "call_proc L (CallGo cs) = bind (Manager_Go L cs) (\<lambda>_. Return ())"
| "call_proc L (CallCancel cs) = Manager_Cancel L cs"

primrec client :: "('c, 'm) manager_lib \<Rightarrow> 'c call list \<Rightarrow> ('c, 'm, unit) mg" where
  "client L [] = Return ()"
| "client L (x # xs) = andthen (call_proc L x) (client L xs)"

definition reachable :: "('c, 'm) manager_lib \<Rightarrow> 'c call list list \<Rightarrow> ('c, 'm) system \<Rightarrow> bool" where
  "reachable L clients s \<longleftrightarrow>
     (\<exists>address broadcaster sink. system_step\<^sup>*\<^sup>* (NewManager L address broadcaster sink, map (client L) clients) s)"

fun cancel_targets :: "'c call \<Rightarrow> 'c set" where
  "cancel_targets (CallCancel cs) = set cs"
| "cancel_targets _ = {}"

section \<open>The invariant\<close>

text \<open>The cancel function stored for a controller cancels the context of a goroutine that runs that
  controller, and while the manager's context lives only contexts of controllers in \<open>X\<close> have been
  cancelled. An error of a goroutine and the work of the stopping goroutine imply that the context has
  ended, and the stopping goroutine has done what it has passed. The state moves forward: goroutines are
  only added and never change their controller.\<close>

definition cancel_inv :: "'c set \<Rightarrow> ('c, 'm) manager \<Rightarrow> bool" where
  "cancel_inv X m \<longleftrightarrow>
     gomap_ok (mg_cancelFuncs m) \<and>
     (\<forall>c g. map_of (mg_cancelFuncs m) c = Some g \<longrightarrow>
        g < length (mg_goroutines m) \<and> fst (mg_goroutines m ! g) = c \<and> snd (mg_goroutines m ! g) \<noteq> Spawned) \<and>
     (\<forall>g \<in> set (mg_cancelled m). g < length (mg_goroutines m) \<and>
        (mg_ctxDone m \<or> fst (mg_goroutines m ! g) \<in> X))"

definition stop_inv :: "('c, 'm) manager \<Rightarrow> bool" where
  "stop_inv m \<longleftrightarrow>
     (mg_firstErr m \<noteq> None \<longrightarrow> mg_ctxDone m) \<and>
     (mg_stopper m \<notin> {StopperUnused, WaitingForContext} \<longrightarrow> mg_ctxDone m \<and> ShutdownBroadcaster \<in> set (mg_broadcasts m)) \<and>
     (mg_stopper m \<in> {AwaitingServer, StopperEnded} \<longrightarrow> mg_srvShutdown m)"

definition manager_inv :: "'c set \<Rightarrow> ('c, 'm) manager \<Rightarrow> bool" where
  "manager_inv X m \<longleftrightarrow> cancel_inv X m \<and> stop_inv m"

definition later :: "('c, 'm) manager \<Rightarrow> ('c, 'm) manager \<Rightarrow> bool" where
  "later m m' \<longleftrightarrow>
     length (mg_goroutines m) \<le> length (mg_goroutines m') \<and>
     (\<forall>g < length (mg_goroutines m). fst (mg_goroutines m' ! g) = fst (mg_goroutines m ! g)) \<and>
     (mg_ctxDone m \<longrightarrow> mg_ctxDone m')"

lemma later_refl: "reflp later"
  by (simp add: reflp_def later_def)

lemma later_trans: "transp later"
  by (force simp: transp_def later_def)

text \<open>A change that leaves the controllers and their contexts alone.\<close>

lemma inv_frame:
  assumes "mg_goroutines m' = mg_goroutines m" "mg_cancelFuncs m' = mg_cancelFuncs m"
    "mg_cancelled m' = mg_cancelled m" "mg_ctxDone m \<Longrightarrow> mg_ctxDone m'" and "stop_inv m \<Longrightarrow> stop_inv m'" and "manager_inv X m"
  shows "manager_inv X m' \<and> later m m'"
  using assms by (auto simp: manager_inv_def cancel_inv_def later_def)

text \<open>A change of the controllers and their contexts alone.\<close>

lemma inv_cancel_part:
  assumes "manager_inv X m" and "cancel_inv X m \<Longrightarrow> cancel_inv X m' \<and> later m m'" and "stop_inv m' = stop_inv m"
  shows "manager_inv X m' \<and> later m m'"
  using assms by (simp add: manager_inv_def)

lemma inv_spawn:
  assumes "manager_inv X m"
  shows "manager_inv X (spawn c m) \<and> later m (spawn c m)"
proof (rule inv_cancel_part [OF assms])
  assume "cancel_inv X m"
  then show "cancel_inv X (spawn c m) \<and> later m (spawn c m)"
    by (auto simp: cancel_inv_def later_def spawn_def nth_append) (metis less_SucI)+
qed (simp add: stop_inv_def spawn_def)

lemma inv_cancel:
  assumes "manager_inv X m" and "g < length (mg_goroutines m)" and "mg_ctxDone m \<or> fst (mg_goroutines m ! g) \<in> X"
  shows "manager_inv X (cancel_context g m) \<and> later m (cancel_context g m)"
  by (rule inv_cancel_part [OF assms(1)])
    (use assms(2,3) in \<open>auto simp: stop_inv_def cancel_context_def cancel_inv_def later_def\<close>)

lemma inv_delete:
  assumes "manager_inv X m"
  shows "manager_inv X (delete_cancel c m) \<and> later m (delete_cancel c m)"
  by (rule inv_cancel_part [OF assms])
    (auto simp: stop_inv_def delete_cancel_def cancel_inv_def later_def delete_conv' split: if_splits)

lemma inv_register:
  assumes "manager_inv X m" and "g < length (mg_goroutines m)"
  shows "manager_inv X (register_goroutine g m) \<and> later m (register_goroutine g m)"
  by (rule inv_cancel_part [OF assms(1)])
    (use assms(2) in \<open>auto simp: stop_inv_def register_goroutine_def cancel_inv_def later_def update_conv'
      nth_list_update split: if_splits\<close>)

lemma inv_return:
  assumes "manager_inv X m" and "g < length (mg_goroutines m)"
  shows "manager_inv X (return_goroutine g m) \<and> later m (return_goroutine g m)"
  by (rule inv_cancel_part [OF assms(1)])
    (use assms(2) in \<open>auto simp: stop_inv_def return_goroutine_def cancel_inv_def later_def nth_list_update\<close>)

lemma inv_ctx: "manager_inv X m \<Longrightarrow> manager_inv X (m\<lparr>mg_ctxDone := True\<rparr>) \<and> later m (m\<lparr>mg_ctxDone := True\<rparr>)"
  by (rule inv_frame) (auto simp: stop_inv_def)

lemma inv_group_error: "manager_inv X m \<Longrightarrow> manager_inv X (group_error err m) \<and> later m (group_error err m)"
  by (rule inv_frame) (auto simp: group_error_def stop_inv_def split: option.split)

lemma inv_then:
  "manager_inv X m' \<and> later m m' \<Longrightarrow> (manager_inv X m' \<Longrightarrow> manager_inv X m'' \<and> later m' m'') \<Longrightarrow>
   manager_inv X m'' \<and> later m m''"
  using later_trans by (blast dest: transpD)

lemma inv_cancel_all:
  assumes "manager_inv X m" and "mg_ctxDone m"
  shows "manager_inv X (cancel_all m) \<and> later m (cancel_all m)"
proof -
  have "manager_inv X (fold (\<lambda>e m. delete_cancel (fst e) (cancel_context (snd e) m)) es m) \<and>
      later m (fold (\<lambda>e m. delete_cancel (fst e) (cancel_context (snd e) m)) es m)"
    if "manager_inv X m" "mg_ctxDone m" "\<forall>e \<in> set es. snd e < length (mg_goroutines m)" for es and m :: "('a, 'b) manager"
    using that
  proof (induction es arbitrary: m)
    case Nil
    then show ?case by (simp add: later_def)
  next
    case (Cons e es)
    let ?m = "delete_cancel (fst e) (cancel_context (snd e) m)"
    have "manager_inv X (cancel_context (snd e) m) \<and> later m (cancel_context (snd e) m)"
      using Cons.prems by (intro inv_cancel) auto
    then have "manager_inv X ?m \<and> later m ?m" by (rule inv_then) (rule inv_delete)
    moreover have "mg_ctxDone ?m" "mg_goroutines ?m = mg_goroutines m"
      using Cons.prems by (simp_all add: delete_cancel_def cancel_context_def)
    ultimately show ?case using Cons.IH [of ?m] Cons.prems inv_then by auto
  qed
  moreover have "\<forall>e \<in> set (mg_cancelFuncs m). snd e < length (mg_goroutines m)"
    using assms(1) unfolding manager_inv_def cancel_inv_def gomap_ok_def by (metis map_of_is_SomeI prod.collapse)
  ultimately show ?thesis unfolding cancel_all_def using assms by blast
qed

lemma cancel_all_frame:
  "mg_stopper (cancel_all m) = mg_stopper m" "mg_ctxDone (cancel_all m) = mg_ctxDone m"
  "mg_broadcasts (cancel_all m) = mg_broadcasts m" "mg_srvShutdown (cancel_all m) = mg_srvShutdown m"
  "mg_firstErr (cancel_all m) = mg_firstErr m" "mg_goroutines (cancel_all m) = mg_goroutines m"
  "mg_server (cancel_all m) = mg_server m" "mg_broadcasting (cancel_all m) = mg_broadcasting m"
proof -
  have "mg_stopper (fold f es m) = mg_stopper m \<and> mg_ctxDone (fold f es m) = mg_ctxDone m \<and>
    mg_broadcasts (fold f es m) = mg_broadcasts m \<and> mg_srvShutdown (fold f es m) = mg_srvShutdown m \<and>
    mg_firstErr (fold f es m) = mg_firstErr m \<and> mg_goroutines (fold f es m) = mg_goroutines m \<and>
    mg_server (fold f es m) = mg_server m \<and> mg_broadcasting (fold f es m) = mg_broadcasting m"
    if "f = (\<lambda>e m. delete_cancel (fst e) (cancel_context (snd e) m))" for f es and m :: "('a, 'b) manager"
    unfolding that by (induction es arbitrary: m) (simp_all add: delete_cancel_def cancel_context_def)
  from this [OF refl] show
    "mg_stopper (cancel_all m) = mg_stopper m" "mg_ctxDone (cancel_all m) = mg_ctxDone m"
    "mg_broadcasts (cancel_all m) = mg_broadcasts m" "mg_srvShutdown (cancel_all m) = mg_srvShutdown m"
    "mg_firstErr (cancel_all m) = mg_firstErr m" "mg_goroutines (cancel_all m) = mg_goroutines m"
    "mg_server (cancel_all m) = mg_server m" "mg_broadcasting (cancel_all m) = mg_broadcasting m"
    unfolding cancel_all_def by blast+
qed

text \<open>Every step of the goroutines keeps the invariant.\<close>

lemma inv_group_step:
  assumes "group_step m m'" and "manager_inv X m"
  shows "manager_inv X m' \<and> later m m'"
  using assms
proof (induction rule: group_step.induct)
  case (serve m err)
  have "manager_inv X (m\<lparr>mg_server := ServerEnded\<rparr>) \<and> later m (m\<lparr>mg_server := ServerEnded\<rparr>)"
    using serve by (intro inv_frame) (auto simp: stop_inv_def)
  then show ?case unfolding server_returns_def by (rule inv_then) (rule inv_group_error)
next
  case (ends m err)
  have "manager_inv X (m\<lparr>mg_stopper := StopperEnded\<rparr>) \<and> later m (m\<lparr>mg_stopper := StopperEnded\<rparr>)"
    using ends by (intro inv_frame) (auto simp: stop_inv_def)
  then show ?case unfolding stopper_returns_def by (rule inv_then) (rule inv_group_error)
next
  case (cancels m)
  then have "mg_ctxDone m" by (auto simp: manager_inv_def stop_inv_def)
  from inv_cancel_all [OF cancels(2) this] show ?case
    unfolding stop_controllers_def
    by (rule inv_then) (intro inv_frame, auto simp: stop_inv_def cancel_all_frame cancels)
next
  case (logs m)
  show ?case by (rule inv_frame [OF _ _ _ _ _ logs(2)]) (auto simp: broadcaster_logs_def stop_inv_def)
next
  case (records m)
  show ?case by (rule inv_frame [OF _ _ _ _ _ records(2)]) (auto simp: broadcaster_records_def stop_inv_def)
next
  case (stop m)
  then show ?case by (intro inv_frame [OF _ _ _ _ _ stop(3)]) (auto simp: stop_broadcaster_def stop_inv_def)
next
  case (shuts m)
  then show ?case by (intro inv_frame [OF _ _ _ _ _ shuts(2)]) (auto simp: stop_server_def stop_inv_def)
qed (simp_all add: inv_register inv_return)

section \<open>Every operation keeps the invariant\<close>

abbreviation mg_safe :: "'c set \<Rightarrow> ('a, ('c, 'm) manager) proc \<Rightarrow> ('c, 'm) manager \<Rightarrow> bool" where
  "mg_safe X \<equiv> rg_safe (manager_inv X) later"

lemma safe_frame:
  assumes "\<And>m. mg_goroutines (u m) = mg_goroutines m" "\<And>m. mg_cancelFuncs (u m) = mg_cancelFuncs m"
    "\<And>m. mg_cancelled (u m) = mg_cancelled m" "\<And>m. mg_ctxDone m \<Longrightarrow> mg_ctxDone (u m)" "\<And>m. stop_inv m \<Longrightarrow> stop_inv (u m)"
  shows "mg_safe X (modify u) m"
  by (rule rg_safe_modify) (rule inv_frame, simp_all add: assms)

lemma safe_act_frame:
  assumes "\<And>m. mg_goroutines (snd (f m)) = mg_goroutines m" "\<And>m. mg_cancelFuncs (snd (f m)) = mg_cancelFuncs m"
    "\<And>m. mg_cancelled (snd (f m)) = mg_cancelled m" "\<And>m. mg_ctxDone m \<Longrightarrow> mg_ctxDone (snd (f m))"
    "\<And>m. stop_inv m \<Longrightarrow> stop_inv (snd (f m))"
  shows "mg_safe X (act f) m"
  by (rule rg_safe_act) (rule inv_frame, simp_all add: assms)

lemma safe_go_loop: "mg_safe X (go_loop L cs) m"
proof (induction cs arbitrary: m)
  case Nil
  show ?case by simp
next
  case (Cons c cs)
  have "mg_safe X (modify (add_check L c)) m" for m :: "('a, 'b) manager"
    by (rule safe_frame) (simp_all add: add_check_def stop_inv_def)
  moreover have "mg_safe X (modify (spawn c)) m" for m :: "('a, 'b) manager"
    by (rule rg_safe_modify) (simp add: inv_spawn)
  ultimately show ?case
    by (auto intro!: rg_safe_andthen rg_safe_gets later_refl simp: Cons)
qed

lemma safe_Go: "mg_safe X (Manager_Go L cs) m"
  unfolding Manager_Go_def by (rule rg_safe_gets [OF later_refl]) (simp add: safe_go_loop)

lemma safe_launch:
  "mg_safe X (modify (\<lambda>m. m\<lparr>mg_errG := True\<rparr>)) m" "mg_safe X (modify (\<lambda>m. m\<lparr>mg_once := OnceDone\<rparr>)) m"
  "mg_safe X (modify (\<lambda>m. m\<lparr>mg_server := Serving\<rparr>)) m" "mg_safe X (modify (\<lambda>m. m\<lparr>mg_broadcasting := BroadcasterLaunched\<rparr>)) m"
  "mg_safe X (modify (\<lambda>m. m\<lparr>mg_stopper := WaitingForContext\<rparr>)) m"
  by (auto intro!: safe_frame simp: stop_inv_def)

lemma safe_start_once: "mg_safe X (start_once L cs) m"
  unfolding start_once_def by (auto intro!: rg_safe_bind rg_safe_andthen safe_launch safe_Go)

lemma safe_once_enter: "mg_safe X once_enter m"
  unfolding once_enter_def
  by (rule rg_safe_bind) (auto intro!: safe_act_frame split: once.split option.split simp: stop_inv_def)

lemma safe_close: "mg_safe X (close_channel ch) m"
  unfolding close_channel_def
  by (auto intro!: rg_safe_bind safe_act_frame split: option.split simp: stop_inv_def)

lemma safe_Wait: "mg_safe X errG_Wait m"
proof -
  have "mg_safe X (act (\<lambda>m. (group_done m, if group_done m then m\<lparr>mg_ctxDone := True\<rparr> else m))) m" for m :: "('a, 'b) manager"
    by (rule safe_act_frame) (auto simp: stop_inv_def)
  then have "mg_safe X (acquire group_done (\<lambda>m. m\<lparr>mg_ctxDone := True\<rparr>)) m" for m :: "('a, 'b) manager"
    unfolding acquire_def by (rule rg_safe_bind) simp
  moreover have "mg_safe X (gets mg_firstErr) m" for m :: "('a, 'b) manager"
    by (simp add: gets_def later_def)
  ultimately show ?thesis unfolding errG_Wait_def by (rule rg_safe_andthen)
qed

lemma safe_Start: "mg_safe X (Manager_Start L ch cs) m"
  unfolding Manager_Start_def once_Do_def
  by (intro rg_safe_gets later_refl)
    (auto intro!: rg_safe_bind rg_safe_andthen rg_safe_deferred safe_once_enter safe_start_once safe_launch(2) safe_close safe_Wait)

lemma safe_cancel_step:
  assumes inv: "manager_inv X m" and "c \<in> X"
  shows "mg_safe X (case map_of (mg_cancelFuncs m) c of None \<Rightarrow> Return () | Some g \<Rightarrow> modify (cancel_context g)) m"
proof (cases "map_of (mg_cancelFuncs m) c")
  case (Some g)
  with inv have "g < length (mg_goroutines m)" "fst (mg_goroutines m ! g) = c"
    by (auto simp: manager_inv_def cancel_inv_def)
  then have "manager_inv X (cancel_context g m') \<and> later m' (cancel_context g m')"
    if "later m m'" "manager_inv X m'" for m'
    using that assms(2) by (intro inv_cancel) (auto simp: later_def)
  with Some show ?thesis by (simp add: rg_safe_modify)
qed simp

lemma safe_delete: "mg_safe X (modify (delete_cancel c)) m"
  by (rule rg_safe_modify) (simp add: inv_delete)

lemma safe_cancel_loop: "set cs \<subseteq> X \<Longrightarrow> mg_safe X (cancel_loop cs) m"
proof (induction cs arbitrary: m)
  case Nil
  show ?case by simp
next
  case (Cons c cs)
  then show ?case
    by (auto intro!: rg_safe_gets later_refl rg_safe_andthen safe_cancel_step safe_delete)
qed

lemma safe_call: "cancel_targets x \<subseteq> X \<Longrightarrow> mg_safe X (call_proc L x) m"
proof (cases x)
  case (CallCancel cs)
  assume "cancel_targets x \<subseteq> X"
  with CallCancel have "mg_safe X (cancel_loop cs) m" by (simp add: safe_cancel_loop)
  with CallCancel show ?thesis
    by (auto simp: Manager_Cancel_def stop_inv_def intro!: rg_safe_andthen safe_frame)
qed (auto intro!: rg_safe_bind safe_Start safe_Go)

lemma safe_client: "(\<Union>y \<in> set calls. cancel_targets y) \<subseteq> X \<Longrightarrow> mg_safe X (client L calls) m"
proof (induction calls arbitrary: m)
  case Nil
  show ?case by simp
next
  case (Cons y calls)
  then show ?case by (auto intro!: rg_safe_andthen safe_call)
qed

text \<open>The invariant of the whole system: the state is good, and every client is still safe.\<close>

definition system_inv :: "'c set \<Rightarrow> ('c, 'm) system \<Rightarrow> bool" where
  "system_inv X s \<longleftrightarrow> manager_inv X (fst s) \<and> (\<forall>p \<in> set (snd s). mg_safe X p (fst s))"

lemma system_inv_later:
  assumes "system_inv X (m, ps)" and "manager_inv X m' \<and> later m m'"
  shows "system_inv X (m', ps)"
proof -
  have "mg_safe X p m'" if "mg_safe X p m" for p :: "(unit, ('a, 'b) manager) proc"
    using that assms(2) rg_safe_later [OF later_trans] by blast
  with assms show ?thesis by (simp add: system_inv_def)
qed

lemma system_inv_step:
  assumes "system_step s s'" and "system_inv X s"
  shows "system_inv X s'"
  using assms
proof (induction rule: system_step.induct)
  case (call i ps u k m)
  then have "Step u k \<in> set ps" by (metis nth_mem)
  with call(4) have "mg_safe X (Step u k) m" by (auto simp: system_inv_def simp del: rg_safe.simps)
  moreover have "later m m" using later_refl by (rule reflpD)
  ultimately have step: "manager_inv X (u m)" "later m (u m)" "mg_safe X (k m) (u m)"
    using call(4) by (auto simp: system_inv_def)
  with system_inv_later [OF call(4)] have "system_inv X (u m, ps)" by blast
  with step show ?case
    using set_update_subset_insert [of ps i "k m"] by (auto simp: system_inv_def)
next
  case (ctx_ends m ps)
  then have "manager_inv X m" by (simp add: system_inv_def)
  from system_inv_later [OF ctx_ends inv_ctx [OF this]] show ?case .
next
  case (group m m' ps)
  then have "manager_inv X m" by (simp add: system_inv_def)
  from system_inv_later [OF group(2) inv_group_step [OF group(1) this]] show ?case .
qed

lemma reachable_inv:
  assumes "reachable L clients s" and "(\<Union>calls \<in> set clients. \<Union>y \<in> set calls. cancel_targets y) \<subseteq> X"
  shows "system_inv X s"
proof -
  obtain address broadcaster sink where "system_step\<^sup>*\<^sup>* (NewManager L address broadcaster sink, map (client L) clients) s"
    using assms(1) by (auto simp: reachable_def)
  then show ?thesis
  proof (induction rule: rtranclp_induct)
    case base
    have "mg_safe X (client L calls) m" if "calls \<in> set clients" for calls and m :: "('a, 'b) manager"
      using that assms(2) by (intro safe_client) blast
    moreover have "manager_inv X (NewManager L address broadcaster sink)"
      by (simp add: manager_inv_def cancel_inv_def stop_inv_def NewManager_def)
    ultimately show ?case by (auto simp: system_inv_def)
  qed (auto intro: system_inv_step)
qed

section \<open>Schedules\<close>

text \<open>A schedule picks the steps of the system one after the other.\<close>

datatype event =
    EvCall nat
  | EvCtx
  | EvRegister nat
  | EvReturn nat
  | EvServe error
  | EvBroadcast
  | EvStop "error option"

fun stop_event :: "error option \<Rightarrow> ('c, 'm) manager \<Rightarrow> ('c, 'm) manager option" where
  "stop_event err m =
     (case mg_stopper m of
        WaitingForContext \<Rightarrow> if mg_ctxDone m then Some (stop_broadcaster m) else None
      | Cancelling \<Rightarrow> Some (stop_controllers m)
      | ShuttingDown \<Rightarrow> Some (stop_server m)
      | AwaitingServer \<Rightarrow> Some (stopper_returns err m)
      | _ \<Rightarrow> None)"

fun group_event :: "event \<Rightarrow> ('c, 'm) manager \<Rightarrow> ('c, 'm) manager option" where
  "group_event (EvRegister g) m =
     (if g < length (mg_goroutines m) \<and> snd (mg_goroutines m ! g) = Spawned then Some (register_goroutine g m) else None)"
| "group_event (EvReturn g) m =
     (if g < length (mg_goroutines m) \<and> snd (mg_goroutines m ! g) = Running then Some (return_goroutine g m) else None)"
| "group_event (EvServe err) m = (if mg_server m = Serving \<and> listen_returns m err then Some (server_returns err m) else None)"
| "group_event EvBroadcast m =
     (case mg_broadcasting m of
        BroadcasterLaunched \<Rightarrow> Some (broadcaster_logs m)
      | BroadcasterLogging \<Rightarrow> Some (broadcaster_records m)
      | _ \<Rightarrow> None)"
| "group_event (EvStop err) m = stop_event err m"
| "group_event _ m = None"

fun waits :: "('a, 'w) proc \<Rightarrow> bool" where
  "waits (Panic e) = (e = blocked)"
| "waits _ = False"

lemma waits_iff: "waits p \<longleftrightarrow> p = Panic blocked"
  by (cases p) auto

fun exec_event :: "event \<Rightarrow> ('c, 'm) system \<Rightarrow> ('c, 'm) system option" where
  "exec_event (EvCall i) (m, ps) =
     (if i < length ps then
        (case ps ! i of
           Step u k \<Rightarrow> if waits (k m) then None else Some (u m, ps[i := k m])
         | _ \<Rightarrow> None)
      else None)"
| "exec_event EvCtx (m, ps) = Some (m\<lparr>mg_ctxDone := True\<rparr>, ps)"
| "exec_event e (m, ps) = (case group_event e m of None \<Rightarrow> None | Some m' \<Rightarrow> Some (m', ps))"

fun exec :: "event list \<Rightarrow> ('c, 'm) system \<Rightarrow> ('c, 'm) system option" where
  "exec [] s = Some s"
| "exec (e # es) s = (case exec_event e s of None \<Rightarrow> None | Some s' \<Rightarrow> exec es s')"

lemma group_event_step: "group_event e m = Some m' \<Longrightarrow> group_step m m'"
  by (induction e m rule: group_event.induct)
    (auto split: if_splits stopper_state.splits broadcaster_state.splits intro: group_step.intros)

lemma exec_event_step: "exec_event e s = Some s' \<Longrightarrow> system_step s s'"
proof (induction e s rule: exec_event.induct)
  case (1 i m ps)
  then show ?case by (auto split: if_splits proc.splits simp: waits_iff intro: call)
qed (auto split: option.splits simp del: group_event.simps intro: ctx_ends group group_event_step)

lemma exec_steps: "exec es s = Some s' \<Longrightarrow> system_step\<^sup>*\<^sup>* s s'"
proof (induction es s rule: exec.induct)
  case (1 s)
  then show ?case by simp
next
  case (2 e es s)
  then show ?case
    by (auto split: option.splits intro: converse_rtranclp_into_rtranclp exec_event_step)
qed

lemma reachable_exec:
  "exec es (NewManager L address broadcaster sink, map (client L) clients) = Some s \<Longrightarrow> reachable L clients s"
  unfolding reachable_def by (blast dest: exec_steps)

lemmas manager_call_defs = Manager_Start_def once_Do_def once_enter_def start_once_def close_channel_def errG_Wait_def
  Manager_Go_def Manager_Cancel_def acquire_def andthen_def modify_def gets_def act_def NewManager_def add_check_def
  spawn_def cancel_context_def delete_cancel_def register_goroutine_def AddHealthChecker_def RemoveHealthChecker_def
  NewMutableHealthzHandler_def checks_of_def Let_def

section \<open>The work of the goroutines\<close>

text \<open>How many steps the goroutines have left.\<close>

fun steps_left :: "gstate \<Rightarrow> nat" where
  "steps_left Spawned = 2"
| "steps_left Running = 1"
| "steps_left Returned = 0"

definition work :: "('c, 'm) manager \<Rightarrow> nat" where
  "work m =
     sum_list (map (\<lambda>g. steps_left (snd g)) (mg_goroutines m)) +
     (case mg_server m of Serving \<Rightarrow> 1 | _ \<Rightarrow> 0) +
     (case mg_broadcasting m of BroadcasterLaunched \<Rightarrow> 2 | BroadcasterLogging \<Rightarrow> 1 | _ \<Rightarrow> 0) +
     (case mg_stopper m of WaitingForContext \<Rightarrow> 4 | Cancelling \<Rightarrow> 3 | ShuttingDown \<Rightarrow> 2 | AwaitingServer \<Rightarrow> 1 | _ \<Rightarrow> 0)"

lemma sum_list_update_less:
  fixes f :: "'a \<Rightarrow> nat"
  assumes "i < length xs" and "f x < f (xs ! i)"
  shows "sum_list (map f (xs[i := x])) < sum_list (map f xs)"
  using assms by (induction xs arbitrary: i) (auto split: nat.split)

lemma group_error_frame [simp]:
  "mg_goroutines (group_error e m) = mg_goroutines m" "mg_server (group_error e m) = mg_server m"
  "mg_broadcasting (group_error e m) = mg_broadcasting m" "mg_stopper (group_error e m) = mg_stopper m"
  "mg_srvShutdown (group_error e m) = mg_srvShutdown m"
  by (simp_all add: group_error_def split: option.split)

lemma work_decreases: "group_step m m' \<Longrightarrow> work m' < work m"
proof (induction rule: group_step.induct)
  case (register g m)
  from register sum_list_update_less [of g "mg_goroutines m" "\<lambda>g. steps_left (snd g)" "(fst (mg_goroutines m ! g), Running)"]
  show ?case by (simp add: work_def register_goroutine_def)
next
  case (returns g m)
  from returns sum_list_update_less [of g "mg_goroutines m" "\<lambda>g. steps_left (snd g)" "(fst (mg_goroutines m ! g), Returned)"]
  show ?case by (simp add: work_def return_goroutine_def)
qed (simp_all add: work_def server_returns_def broadcaster_logs_def broadcaster_records_def stop_broadcaster_def
    stop_controllers_def cancel_all_frame stop_server_def stopper_returns_def)

lemma work_bounds: "(group_step ^^ n) m m' \<Longrightarrow> n + work m' \<le> work m"
proof (induction n arbitrary: m')
  case (Suc n)
  then obtain m1 where "(group_step ^^ n) m m1" "group_step m1 m'" by auto
  with Suc.IH work_decreases show ?case by fastforce
qed simp

text \<open>Only the goroutines of a manager whose context has ended and that has been told to stop are sure to
  end: when none of them can take a step, all have returned.\<close>

lemma stuck_is_done:
  assumes "stop_inv m" and "mg_ctxDone m" and "mg_stopper m \<noteq> StopperUnused" and stuck: "\<nexists>m'. group_step m m'"
  shows "group_done m \<and> mg_stopper m = StopperEnded"
proof -
  have stopped: "mg_stopper m = StopperEnded"
    using stuck assms(2,3) stop cancels shuts ends by (cases "mg_stopper m") blast+
  then have "mg_srvShutdown m" using assms(1) by (simp add: stop_inv_def)
  then have "listen_returns m http_ErrServerClosed" by (simp add: listen_returns_def)
  then have "mg_server m \<noteq> Serving" using stuck serve by blast
  moreover have "mg_broadcasting m \<in> {BroadcasterUnused, BroadcasterEnded}"
    using stuck logs records by (cases "mg_broadcasting m") blast+
  moreover have "snd (mg_goroutines m ! g) = Returned" if "g < length (mg_goroutines m)" for g
    using that stuck register returns by (cases "snd (mg_goroutines m ! g)") blast+
  ultimately show ?thesis using stopped by (auto simp: group_done_def list_all_length)
qed

text \<open>What the steps of the goroutines keep.\<close>

definition keeps_going :: "('c, 'm) manager \<Rightarrow> ('c, 'm) manager \<Rightarrow> bool" where
  "keeps_going m m' \<longleftrightarrow>
     (mg_ctxDone m \<longrightarrow> mg_ctxDone m') \<and> (mg_stopper m \<noteq> StopperUnused \<longrightarrow> mg_stopper m' \<noteq> StopperUnused) \<and>
     (mg_firstErr m \<noteq> None \<longrightarrow> mg_firstErr m' = mg_firstErr m) \<and> mg_closed m' = mg_closed m"

lemma cancel_all_closed: "mg_closed (cancel_all m) = mg_closed m"
proof -
  have "mg_closed (fold (\<lambda>e m. delete_cancel (fst e) (cancel_context (snd e) m)) es m) = mg_closed m"
    for es and m :: "('a, 'b) manager"
    by (induction es arbitrary: m) (simp_all add: delete_cancel_def cancel_context_def)
  then show ?thesis by (simp add: cancel_all_def)
qed

lemma group_step_keeps: "group_step m m' \<Longrightarrow> keeps_going m m'"
  by (induction rule: group_step.induct)
    (simp_all add: keeps_going_def register_goroutine_def return_goroutine_def server_returns_def group_error_def
      broadcaster_logs_def broadcaster_records_def stop_broadcaster_def stop_controllers_def cancel_all_frame
      cancel_all_closed stop_server_def stopper_returns_def split: option.split)

lemma group_steps_keep: "group_step\<^sup>*\<^sup>* m m' \<Longrightarrow> keeps_going m m' \<and> (manager_inv X m \<longrightarrow> manager_inv X m')"
proof (induction rule: rtranclp_induct)
  case base
  show ?case by (simp add: keeps_going_def)
next
  case (step m1 m2)
  then show ?case using group_step_keeps [OF step(2)] inv_group_step [OF step(2), of X] by (auto simp: keeps_going_def)
qed

section \<open>A start without other calls\<close>

lemma run_go_loop:
  "\<not> mg_ctxDone m \<Longrightarrow> run (go_loop L cs) m = (Normal None, fold (\<lambda>c m. spawn c (add_check L c m)) cs m)"
  by (induction cs arbitrary: m) (simp_all add: add_check_def spawn_def)

lemma launched_controllers:
  "mg_goroutines (fold (\<lambda>c m. spawn c (add_check L c m)) cs m) = mg_goroutines m @ map (\<lambda>c. (c, Spawned)) cs"
  "mg_errG (fold (\<lambda>c m. spawn c (add_check L c m)) cs m) = mg_errG m"
  "mg_once (fold (\<lambda>c m. spawn c (add_check L c m)) cs m) = mg_once m"
  "mg_closed (fold (\<lambda>c m. spawn c (add_check L c m)) cs m) = mg_closed m"
  "mg_stopper (fold (\<lambda>c m. spawn c (add_check L c m)) cs m) = mg_stopper m"
  "mg_server (fold (\<lambda>c m. spawn c (add_check L c m)) cs m) = mg_server m"
  "mg_healthz (fold (\<lambda>c m. spawn c (add_check L c m)) cs m) =
     fold (\<lambda>c. AddHealthChecker (ml_Name L) (ml_install L) (ml_order L) [c]) cs (mg_healthz m)"
  by (induction cs arbitrary: m) (simp_all add: add_check_def spawn_def)

section \<open>Properties\<close>

text \<open>C2: in every state the system can reach, under every interleaving of any number of clients
  calling \<open>Start\<close>, \<open>Go\<close> and \<open>Cancel\<close>, a stored cancel function belongs to a goroutine that runs its own
  controller, and as long as the manager's context lives, a goroutine whose context is done runs a
  controller some client asked to cancel. Once the manager's context ends, the context of every
  goroutine is done.\<close>

theorem cancel_reaches_only_its_targets:
  assumes "reachable L clients (m, ps)"
  shows "(\<forall>c g. map_of (mg_cancelFuncs m) c = Some g \<longrightarrow>
            g < length (mg_goroutines m) \<and> fst (mg_goroutines m ! g) = c) \<and>
         (if mg_ctxDone m then \<forall>g. context_done m g
          else \<forall>g. context_done m g \<longrightarrow>
            fst (mg_goroutines m ! g) \<in> (\<Union>calls \<in> set clients. \<Union>y \<in> set calls. cancel_targets y))"
  using reachable_inv [OF assms order_refl]
  by (auto simp: system_inv_def manager_inv_def cancel_inv_def context_done_def)

text \<open>C3: The manager shuts down. In every state the system can reach in which the stopping goroutine was
  launched and the context has ended, because it was cancelled or a goroutine failed, the goroutines
  have only finitely many steps left, in every order; when none is left, all have returned, the
  broadcaster and the server were shut down, and the wait of \<open>Start\<close> ends with the first error of the
  group, which is the one there was, if there was one.\<close>

theorem manager_shuts_down:
  assumes "reachable L clients (m, ps)" and "mg_stopper m \<noteq> StopperUnused" and "mg_ctxDone m"
  shows "(\<forall>n m'. (group_step ^^ n) m m' \<longrightarrow> n \<le> work m) \<and>
    (\<forall>m'. group_step\<^sup>*\<^sup>* m m' \<and> (\<nexists>m''. group_step m' m'') \<longrightarrow>
       group_done m' \<and> mg_srvShutdown m' \<and> ShutdownBroadcaster \<in> set (mg_broadcasts m') \<and>
       run errG_Wait m' = (Normal (mg_firstErr m'), m') \<and> (mg_firstErr m \<noteq> None \<longrightarrow> mg_firstErr m' = mg_firstErr m))"
proof (intro conjI allI impI)
  fix n m'
  assume "(group_step ^^ n) m m'"
  from work_bounds [OF this] show "n \<le> work m" by simp
next
  fix m'
  assume m': "group_step\<^sup>*\<^sup>* m m' \<and> (\<nexists>m''. group_step m' m'')"
  have "manager_inv UNIV m" using reachable_inv [OF assms(1) subset_UNIV] by (simp add: system_inv_def)
  with m' group_steps_keep have kept: "keeps_going m m'" and inv: "manager_inv UNIV m'" by blast+
  from inv have si: "stop_inv m'" by (simp add: manager_inv_def)
  from kept assms have ctx: "mg_ctxDone m'" "mg_stopper m' \<noteq> StopperUnused" by (simp_all add: keeps_going_def)
  from stuck_is_done [OF si ctx] m' have "group_done m'" "mg_stopper m' = StopperEnded" by blast+
  moreover have "m'\<lparr>mg_ctxDone := True\<rparr> = m'" using ctx(1) by (cases m') simp
  ultimately show "group_done m'" "mg_srvShutdown m'" "ShutdownBroadcaster \<in> set (mg_broadcasts m')"
    "run errG_Wait m' = (Normal (mg_firstErr m'), m')"
    using si by (simp_all add: stop_inv_def errG_Wait_def)
  show "mg_firstErr m' = mg_firstErr m" if "mg_firstErr m \<noteq> None" using that kept by (simp add: keeps_going_def)
qed

text \<open>C25: A start with no other call running. Of a new manager it adds the health checks and launches the
  goroutines of the controllers in the order given, launches the goroutines that serve, broadcast and
  stop, closes the channel given to it, and waits. If the context has already ended it launches the
  first controller only, closes the channel and returns the error of the context, and nothing will
  stop the manager. A second start returns an error and changes nothing: its channel stays open.\<close>

theorem manager_start_outcomes:
  fixes m :: "('c, 'm) manager"
  shows "(mg_errG m \<longrightarrow> run (Manager_Start L ch cs) m = (Normal (Some (Errorf ''manager already started'')), m)) \<and>
    (\<not> mg_errG m \<and> mg_once m = OnceNew \<and> n \<notin> set (mg_closed m) \<and> \<not> mg_ctxDone m \<longrightarrow> (\<exists>m'. run (Manager_Start L (Some n) cs) m = (Panicked blocked, m') \<and>
       mg_goroutines m' = mg_goroutines m @ map (\<lambda>c. (c, Spawned)) cs \<and>
       mg_healthz m' = fold (\<lambda>c. AddHealthChecker (ml_Name L) (ml_install L) (ml_order L) [c]) cs (mg_healthz m) \<and>
       mg_server m' = Serving \<and> mg_broadcasting m' = BroadcasterLaunched \<and> mg_stopper m' = WaitingForContext \<and>
       mg_errG m' \<and> mg_once m' = OnceDone \<and> mg_closed m' = n # mg_closed m)) \<and>
    (\<not> mg_errG m \<and> mg_once m = OnceNew \<and> n \<notin> set (mg_closed m) \<and> mg_ctxDone m \<longrightarrow> (\<exists>m'. run (Manager_Start L (Some n) (c # cs)) m =
         (Normal (Some (External ''context canceled'')), m') \<and>
       mg_goroutines m' = mg_goroutines m @ [(c, Spawned)] \<and> mg_stopper m' = mg_stopper m \<and> mg_server m' = mg_server m \<and>
       mg_errG m' \<and> mg_once m' = OnceDone \<and> mg_closed m' = n # mg_closed m))"
proof (intro conjI impI)
  assume "mg_errG m"
  then show "run (Manager_Start L ch cs) m = (Normal (Some (Errorf ''manager already started'')), m)"
    by (simp add: Manager_Start_def)
next
  assume fresh: "\<not> mg_errG m \<and> mg_once m = OnceNew \<and> n \<notin> set (mg_closed m) \<and> \<not> mg_ctxDone m"
  let ?m = "m\<lparr>mg_once := OnceRunning, mg_errG := True\<rparr>"
  have "run (go_loop L cs) ?m = (Normal None, fold (\<lambda>c m. spawn c (add_check L c m)) cs ?m)"
    using fresh by (intro run_go_loop) simp
  then show "\<exists>m'. run (Manager_Start L (Some n) cs) m = (Panicked blocked, m') \<and>
       mg_goroutines m' = mg_goroutines m @ map (\<lambda>c. (c, Spawned)) cs \<and>
       mg_healthz m' = fold (\<lambda>c. AddHealthChecker (ml_Name L) (ml_install L) (ml_order L) [c]) cs (mg_healthz m) \<and>
       mg_server m' = Serving \<and> mg_broadcasting m' = BroadcasterLaunched \<and> mg_stopper m' = WaitingForContext \<and>
       mg_errG m' \<and> mg_once m' = OnceDone \<and> mg_closed m' = n # mg_closed m"
    using fresh
    by (simp add: Manager_Start_def once_Do_def once_enter_def start_once_def Manager_Go_def close_channel_def errG_Wait_def
        group_done_def launched_controllers List.insert_def)
next
  assume "\<not> mg_errG m \<and> mg_once m = OnceNew \<and> n \<notin> set (mg_closed m) \<and> mg_ctxDone m"
  then show "\<exists>m'. run (Manager_Start L (Some n) (c # cs)) m = (Normal (Some (External ''context canceled'')), m') \<and>
       mg_goroutines m' = mg_goroutines m @ [(c, Spawned)] \<and> mg_stopper m' = mg_stopper m \<and> mg_server m' = mg_server m \<and>
       mg_errG m' \<and> mg_once m' = OnceDone \<and> mg_closed m' = n # mg_closed m"
    by (simp add: Manager_Start_def once_Do_def once_enter_def start_once_def Manager_Go_def close_channel_def
        add_check_def spawn_def List.insert_def)
qed

text \<open>C32: \<open>Cancel\<close> can miss a controller it is asked to stop. The system can reach a state in which a
  call of \<open>Go\<close> and a later call of \<open>Cancel\<close> for the same controller have returned, the controller's
  health check is gone, and the controller runs with a live context and no cancel function left
  to stop it.\<close>

theorem cancel_can_miss_a_controller:
  "\<exists>m p. reachable L [[CallStart (Some 0) []], [CallGo [c], CallCancel [c]]] (m, [p, Return ()]) \<and>
     mg_goroutines m = [(c, Running)] \<and> \<not> context_done m 0 \<and> mg_cancelFuncs m = [] \<and>
     ml_Name L c \<notin> fst ` set (checks_of (mg_healthz m))"
proof -
  let ?es = "replicate 3 (EvCall 0) @ replicate 5 (EvCall 1) @ [EvRegister 0] @ replicate 2 (EvCall 1)"
  obtain m p where m: "exec ?es (NewManager L [] None None, map (client L) [[CallStart (Some 0) []], [CallGo [c], CallCancel [c]]]) =
      Some (m, [p, Return ()])"
    and "mg_goroutines m = [(c, Running)]" "mg_cancelled m = []" "mg_ctxDone m = False" "mg_cancelFuncs m = []"
    and "checks_of (mg_healthz m) = []"
    by (simp add: eval_nat_numeral manager_call_defs)
  with reachable_exec [OF m] show ?thesis by (auto simp: context_done_def)
qed

text \<open>Two starts at the same time. When both find the manager unstarted, one of them initializes it and
  the other one, which waits for it, then closes its own channel and waits for the goroutines: its
  controllers are neither started nor is an error returned.\<close>

theorem concurrent_start_drops_controllers:
  "\<exists>m p q. reachable L [[CallStart (Some 0) [c]], [CallStart (Some 1) [d]]] (m, [p, q]) \<and>
     mg_goroutines m = [(c, Spawned)] \<and> set (mg_closed m) = {0, 1} \<and>
     run q m = (Panicked blocked, m)"
proof -
  let ?es = "[EvCall 1] @ replicate 12 (EvCall 0) @ replicate 2 (EvCall 1)"
  obtain m p q where m: "exec ?es (NewManager L [] None None, map (client L) [[CallStart (Some 0) [c]], [CallStart (Some 1) [d]]]) =
      Some (m, [p, q])"
    and rest: "mg_goroutines m = [(c, Spawned)]" "mg_closed m = [1, 0]" "run q m = (Panicked blocked, m)"
    by (simp add: eval_nat_numeral manager_call_defs group_done_def)
  then have "set (mg_closed m) = {0, 1}" by auto
  with reachable_exec [OF m] show ?thesis using rest by blast
qed

section \<open>Witnesses\<close>

definition demo_manager_lib :: "(string, string list) manager_lib" where
  "demo_manager_lib = \<lparr>ml_Name = (\<lambda>c. c), ml_install = (\<lambda>cs. cs), ml_order = (\<lambda>m. m), ml_NewBroadcaster = 0\<rparr>"

theorem cancel_reaches_only_its_targets_witness:
  "\<exists>m ps. reachable demo_manager_lib [[CallStart (Some 0) [''a'']], [CallCancel [''a'']]] (m, ps) \<and>
     context_done m 0 \<and> \<not> mg_ctxDone m \<and> fst (mg_goroutines m ! 0) \<in> {''a''}"
proof -
  let ?es = "replicate 7 (EvCall 0) @ [EvRegister 0] @ replicate 2 (EvCall 1)"
  obtain m ps where m: "exec ?es (NewManager demo_manager_lib [] None None,
      map (client demo_manager_lib) [[CallStart (Some 0) [''a'']], [CallCancel [''a'']]]) = Some (m, ps)"
    and "mg_cancelled m = [0]" "mg_ctxDone m = False"
    by (simp add: eval_nat_numeral manager_call_defs)
  moreover note r = reachable_exec [OF m]
  moreover have "context_done m 0" "\<not> mg_ctxDone m" using calculation by (simp_all add: context_done_def)
  ultimately show ?thesis using cancel_reaches_only_its_targets [OF r] by auto
qed

theorem manager_shuts_down_witness:
  "\<exists>m ps. reachable demo_manager_lib [[CallStart (Some 0) [''a'']]] (m, ps) \<and>
     mg_firstErr m = Some (External ''address already in use'') \<and>
     (\<forall>m'. group_step\<^sup>*\<^sup>* m m' \<and> (\<nexists>m''. group_step m' m'') \<longrightarrow>
        run errG_Wait m' = (Normal (Some (External ''address already in use'')), m'))"
proof -
  let ?es = "replicate 12 (EvCall 0) @ [EvServe (External ''address already in use'')]"
  obtain m ps where m: "exec ?es (NewManager demo_manager_lib [] None None,
      map (client demo_manager_lib) [[CallStart (Some 0) [''a'']]]) = Some (m, ps)"
    and "mg_stopper m = WaitingForContext" "mg_ctxDone m" "mg_firstErr m = Some (External ''address already in use'')"
    by (simp add: eval_nat_numeral manager_call_defs listen_returns_def server_returns_def group_error_def
        http_ErrServerClosed_def)
  with reachable_exec [OF m] manager_shuts_down [OF reachable_exec [OF m]] show ?thesis by auto
qed

theorem manager_start_outcomes_witness:
  "\<exists>m'. run (Manager_Start demo_manager_lib (Some 3) [''a'', ''b'']) (NewManager demo_manager_lib [] None None) =
       (Panicked blocked, m') \<and>
     mg_goroutines m' = [(''a'', Spawned), (''b'', Spawned)] \<and> mg_closed m' = [3]"
  using manager_start_outcomes [of "NewManager demo_manager_lib [] None None" demo_manager_lib None "[''a'', ''b'']" 3]
  by (auto simp: NewManager_def)

end
