(* ===== verification/Metrics.thy ===== *)
theory Metrics
  imports Conditions Go_Library "HOL-Library.Word"
begin

text \<open>
  The package \<open>metrics\<close> (metrics/condition_metrics.go): the collector that reports how many objects
  are in each condition, and for how long.

  The channel of metrics and the local variable \<open>totalErrors\<close>, which the deferred function reads, are
  the world. The listers are callbacks on it. A metric is its description, its value and its label
  values; a value is a count or a duration in nanoseconds, before the conversion to a float. The
  counters of conditions are 16-bit words. \<open>time.Now\<close> is given by the two arguments \<open>collectTime\<close> and
  \<open>duration\<close>. A description is named by the field of the collector that points to it; \<open>prometheus.BuildFQName\<close>
  is a parameter.
\<close>

datatype metric_desc = ObjectCount | ObjectConditionCount | ObjectTimeInCondition | CollectorTime | CollectorErrors

datatype metric_value = Count nat | Nanoseconds int

record metric =
  me_desc :: metric_desc
  me_value :: metric_value
  me_labels :: "string list"

record collect_world =
  co_ch :: "metric list"
  co_totalErrors :: nat

type_synonym named_resource = "namespaced_name \<times> resource"

type_synonym lister_builder = "(error + named_resource list, collect_world) proc"

record metric_description =
  md_fqName :: string
  md_help :: string
  md_labels :: "string list"

record ConditionStatusCollector =
  csc_listerBuilders :: "lister_builder list"
  csc_desc :: "metric_desc \<Rightarrow> metric_description"

text \<open>The five fields that \<open>NewConditionStatusCollector\<close> sets.\<close>

fun new_desc ::
    "(string \<Rightarrow> string \<Rightarrow> string \<Rightarrow> string) \<Rightarrow> string \<Rightarrow> string \<Rightarrow> string \<Rightarrow> metric_desc \<Rightarrow> metric_description" where
  "new_desc buildFQName namespace subsystem resourceName ObjectCount =
     \<lparr>md_fqName = buildFQName namespace subsystem ''count'',
      md_help = ''Gauge showing the number of '' @ resourceName @ '' managed by this operator'', md_labels = []\<rparr>"
| "new_desc buildFQName namespace subsystem resourceName ObjectConditionCount =
     \<lparr>md_fqName = buildFQName namespace subsystem ''condition_count'',
      md_help = ''Gauge showing the number of '' @ resourceName @ '' with each type of condition'',
      md_labels = [''condition'']\<rparr>"
| "new_desc buildFQName namespace subsystem resourceName ObjectTimeInCondition =
     \<lparr>md_fqName = buildFQName namespace subsystem ''condition_time_seconds'',
      md_help = ''Gauge showing the amount of time '' @ resourceName @ '' have spent in the current condition'',
      md_labels = [''condition'', ''object'']\<rparr>"
| "new_desc buildFQName namespace subsystem resourceName CollectorTime =
     \<lparr>md_fqName = buildFQName namespace (subsystem @ ''_status_collector'') ''execution_seconds'',
      md_help = ''Amount of time spent on the last run of the '' @ resourceName @ '' status collector'', md_labels = []\<rparr>"
| "new_desc buildFQName namespace subsystem resourceName CollectorErrors =
     \<lparr>md_fqName = buildFQName namespace (subsystem @ ''_status_collector'') ''errors_count'',
      md_help = ''Number of errors encountered on the last run of the '' @ resourceName @ '' status collector'', md_labels = []\<rparr>"

definition NewConditionStatusCollector ::
    "(string \<Rightarrow> string \<Rightarrow> string \<Rightarrow> string) \<Rightarrow> string \<Rightarrow> string \<Rightarrow> string \<Rightarrow> ConditionStatusCollector" where
  "NewConditionStatusCollector buildFQName namespace subsystem resourceName =
     \<lparr>csc_listerBuilders = [], csc_desc = new_desc buildFQName namespace subsystem resourceName\<rparr>"

definition AddListerBuilder :: "lister_builder \<Rightarrow> ConditionStatusCollector \<Rightarrow> ConditionStatusCollector" where
  "AddListerBuilder lb c = c\<lparr>csc_listerBuilders := csc_listerBuilders c @ [lb]\<rparr>"

definition DescribeWithStability :: "metric_desc list" where
  "DescribeWithStability = [ObjectCount, ObjectConditionCount, ObjectTimeInCondition, CollectorTime, CollectorErrors]"

definition send :: "metric_desc \<Rightarrow> metric_value \<Rightarrow> string list \<Rightarrow> (unit, collect_world) proc" where
  "send d v ls = modify (\<lambda>w. w\<lparr>co_ch := co_ch w @ [\<lparr>me_desc = d, me_value = v, me_labels = ls\<rparr>]\<rparr>)"

type_synonym counters = "(string, 16 word) gomap"

text \<open>\<open>objectsWithCondition[t]++\<close>\<close>

definition increment :: "string \<Rightarrow> counters \<Rightarrow> counters" where
  "increment t m = AList.update t ((case map_of m t of None \<Rightarrow> 0 | Some n \<Rightarrow> n) + 1) m"

fun conditions_loop ::
    "int \<Rightarrow> string \<Rightarrow> condition list \<Rightarrow> counters \<Rightarrow> (counters, collect_world) proc" where
  "conditions_loop collectTime objectName [] counts = Return counts"
| "conditions_loop collectTime objectName (c # cs) counts =
     andthen (send ObjectTimeInCondition (Nanoseconds (collectTime - LastTransitionTime c)) [Type c, objectName])
       (conditions_loop collectTime objectName cs (increment (Type c) counts))"

fun objects_loop :: "int \<Rightarrow> named_resource list \<Rightarrow> counters \<Rightarrow> (counters, collect_world) proc" where
  "objects_loop collectTime [] counts = Return counts"
| "objects_loop collectTime (ob # obs) counts =
     (case GetStatusConditions (snd ob) of
        None \<Rightarrow> Panic ''invalid memory address or nil pointer dereference''
      | Some cs \<Rightarrow>
          bind (conditions_loop collectTime (nn_String (fst ob)) cs counts) (objects_loop collectTime obs))"

fun counts_loop :: "counters \<Rightarrow> (unit, collect_world) proc" where
  "counts_loop [] = Return ()"
| "counts_loop ((conditionType, n) # counts) =
     andthen (send ObjectConditionCount (Count (unat n)) [conditionType]) (counts_loop counts)"

fun listers_loop ::
    "(counters \<Rightarrow> counters) \<Rightarrow> int \<Rightarrow> lister_builder list \<Rightarrow> (unit, collect_world) proc" where
  "listers_loop ord collectTime [] = Return ()"
| "listers_loop ord collectTime (lb # lbs) =
     bind lb (\<lambda>r.
       case r of
         Inl err \<Rightarrow>
           andthen (modify (\<lambda>w. w\<lparr>co_totalErrors := co_totalErrors w + 1\<rparr>)) (listers_loop ord collectTime lbs)
       | Inr objs \<Rightarrow>
           andthen (send ObjectCount (Count (length objs)) [])
             (bind (objects_loop collectTime objs []) (\<lambda>counts.
               andthen (counts_loop (ord counts)) (listers_loop ord collectTime lbs))))"

definition CollectWithStability ::
    "(counters \<Rightarrow> counters) \<Rightarrow> int \<Rightarrow> int \<Rightarrow> ConditionStatusCollector \<Rightarrow> (unit, collect_world) proc" where
  "CollectWithStability ord collectTime duration c =
     andthen (modify (\<lambda>w. w\<lparr>co_totalErrors := 0\<rparr>))
       (deferred (listers_loop ord collectTime (csc_listerBuilders c))
         (andthen (send CollectorTime (Nanoseconds duration) [])
           (bind (gets co_totalErrors) (\<lambda>n. send CollectorErrors (Count n) []))))"

section \<open>Lemmas\<close>

lemma run_send [simp]:
  "run (send d v ls) w = (Normal (), w\<lparr>co_ch := co_ch w @ [\<lparr>me_desc = d, me_value = v, me_labels = ls\<rparr>]\<rparr>)"
  by (simp add: send_def)

definition cond_metrics :: "int \<Rightarrow> string \<Rightarrow> condition list \<Rightarrow> metric list" where
  "cond_metrics t nm cs =
     map (\<lambda>c. \<lparr>me_desc = ObjectTimeInCondition, me_value = Nanoseconds (t - LastTransitionTime c),
                me_labels = [Type c, nm]\<rparr>) cs"

definition conds :: "resource \<Rightarrow> condition list" where
  "conds r = (case GetStatusConditions r of None \<Rightarrow> [] | Some cs \<Rightarrow> cs)"

lemma run_conditions_loop:
  "run (conditions_loop t nm cs counts) w =
     (Normal (fold (\<lambda>c. increment (Type c)) cs counts), w\<lparr>co_ch := co_ch w @ cond_metrics t nm cs\<rparr>)"
  by (induction cs arbitrary: counts w) (simp_all add: cond_metrics_def)

lemma run_objects_loop:
  assumes "list_all (\<lambda>ob. GetStatusConditions (snd ob) \<noteq> None) obs"
  shows "run (objects_loop t obs counts) w =
     (Normal (fold (\<lambda>c. increment (Type c)) (concat (map (conds \<circ> snd) obs)) counts),
      w\<lparr>co_ch := co_ch w @ concat (map (\<lambda>ob. cond_metrics t (nn_String (fst ob)) (conds (snd ob))) obs)\<rparr>)"
  using assms by (induction obs arbitrary: counts w) (auto simp: run_conditions_loop conds_def)

lemma objects_loop_panics:
  assumes "\<not> list_all (\<lambda>ob. GetStatusConditions (snd ob) \<noteq> None) obs"
  shows "\<exists>msg w'. run (objects_loop t obs counts) w = (Panicked msg, w') \<and> co_totalErrors w' = co_totalErrors w"
  using assms
proof (induction obs arbitrary: counts w)
  case Nil
  then show ?case by simp
next
  case (Cons ob obs)
  show ?case
  proof (cases "GetStatusConditions (snd ob)")
    case None
    then show ?thesis by simp
  next
    case (Some cs)
    with Cons show ?thesis by (fastforce simp: run_conditions_loop)
  qed
qed

lemma run_counts_loop:
  "run (counts_loop counts) w =
     (Normal (), w\<lparr>co_ch := co_ch w @ map (\<lambda>(ty, n). \<lparr>me_desc = ObjectConditionCount, me_value = Count (unat n),
        me_labels = [ty]\<rparr>) counts\<rparr>)"
  by (induction counts arbitrary: w rule: counts_loop.induct) simp_all

text \<open>The counters after a run over conditions: the number of conditions of each type, modulo 2^16.\<close>

lemma map_of_increments:
  "map_of (fold (\<lambda>c. increment (Type c)) cs m) t =
     (if t \<in> Type ` set cs
      then Some ((case map_of m t of None \<Rightarrow> 0 | Some n \<Rightarrow> n) + of_nat (count_list (map Type cs) t))
      else map_of m t)"
proof (induction cs arbitrary: m)
  case Nil
  show ?case by simp
next
  case (Cons c cs)
  then show ?case by (auto simp: increment_def update_conv' split: option.splits)
qed

lemma gomap_ok_increments: "gomap_ok m \<Longrightarrow> gomap_ok (fold (\<lambda>c. increment (Type c)) cs m)"
  by (induction cs arbitrary: m) (auto simp: increment_def)

lemma map_of_map_unat: "map_of (map (\<lambda>(ty, n). (ty, unat n)) m) t = map_option unat (map_of m t)"
  by (induction m) auto

definition collector_metrics :: "int \<Rightarrow> nat \<Rightarrow> metric list" where
  "collector_metrics duration errs =
     [\<lparr>me_desc = CollectorTime, me_value = Nanoseconds duration, me_labels = []\<rparr>,
      \<lparr>me_desc = CollectorErrors, me_value = Count errs, me_labels = []\<rparr>]"

text \<open>Every metric on the channel has as many label values as its description has labels.\<close>

definition labelled :: "ConditionStatusCollector \<Rightarrow> collect_world \<Rightarrow> bool" where
  "labelled c w \<longleftrightarrow> (\<forall>me \<in> set (co_ch w). length (me_labels me) = length (md_labels (csc_desc c (me_desc me))))"

lemma labelled_send: "length ls = length (md_labels (csc_desc c d)) \<Longrightarrow> keeps (labelled c) (send d v ls)"
  unfolding send_def by (rule keeps_modify) (auto simp: labelled_def)

lemma labelled_totalErrors: "keeps (labelled c) (modify (\<lambda>w. w\<lparr>co_totalErrors := f w\<rparr>))"
  by (rule keeps_modify) (simp add: labelled_def)

text \<open>Code made of sends keeps what every send keeps.\<close>

lemma keeps_conditions_loop:
  "(\<And>v x y. keeps I (send ObjectTimeInCondition v [x, y])) \<Longrightarrow> keeps I (conditions_loop t objectName cs counts)"
  by (induction cs arbitrary: counts) (auto intro!: keeps_intros)

lemma keeps_objects_loop:
  "(\<And>v x y. keeps I (send ObjectTimeInCondition v [x, y])) \<Longrightarrow> keeps I (objects_loop t obs counts)"
  by (induction obs arbitrary: counts) (auto intro!: keeps_intros keeps_conditions_loop split: option.split)

lemma keeps_counts_loop: "(\<And>v x. keeps I (send ObjectConditionCount v [x])) \<Longrightarrow> keeps I (counts_loop counts)"
  by (induction counts) (auto intro!: keeps_intros)

lemma keeps_listers_loop:
  assumes "\<And>v x y. keeps I (send ObjectTimeInCondition v [x, y])" and "\<And>v x. keeps I (send ObjectConditionCount v [x])"
    and "\<And>v. keeps I (send ObjectCount v [])" and "keeps I (modify (\<lambda>w. w\<lparr>co_totalErrors := co_totalErrors w + 1\<rparr>))"
    and "\<And>lb. lb \<in> set lbs \<Longrightarrow> keeps I lb"
  shows "keeps I (listers_loop ord t lbs)"
  using assms(5)
  by (induction lbs) (auto intro!: keeps_intros keeps_objects_loop keeps_counts_loop assms(1-3) assms(4) [simplified] split: sum.split)

section \<open>Properties\<close>


text \<open>The metrics fit their descriptions: whatever the listers return, and also when the collector panics,
  every metric on the channel has one value for each label of its description.\<close>

theorem metrics_fit_their_descriptions:
  assumes "csc_desc c = new_desc buildFQName namespace subsystem resourceName"
    and "\<And>lb. lb \<in> set (csc_listerBuilders c) \<Longrightarrow> keeps (labelled c) lb" and "labelled c w"
  shows "labelled c (snd (run (CollectWithStability ord t duration c) w))"
proof -
  have "keeps (labelled c) (listers_loop ord t (csc_listerBuilders c))"
    using assms(2) by (intro keeps_listers_loop labelled_send labelled_totalErrors) (auto simp: assms(1))
  then have "keeps (labelled c) (CollectWithStability ord t duration c)"
    unfolding CollectWithStability_def
    by (intro keeps_intros keeps_simps labelled_send labelled_totalErrors) (simp_all add: assms(1))
  then show ?thesis using assms(3) by (rule keeps_run)
qed

section \<open>Witnesses\<close>

definition demo_collector :: ConditionStatusCollector where
  "demo_collector = NewConditionStatusCollector (\<lambda>ns sub nm. ns @ ''_'' @ sub @ ''_'' @ nm) ''authzed'' ''cluster'' ''clusters''"

theorem metrics_fit_their_descriptions_witness:
  "labelled demo_collector (snd (run (CollectWithStability rev 5 1 (AddListerBuilder (Return (Inl (External ''cache''))) demo_collector))
     \<lparr>co_ch = [], co_totalErrors = 0\<rparr>))"
  using metrics_fit_their_descriptions [of "AddListerBuilder (Return (Inl (External ''cache''))) demo_collector"
      "\<lambda>ns sub nm. ns @ ''_'' @ sub @ ''_'' @ nm" "''authzed''" "''cluster''" "''clusters''" "\<lparr>co_ch = [], co_totalErrors = 0\<rparr>" rev 5 1]
  by (simp add: AddListerBuilder_def demo_collector_def NewConditionStatusCollector_def labelled_def)


end
