(* ===== verification/Bootstrap.thy ===== *)
theory Bootstrap
  imports Go_Library "HOL-Library.Word"
begin

text \<open>
  The objects a controller brings with it (bootstrap/resource.go): \<open>ResourceFromFile\<close> applies the
  documents of a file to the cluster unless the file has the hash of the last application.

  The file system, the YAML decoder, the JSON encoder, the hash function and the dynamic client are
  parameters. The decoder reads from the bytes not read yet and returns those it leaves. An object is
  \<open>None\<close> when the pointer it was decoded into is still nil. Log calls are not modelled.
\<close>

section \<open>Patches\<close>

text \<open>\<open>types.PatchType\<close> is a string.\<close>

definition ApplyPatchType :: string where
  "ApplyPatchType = ''application/apply-patch+yaml''"

record patch_options =
  po_DryRun :: "string list"
  po_Force :: "bool option"
  po_FieldManager :: string

text \<open>\<open>dclient.Resource(gvr).Namespace(ns).Patch(ctx, name, pt, data, options)\<close>.\<close>

type_synonym ('r, 'w) patch_client =
  "gvr \<Rightarrow> string \<Rightarrow> string \<Rightarrow> string \<Rightarrow> string \<Rightarrow> patch_options \<Rightarrow> (error + 'r, 'w) proc"

section \<open>ResourceFromFile\<close>

record ('f, 'o, 'r, 'w) boot_lib =
  os_Open :: "string \<Rightarrow> (error + 'f, 'w) proc"
  os_Close :: "'f \<Rightarrow> (error option, 'w) proc"
  io_ReadAll :: "'f \<Rightarrow> (error + string, 'w) proc"
  boot_HandleError :: "error \<Rightarrow> (unit, 'w) proc"
  boot_Sum64 :: "string \<Rightarrow> 64 word"
  yaml_Decode :: "string \<Rightarrow> (error + 'o option) \<times> string"
  json_Marshal :: "'o option \<Rightarrow> error + string"
  o_GetNamespace :: "'o \<Rightarrow> string"
  o_GetName :: "'o \<Rightarrow> string"
  dc_Patch :: "('r, 'w) patch_client"

definition utilruntime_HandleError :: "('f, 'o, 'r, 'w) boot_lib \<Rightarrow> error option \<Rightarrow> (unit, 'w) proc" where
  "utilruntime_HandleError L err = (case err of None \<Rightarrow> Return () | Some e \<Rightarrow> boot_HandleError L e)"

text \<open>\<open>f.Close()\<close>: closing the nil file of a failed \<open>os.Open\<close> is an error.\<close>

definition File_Close :: "('f, 'o, 'r, 'w) boot_lib \<Rightarrow> error + 'f \<Rightarrow> (error option, 'w) proc" where
  "File_Close L f = (case f of Inl _ \<Rightarrow> Return (Some os_ErrInvalid) | Inr h \<Rightarrow> os_Close L h)"

definition boot_patch_options :: "string \<Rightarrow> patch_options" where
  "boot_patch_options fieldManager = \<lparr>po_DryRun = [], po_Force = Some True, po_FieldManager = fieldManager\<rparr>"

definition nil_deref :: string where
  "nil_deref = ''invalid memory address or nil pointer dereference''"

text \<open>The body of the loop on an object that was decoded; the result \<open>None\<close> means the loop goes on.\<close>

definition apply_document ::
    "('f, 'o, 'r, 'w) boot_lib \<Rightarrow> string \<Rightarrow> gvr \<Rightarrow> 'o option \<Rightarrow> (error option, 'w) proc" where
  "apply_document L fieldManager g objectDef =
     (case json_Marshal L objectDef of
        Inl e \<Rightarrow> Return (Some e)
      | Inr data \<Rightarrow>
          (case objectDef of
             None \<Rightarrow> Panic nil_deref
           | Some ob \<Rightarrow>
               bind (dc_Patch L g (o_GetNamespace L ob) (o_GetName L ob) ApplyPatchType data
                       (boot_patch_options fieldManager))
                 (\<lambda>res. Return (case res of Inl e \<Rightarrow> Some e | Inr _ \<Rightarrow> None))))"

text \<open>The decoding loop, for at most \<open>n\<close> rounds.\<close>

primrec apply_documents ::
    "nat \<Rightarrow> ('f, 'o, 'r, 'w) boot_lib \<Rightarrow> string \<Rightarrow> gvr \<Rightarrow> 64 word \<Rightarrow> string \<Rightarrow>
     (64 word \<times> error option, 'w) proc" where
  "apply_documents 0 L fieldManager g hash r = Panic ''no rounds left''"
| "apply_documents (Suc n) L fieldManager g hash r =
     (case yaml_Decode L r of
        (Inl e, r') \<Rightarrow> Return (hash, if errors_Is e io_EOF then None else Some e)
      | (Inr objectDef, r') \<Rightarrow>
          bind (apply_document L fieldManager g objectDef) (\<lambda>err.
            case err of
              Some e \<Rightarrow> Return (hash, Some e)
            | None \<Rightarrow> apply_documents n L fieldManager g hash r'))"

definition ResourceFromFile ::
    "('f, 'o, 'r, 'w) boot_lib \<Rightarrow> string \<Rightarrow> gvr \<Rightarrow> string \<Rightarrow> 64 word \<Rightarrow> (64 word \<times> error option, 'w) proc" where
  "ResourceFromFile L fieldManager g configPath lastHash =
     (if configPath = [] then Return (0, None)
      else
        bind (os_Open L configPath) (\<lambda>f.
          deferred
            (case f of
               Inl err \<Rightarrow> if errors_Is err os_ErrNotExist then Return (0, None) else Return (0, Some err)
             | Inr h \<Rightarrow>
                 bind (io_ReadAll L h) (\<lambda>res.
                   case res of
                     Inl e \<Rightarrow> Return (0, Some e)
                   | Inr contents \<Rightarrow>
                       let hash = boot_Sum64 L contents in
                       if lastHash = hash then Return (hash, None)
                       else apply_documents (Suc (length contents)) L fieldManager g hash contents))
            (bind (File_Close L f) (utilruntime_HandleError L))))"

section \<open>The documents of a file\<close>

text \<open>What successive calls of \<open>Decode\<close> return: objects, then the error that ends the loop.\<close>

inductive decodes :: "('f, 'o, 'r, 'w) boot_lib \<Rightarrow> string \<Rightarrow> 'o option list \<Rightarrow> error \<Rightarrow> bool"
  for L where
  stop: "yaml_Decode L r = (Inl e, r') \<Longrightarrow> decodes L r [] e"
| more: "yaml_Decode L r = (Inr ob, r') \<Longrightarrow> decodes L r' obs e \<Longrightarrow> decodes L r (ob # obs) e"

text \<open>A decoder that makes progress: an object it returns has used up some of the bytes.\<close>

definition consuming :: "('f, 'o, 'r, 'w) boot_lib \<Rightarrow> bool" where
  "consuming L \<longleftrightarrow> (\<forall>r ob r'. yaml_Decode L r = (Inr ob, r') \<longrightarrow> length r' < length r)"

lemma consuming_decodes:
  assumes "consuming L"
  shows "\<exists>obs e. decodes L r obs e"
proof (induction r rule: length_induct)
  case (1 r)
  show ?case
  proof (cases "yaml_Decode L r")
    case (Pair res r')
    show ?thesis
    proof (cases res)
      case (Inl e)
      with Pair show ?thesis by (auto intro: decodes.stop)
    next
      case (Inr ob)
      with Pair assms have "length r' < length r" by (auto simp: consuming_def)
      with 1 obtain obs e where "decodes L r' obs e" by blast
      with Pair Inr show ?thesis by (blast intro: decodes.more)
    qed
  qed
qed

lemma decodes_length: "decodes L r obs e \<Longrightarrow> consuming L \<Longrightarrow> length obs \<le> length r"
proof (induction rule: decodes.induct)
  case (more r ob r' obs e)
  then have "length r' < length r" unfolding consuming_def by blast
  with more show ?case by simp
qed simp

text \<open>The loop as a loop over those documents.\<close>

definition apply_list ::
    "('f, 'o, 'r, 'w) boot_lib \<Rightarrow> string \<Rightarrow> gvr \<Rightarrow> 64 word \<Rightarrow> 'o option list \<Rightarrow> error \<Rightarrow>
     (64 word \<times> error option, 'w) proc" where
  "apply_list L fieldManager g hash obs e =
     bind (for_err (apply_document L fieldManager g) obs) (\<lambda>err.
       Return (hash, case err of Some e' \<Rightarrow> Some e' | None \<Rightarrow> if errors_Is e io_EOF then None else Some e))"

lemma bind_cong_right: "(\<And>a. f a = g a) \<Longrightarrow> bind p f = bind p g"
  by presburger

lemma apply_documents_decodes:
  "decodes L r obs e \<Longrightarrow> length obs < n \<Longrightarrow>
   apply_documents n L fieldManager g hash r = apply_list L fieldManager g hash obs e"
proof (induction arbitrary: n rule: decodes.induct)
  case (stop r e r')
  then show ?case by (cases n) (auto simp: apply_list_def)
next
  case (more r ob r' obs e)
  then obtain m where "n = Suc m" and "length obs < m" by (cases n) auto
  with more show ?case
    by (auto simp: apply_list_def intro!: bind_cong_right split: option.split)
qed

section \<open>Runs over a readable file\<close>

text \<open>The file can be opened, read and closed, and none of these changes the world.\<close>

definition readable :: "('f, 'o, 'r, 'w) boot_lib \<Rightarrow> string \<Rightarrow> string \<Rightarrow> 'w \<Rightarrow> bool" where
  "readable L configPath contents w \<longleftrightarrow>
     (\<exists>h. run (os_Open L configPath) w = (Normal (Inr h), w) \<and>
          run (io_ReadAll L h) w = (Normal (Inr contents), w) \<and>
          (\<forall>w. run (os_Close L h) w = (Normal None, w)))"

lemma run_ResourceFromFile_unchanged:
  assumes "readable L configPath contents w" and "configPath \<noteq> []" and "lastHash = boot_Sum64 L contents"
  shows "run (ResourceFromFile L fieldManager g configPath lastHash) w = (Normal (lastHash, None), w)"
  using assms by (auto simp: readable_def ResourceFromFile_def File_Close_def utilruntime_HandleError_def)

lemma run_ResourceFromFile_changed:
  assumes "readable L configPath contents w" and "configPath \<noteq> []" and "lastHash \<noteq> boot_Sum64 L contents"
    and "consuming L" and "decodes L contents obs e"
  shows "run (ResourceFromFile L fieldManager g configPath lastHash) w =
    run (apply_list L fieldManager g (boot_Sum64 L contents) obs e) w"
proof -
  have "length obs < Suc (length contents)" using decodes_length [OF assms(5,4)] by simp
  from apply_documents_decodes [OF assms(5) this] assms(1,2,3) show ?thesis
    by (auto simp: readable_def ResourceFromFile_def File_Close_def utilruntime_HandleError_def Let_def
        simp del: apply_documents.simps split: prod.split)
qed

text \<open>The patch of one object, by its effect on the world when the client accepts it.\<close>

definition accepts :: "('f, 'o, 'r, 'w) boot_lib \<Rightarrow> string \<Rightarrow> gvr \<Rightarrow> ('o \<Rightarrow> 'w \<Rightarrow> 'w) \<Rightarrow> 'o \<Rightarrow> bool" where
  "accepts L fieldManager g put ob \<longleftrightarrow>
     (\<exists>data. json_Marshal L (Some ob) = Inr data \<and>
        (\<forall>w. \<exists>r. run (dc_Patch L g (o_GetNamespace L ob) (o_GetName L ob) ApplyPatchType data
                        (boot_patch_options fieldManager)) w = (Normal (Inr r), put ob w)))"

lemma run_apply_document_accepts:
  assumes "accepts L fieldManager g put ob"
  shows "run (apply_document L fieldManager g (Some ob)) w = (Normal None, put ob w)"
proof -
  from assms obtain data where "json_Marshal L (Some ob) = Inr data"
    and "\<forall>w. \<exists>r. run (dc_Patch L g (o_GetNamespace L ob) (o_GetName L ob) ApplyPatchType data
                        (boot_patch_options fieldManager)) w = (Normal (Inr r), put ob w)"
    by (auto simp: accepts_def)
  then show ?thesis by (auto simp: apply_document_def dest!: spec [of _ w])
qed

text \<open>A loop whose first objects are accepted goes on with the rest.\<close>

lemma run_for_err_accepted:
  assumes "\<And>ob. ob \<in> set obs \<Longrightarrow> accepts L fieldManager g put ob"
  shows "run (for_err (apply_document L fieldManager g) (map Some obs @ rest)) w =
    run (for_err (apply_document L fieldManager g) rest) (fold put obs w)"
  using assms by (induction obs arbitrary: w) (auto simp: run_apply_document_accepts [where put = put])

lemma run_ResourceFromFile_applied:
  assumes "readable L configPath contents w" and "configPath \<noteq> []" and "lastHash \<noteq> boot_Sum64 L contents"
    and "consuming L" and "decodes L contents (map Some obs) io_EOF"
    and accepted: "\<And>ob. ob \<in> set obs \<Longrightarrow> accepts L fieldManager g put ob"
  shows "run (ResourceFromFile L fieldManager g configPath lastHash) w =
    (Normal (boot_Sum64 L contents, None), fold put obs w)"
  using run_for_err_accepted [OF accepted, of obs "[]" w]
  by (simp add: run_ResourceFromFile_changed [OF assms(1-5)] apply_list_def)

lemma run_ResourceFromFile_rejected:
  assumes "readable L configPath contents w" and "configPath \<noteq> []" and "lastHash \<noteq> boot_Sum64 L contents"
    and "consuming L" and "decodes L contents (map Some before @ Some bad # after) e"
    and accepted: "\<And>ob. ob \<in> set before \<Longrightarrow> accepts L fieldManager g put ob"
    and "json_Marshal L (Some bad) = Inr data"
    and "run (dc_Patch L g (o_GetNamespace L bad) (o_GetName L bad) ApplyPatchType data
           (boot_patch_options fieldManager)) (fold put before w) = (Normal (Inl rejected), w')"
  shows "run (ResourceFromFile L fieldManager g configPath lastHash) w =
    (Normal (boot_Sum64 L contents, Some rejected), w')"
  using run_for_err_accepted [OF accepted, of before "Some bad # after" w] assms(7,8)
  by (simp add: run_ResourceFromFile_changed [OF assms(1-5)] apply_list_def apply_document_def)

section \<open>The contract of an apply client\<close>

text \<open>A document that encodes to good data, and a cluster that holds a document.\<close>

definition good_document ::
    "(gvr \<Rightarrow> string \<Rightarrow> string \<Rightarrow> string \<Rightarrow> bool) \<Rightarrow> ('f, 'o, 'r, 'w) boot_lib \<Rightarrow> gvr \<Rightarrow> 'o \<Rightarrow> bool" where
  "good_document good L g ob \<longleftrightarrow>
     (\<exists>data. json_Marshal L (Some ob) = Inr data \<and> good g (o_GetNamespace L ob) (o_GetName L ob) data)"

definition held ::
    "(gvr \<Rightarrow> string \<Rightarrow> string \<Rightarrow> string \<Rightarrow> 'w \<Rightarrow> bool) \<Rightarrow> ('f, 'o, 'r, 'w) boot_lib \<Rightarrow> gvr \<Rightarrow> 'o \<Rightarrow> 'w \<Rightarrow> bool" where
  "held holds L g ob w \<longleftrightarrow>
     (\<exists>data. json_Marshal L (Some ob) = Inr data \<and> holds g (o_GetNamespace L ob) (o_GetName L ob) data w)"

text \<open>What the application of files relies on: in a good state of the client, a forced apply of good data
  succeeds, leaves a good state in which the cluster holds the data, and says nothing about objects
  of other names.\<close>

locale apply_client =
  fixes patch :: "('r, 'w) patch_client"
    and manager :: string
    and good :: "gvr \<Rightarrow> string \<Rightarrow> string \<Rightarrow> string \<Rightarrow> bool"
    and holds :: "gvr \<Rightarrow> string \<Rightarrow> string \<Rightarrow> string \<Rightarrow> 'w \<Rightarrow> bool"
    and inv :: "'w \<Rightarrow> bool"
  assumes apply_good: "inv w \<Longrightarrow> good g ns nm data \<Longrightarrow>
    \<exists>r w'. run (patch g ns nm ApplyPatchType data (boot_patch_options manager)) w = (Normal (Inr r), w') \<and>
      inv w' \<and> holds g ns nm data w' \<and>
      (\<forall>ns' nm' d. (ns', nm') \<noteq> (ns, nm) \<longrightarrow> holds g ns' nm' d w' = holds g ns' nm' d w)"
begin

lemma apply_document_held:
  assumes "dc_Patch L = patch" and "inv w" and "good_document good L g ob"
  shows "\<exists>w'. run (apply_document L manager g (Some ob)) w = (Normal None, w') \<and> inv w' \<and> held holds L g ob w' \<and>
    (\<forall>ob'. (o_GetNamespace L ob', o_GetName L ob') \<noteq> (o_GetNamespace L ob, o_GetName L ob) \<longrightarrow>
       held holds L g ob' w' = held holds L g ob' w)"
proof -
  from assms(3) obtain data where data: "json_Marshal L (Some ob) = Inr data"
    "good g (o_GetNamespace L ob) (o_GetName L ob) data" by (auto simp: good_document_def)
  from apply_good [OF assms(2) this(2)] obtain r w' where
    "run (patch g (o_GetNamespace L ob) (o_GetName L ob) ApplyPatchType data (boot_patch_options manager)) w = (Normal (Inr r), w')"
    "inv w'" "holds g (o_GetNamespace L ob) (o_GetName L ob) data w'"
    "\<forall>ns' nm' d. (ns', nm') \<noteq> (o_GetNamespace L ob, o_GetName L ob) \<longrightarrow> holds g ns' nm' d w' = holds g ns' nm' d w"
    by blast
  with data assms(1) show ?thesis by (auto simp: apply_document_def held_def)
qed

lemma documents_held:
  assumes "dc_Patch L = patch" and "inv w" and "\<And>ob. ob \<in> set obs \<Longrightarrow> good_document good L g ob"
    and "distinct (map (\<lambda>ob. (o_GetNamespace L ob, o_GetName L ob)) obs)"
  shows "\<exists>w'. run (for_err (apply_document L manager g) (map Some obs)) w = (Normal None, w') \<and> inv w' \<and>
    (\<forall>ob \<in> set obs. held holds L g ob w') \<and>
    (\<forall>ob'. (o_GetNamespace L ob', o_GetName L ob') \<notin> (\<lambda>ob. (o_GetNamespace L ob, o_GetName L ob)) ` set obs \<longrightarrow>
       held holds L g ob' w' = held holds L g ob' w)"
  using assms(2-4)
proof (induction obs arbitrary: w)
  case (Cons ob obs)
  from apply_document_held [OF assms(1) Cons.prems(1), of g ob] Cons.prems(2) obtain w1 where
    w1: "run (apply_document L manager g (Some ob)) w = (Normal None, w1)" "inv w1" "held holds L g ob w1"
      "\<forall>ob'. (o_GetNamespace L ob', o_GetName L ob') \<noteq> (o_GetNamespace L ob, o_GetName L ob) \<longrightarrow>
         held holds L g ob' w1 = held holds L g ob' w" by auto
  with Cons.IH [of w1] Cons.prems obtain w2 where
    w2: "run (for_err (apply_document L manager g) (map Some obs)) w1 = (Normal None, w2)" "inv w2"
      "\<forall>ob \<in> set obs. held holds L g ob w2"
      "\<forall>ob'. (o_GetNamespace L ob', o_GetName L ob') \<notin> (\<lambda>ob. (o_GetNamespace L ob, o_GetName L ob)) ` set obs \<longrightarrow>
         held holds L g ob' w2 = held holds L g ob' w1" by auto
  have "(o_GetNamespace L ob, o_GetName L ob) \<notin> (\<lambda>ob. (o_GetNamespace L ob, o_GetName L ob)) ` set obs"
    using Cons.prems(3) by auto
  with w1 w2 show ?case by auto
qed simp

text \<open>A changed file brings the cluster to hold all its documents.\<close>

lemma ResourceFromFile_held:
  assumes "dc_Patch L = patch" and "inv w" and "readable L configPath contents w" and "configPath \<noteq> []"
    and "lastHash \<noteq> boot_Sum64 L contents" and "consuming L" and "decodes L contents (map Some obs) io_EOF"
    and "\<And>ob. ob \<in> set obs \<Longrightarrow> good_document good L g ob"
    and "distinct (map (\<lambda>ob. (o_GetNamespace L ob, o_GetName L ob)) obs)"
  shows "\<exists>w'. run (ResourceFromFile L manager g configPath lastHash) w = (Normal (boot_Sum64 L contents, None), w') \<and>
    inv w' \<and> (\<forall>ob \<in> set obs. held holds L g ob w')"
  using documents_held [OF assms(1,2,8,9)]
  by (auto simp: run_ResourceFromFile_changed [OF assms(3-7)] apply_list_def)

end

section \<open>Properties\<close>

text \<open>C21: A changed file is applied document by document. When the decoder makes progress and yields
  the objects \<open>obs\<close> and then the end of the file, and the client accepts each of them, every object is
  applied exactly once, in the order of the file, as a forced apply patch of the field manager, and
  the new hash is returned.\<close>

theorem resource_from_file_applies_in_order:
  assumes "readable L configPath contents w" and "configPath \<noteq> []" and "lastHash \<noteq> boot_Sum64 L contents"
    and "consuming L" and "decodes L contents (map Some obs) io_EOF"
    and accepted: "\<And>ob. ob \<in> set obs \<Longrightarrow> accepts L fieldManager g put ob"
  shows "run (ResourceFromFile L fieldManager g configPath lastHash) w =
    (Normal (boot_Sum64 L contents, None), fold put obs w)"
  using assms by (rule run_ResourceFromFile_applied)

text \<open>C22: A document the client rejects ends the application. The objects before it stay applied, those
  after it are not sent, and the error is returned with the hash of the whole file.\<close>

theorem resource_from_file_stops_at_rejection:
  assumes "readable L configPath contents w" and "configPath \<noteq> []" and "lastHash \<noteq> boot_Sum64 L contents"
    and "consuming L" and "decodes L contents (map Some before @ Some bad # after) e"
    and accepted: "\<And>ob. ob \<in> set before \<Longrightarrow> accepts L fieldManager g put ob"
    and "json_Marshal L (Some bad) = Inr data"
    and "run (dc_Patch L g (o_GetNamespace L bad) (o_GetName L bad) ApplyPatchType data
           (boot_patch_options fieldManager)) (fold put before w) = (Normal (Inl rejected), w')"
  shows "run (ResourceFromFile L fieldManager g configPath lastHash) w =
    (Normal (boot_Sum64 L contents, Some rejected), w')"
  using assms by (rule run_ResourceFromFile_rejected)

text \<open>When nothing is applied: an empty path and a file with the hash of the last application
  change nothing and report nothing; a missing file gives the hash 0 and no error, but the deferred
  close of the file that was never opened reports the error \<open>os.ErrInvalid\<close>.\<close>

theorem resource_from_file_early_exits:
  "run (ResourceFromFile L fieldManager g [] lastHash) w = (Normal (0, None), w) \<and>
   (readable L configPath contents w \<and> configPath \<noteq> [] \<longrightarrow>
      run (ResourceFromFile L fieldManager g configPath (boot_Sum64 L contents)) w =
        (Normal (boot_Sum64 L contents, None), w)) \<and>
   (run (os_Open L configPath) w = (Normal (Inl (Wrapped msg os_ErrNotExist)), w') \<and> configPath \<noteq> [] \<and>
    run (boot_HandleError L os_ErrInvalid) w' = (Normal (), w'') \<longrightarrow>
      run (ResourceFromFile L fieldManager g configPath lastHash) w = (Normal (0, None), w''))"
  using run_ResourceFromFile_unchanged [of L configPath contents w]
  by (auto simp: ResourceFromFile_def File_Close_def utilruntime_HandleError_def)

text \<open>A document that decodes to nothing (an empty or commented-out document) leaves the object
  nil: after the documents before it were applied, the method call on it panics, and the hash is not
  returned.\<close>

theorem empty_document_panics:
  assumes "readable L configPath contents w" and "configPath \<noteq> []" and "lastHash \<noteq> boot_Sum64 L contents"
    and "consuming L" and "decodes L contents (map Some before @ None # after) e"
    and accepted: "\<And>ob. ob \<in> set before \<Longrightarrow> accepts L fieldManager g put ob"
    and "json_Marshal L None = Inr data"
  shows "run (ResourceFromFile L fieldManager g configPath lastHash) w =
    (Panicked nil_deref, fold put before w)"
  using run_for_err_accepted [OF accepted, of before "None # after" w] assms(7)
  by (simp add: run_ResourceFromFile_changed [OF assms(1-5)] apply_list_def apply_document_def)

section \<open>Witnesses\<close>

text \<open>A file of one-byte documents, a hash sign for an empty one; a cluster that lists what was applied
  and rejects the object \<open>x\<close>; the errors reported.\<close>

definition demo_put :: "string \<Rightarrow> string list \<times> error list \<Rightarrow> string list \<times> error list" where
  "demo_put ob = (\<lambda>(applied, reported). (applied @ [ob], reported))"

definition demo_boot :: "string \<Rightarrow> (unit, string, unit, string list \<times> error list) boot_lib" where
  "demo_boot contents =
     \<lparr>os_Open = (\<lambda>p. Return (if p = ''f'' then Inr () else Inl (Wrapped (''open '' @ p @ '': '') os_ErrNotExist))),
      os_Close = (\<lambda>_. Return None), io_ReadAll = (\<lambda>_. Return (Inr contents)),
      boot_HandleError = (\<lambda>e. modify (\<lambda>(applied, reported). (applied, reported @ [e]))),
      boot_Sum64 = (\<lambda>s. of_nat (Suc (length s))),
      yaml_Decode = (\<lambda>r. case r of [] \<Rightarrow> (Inl io_EOF, []) | c # r' \<Rightarrow> (Inr (if [c] = ''#'' then None else Some [c]), r')),
      json_Marshal = (\<lambda>ob. Inr (case ob of None \<Rightarrow> ''null'' | Some s \<Rightarrow> s)),
      o_GetNamespace = (\<lambda>_. ''ns''), o_GetName = (\<lambda>ob. ob),
      dc_Patch = (\<lambda>_ _ nm _ _ _. if nm = ''x'' then Return (Inl (External ''rejected''))
                                  else bind (modify (demo_put nm)) (\<lambda>_. Return (Inr ())))\<rparr>"

definition demo_gvr :: gvr where
  "demo_gvr = \<lparr>Group = ''g'', Version = ''v1'', Resource = ''rs''\<rparr>"

lemma demo_boot_sel [simp]:
  "os_Open (demo_boot contents) p =
     Return (if p = ''f'' then Inr () else Inl (Wrapped (''open '' @ p @ '': '') os_ErrNotExist))"
  "boot_HandleError (demo_boot contents) e = modify (\<lambda>(applied, reported). (applied, reported @ [e]))"
  "boot_Sum64 (demo_boot contents) s = of_nat (Suc (length s))"
  "json_Marshal (demo_boot contents) ob = Inr (case ob of None \<Rightarrow> ''null'' | Some s \<Rightarrow> s)"
  "dc_Patch (demo_boot contents) g ns nm pt data opts =
     (if nm = ''x'' then Return (Inl (External ''rejected'')) else bind (modify (demo_put nm)) (\<lambda>_. Return (Inr ())))"
  "o_GetName (demo_boot contents) nm = nm"
  by (simp_all add: demo_boot_def)

lemma demo_boot_consuming: "consuming (demo_boot contents)"
  by (auto simp: consuming_def demo_boot_def split: list.splits)

lemma demo_boot_readable: "readable (demo_boot contents) ''f'' contents w"
  by (simp add: readable_def demo_boot_def)

lemma demo_boot_decodes:
  "decodes (demo_boot contents) r (map (\<lambda>c. if [c] = ''#'' then None else Some [c]) r) io_EOF"
proof (induction r)
  case Nil
  have "yaml_Decode (demo_boot contents) [] = (Inl io_EOF, [])" by (simp add: demo_boot_def)
  then show ?case by (simp add: decodes.stop)
next
  case (Cons c r)
  moreover have "yaml_Decode (demo_boot contents) (c # r) = (Inr (if [c] = ''#'' then None else Some [c]), r)"
    by (simp add: demo_boot_def)
  ultimately show ?case by (simp del: split_paired_All add: decodes.more)
qed

lemma demo_boot_accepts: "ob \<noteq> ''x'' \<Longrightarrow> accepts (demo_boot contents) fieldManager g demo_put ob"
  by (auto simp: accepts_def demo_boot_def)

theorem resource_from_file_applies_in_order_witness:
  "run (ResourceFromFile (demo_boot ''ab'') ''m'' demo_gvr ''f'' 0) ([], []) =
     (Normal (3, None), ([''a'', ''b''], []))"
proof -
  have d: "decodes (demo_boot ''ab'') ''ab'' (map Some [''a'', ''b'']) io_EOF"
    using demo_boot_decodes [of "''ab''" "''ab''"] by simp
  have "run (ResourceFromFile (demo_boot ''ab'') ''m'' demo_gvr ''f'' 0) ([], []) =
     (Normal (boot_Sum64 (demo_boot ''ab'') ''ab'', None), fold demo_put [''a'', ''b''] ([], []))"
    by (rule resource_from_file_applies_in_order [OF demo_boot_readable _ _ demo_boot_consuming d demo_boot_accepts])
      auto
  then show ?thesis by (simp add: demo_put_def)
qed

theorem resource_from_file_stops_at_rejection_witness:
  "run (ResourceFromFile (demo_boot ''axb'') ''m'' demo_gvr ''f'' 0) ([], []) =
     (Normal (4, Some (External ''rejected'')), ([''a''], []))"
proof -
  have d: "decodes (demo_boot ''axb'') ''axb'' (map Some [''a''] @ Some ''x'' # [Some ''b'']) io_EOF"
    using demo_boot_decodes [of "''axb''" "''axb''"] by simp
  have "run (ResourceFromFile (demo_boot ''axb'') ''m'' demo_gvr ''f'' 0) ([], []) =
     (Normal (boot_Sum64 (demo_boot ''axb'') ''axb'', Some (External ''rejected'')), fold demo_put [''a''] ([], []))"
    by (rule resource_from_file_stops_at_rejection [OF demo_boot_readable _ _ demo_boot_consuming d demo_boot_accepts])
      simp_all
  then show ?thesis by (simp add: demo_put_def)
qed

theorem resource_from_file_early_exits_witness:
  "run (ResourceFromFile (demo_boot ''ab'') ''m'' demo_gvr ''f'' 3) ([], []) = (Normal (3, None), ([], [])) \<and>
   run (ResourceFromFile (demo_boot ''ab'') ''m'' demo_gvr ''missing'' 3) ([], []) =
     (Normal (0, None), ([], [os_ErrInvalid]))"
  using resource_from_file_early_exits [of "demo_boot ''ab''" "''m''" demo_gvr 3 "([], [])" "''f''" "''ab''"]
    resource_from_file_early_exits [of "demo_boot ''ab''" "''m''" demo_gvr 3 "([], [])" "''missing''" "''ab''"
      "''open missing: ''" "([], [])" "([], [os_ErrInvalid])"]
    demo_boot_readable [of "''ab''" "([], [])"]
  by simp

theorem empty_document_panics_witness:
  "run (ResourceFromFile (demo_boot ''a#b'') ''m'' demo_gvr ''f'' 0) ([], []) = (Panicked nil_deref, ([''a''], []))"
proof -
  have d: "decodes (demo_boot ''a#b'') ''a#b'' (map Some [''a''] @ None # [Some ''b'']) io_EOF"
    using demo_boot_decodes [of "''a#b''" "''a#b''"] by simp
  have "run (ResourceFromFile (demo_boot ''a#b'') ''m'' demo_gvr ''f'' 0) ([], []) =
      (Panicked nil_deref, fold demo_put [''a''] ([], []))"
    by (rule empty_document_panics [OF demo_boot_readable _ _ demo_boot_consuming d demo_boot_accepts])
      simp_all
  then show ?thesis by (simp add: demo_put_def)
qed

end
