(* ===== verification/Crd_Types.thy ===== *)
theory Crd_Types
  imports Go_Library
begin

text \<open>
  What the sources use of \<open>apiextensionsv1.CustomResourceDefinition\<close> (bootstrap/crds.go and
  client/fake/fake.go). A nil pointer is \<open>None\<close>; the fields of a schema that the sources never look at
  are of the type \<open>'z\<close>.
\<close>

text \<open>\<open>JSONSchemaProps\<close>: the list type and list map keys, the properties (a map, possibly nil), the
  items (possibly nil, possibly without a single schema), and the rest.\<close>

datatype 'z jsonschema =
  JSONSchemaProps
    (XListType: "string option") (XListMapKeys: "string list")
    (js_Properties: "(string \<times> 'z jsonschema) list option")
    (js_Items: "'z jsonschema option option")
    (js_rest: 'z)

record 'z crd_version =
  cv_Name :: string
  cv_Served :: bool
  cv_Schema :: "'z jsonschema option option"

record 'z crd =
  crd_Kind :: string
  crd_APIVersion :: string
  crd_Name :: string
  crd_ResourceVersion :: string
  crd_Group :: string
  crd_NamesKind :: string
  crd_Plural :: string
  crd_Versions :: "'z crd_version list"

end
