(* ===== verification/Bootstrap_Crds.thy ===== *)
theory Bootstrap_Crds
  imports Crd_Types
begin

text \<open>
  The installation of custom resource definitions (bootstrap/crds.go): reading them from a file
  system, creating or updating them in the cluster, and waiting until discovery serves them.

  The file system, the decoder, the API clients, the retry and polling helpers of client-go and
  apimachinery are parameters. The closure given to the polling helper changes the map
  \<open>resourcesByGV\<close>, so that the map is passed from one poll to the next. The resource version written
  into a definition before an update is not read by the code that follows.
\<close>

type_synonym resource_map = "(string, (string, unit) gomap) gomap"

record ('f, 'z, 'w) crds_lib =
  fs_ReadDir :: "string \<Rightarrow> (error + string list, 'w) proc"
  fs_Open :: "string \<Rightarrow> (error + 'f, 'w) proc"
  crd_Decode :: "'f \<Rightarrow> nat \<Rightarrow> (error + 'z crd, 'w) proc"
  clientset_NewForConfig :: "(error option, 'w) proc"
  crds_Get :: "string \<Rightarrow> (error + 'z crd, 'w) proc"
  crds_Create :: "'z crd \<Rightarrow> (error + 'z crd, 'w) proc"
  crds_Update :: "'z crd \<Rightarrow> (error + 'z crd, 'w) proc"
  crds_IsNotFound :: "error \<Rightarrow> bool"
  RetryOnConflict :: "(error option, 'w) proc \<Rightarrow> (error option, 'w) proc"
  GroupVersion_String :: "string \<Rightarrow> string \<Rightarrow> string"
  discovery_NewForConfig :: "(error option, 'w) proc"
  ServerGroupsAndResources :: "(error + (string \<times> string list) list, 'w) proc"
  PollUntilContextTimeout :: "int \<Rightarrow> int \<Rightarrow> bool \<Rightarrow>
     (resource_map \<Rightarrow> ((bool \<times> error option) \<times> resource_map, 'w) proc) \<Rightarrow> resource_map \<Rightarrow> (error option, 'w) proc"

section \<open>createCRDs\<close>

definition update_crd :: "('f, 'z, 'w) crds_lib \<Rightarrow> 'z crd \<Rightarrow> (error option, 'w) proc" where
  "update_crd L crd =
     bind (crds_Get L (crd_Name crd)) (\<lambda>got.
       case got of
         Inl err \<Rightarrow> Return (Some err)
       | Inr old \<Rightarrow>
           bind (crds_Update L (crd\<lparr>crd_ResourceVersion := crd_ResourceVersion old\<rparr>)) (\<lambda>res.
             Return (case res of Inl err \<Rightarrow> Some err | Inr _ \<Rightarrow> None)))"

definition create_or_update :: "('f, 'z, 'w) crds_lib \<Rightarrow> 'z crd \<Rightarrow> (error option, 'w) proc" where
  "create_or_update L crd =
     bind (crds_Get L (crd_Name crd)) (\<lambda>got.
       case got of
         Inl err \<Rightarrow>
           if crds_IsNotFound L err then
             bind (crds_Create L crd) (\<lambda>res.
               Return (case res of
                 Inl err \<Rightarrow> Some (Wrapped (''unable to create CRD '' @ Quote (crd_Name crd) @ '': '') err)
               | Inr _ \<Rightarrow> None))
           else Return (Some (Wrapped (''failed when fetching CRD '' @ Quote (crd_Name crd) @ '': '') err))
       | Inr _ \<Rightarrow> RetryOnConflict L (update_crd L crd))"

definition createCRDs :: "('f, 'z, 'w) crds_lib \<Rightarrow> 'z crd list \<Rightarrow> (error option, 'w) proc" where
  "createCRDs L crds =
     bind (clientset_NewForConfig L) (\<lambda>err.
       case err of Some e \<Rightarrow> Return (Some e) | None \<Rightarrow> for_err (create_or_update L) crds)"

section \<open>waitForDiscovery\<close>

definition crdInstallPollInterval :: int where
  "crdInstallPollInterval = 200 * 1000000"

definition maxCRDInstallTime :: int where
  "maxCRDInstallTime = 5 * 60 * 1000000000"

definition add_resource :: "string \<Rightarrow> string \<Rightarrow> resource_map \<Rightarrow> resource_map" where
  "add_resource gv r m =
     (let m' = (case map_of m gv of None \<Rightarrow> AList.update gv [] m | Some _ \<Rightarrow> m) in
      AList.update gv (AList.update r () (the (map_of m' gv))) m')"

primrec versions_loop :: "(string \<Rightarrow> string \<Rightarrow> string) \<Rightarrow> 'z crd \<Rightarrow> 'z crd_version list \<Rightarrow> resource_map \<Rightarrow> resource_map" where
  "versions_loop GV crd [] m = m"
| "versions_loop GV crd (version # vs) m =
     versions_loop GV crd vs
       (if \<not> cv_Served version then m
        else add_resource (GV (crd_Group crd) (cv_Name version)) (crd_Plural crd) m)"

definition expected_resources :: "(string \<Rightarrow> string \<Rightarrow> string) \<Rightarrow> 'z crd list \<Rightarrow> resource_map" where
  "expected_resources GV crds = fold (\<lambda>crd. versions_loop GV crd (crd_Versions crd)) crds []"

text \<open>One round of the loop over the served group versions.\<close>

definition remove_served :: "string \<times> string list \<Rightarrow> resource_map \<Rightarrow> resource_map" where
  "remove_served gv m =
     (case map_of m (fst gv) of
        None \<Rightarrow> m
      | Some rs \<Rightarrow>
          let rs' = fold AList.delete (snd gv) rs in
          if rs' = [] then AList.delete (fst gv) (AList.update (fst gv) rs' m)
          else AList.update (fst gv) rs' m)"

definition discovery_poll ::
    "('f, 'z, 'w) crds_lib \<Rightarrow> resource_map \<Rightarrow> ((bool \<times> error option) \<times> resource_map, 'w) proc" where
  "discovery_poll L m =
     bind (ServerGroupsAndResources L) (\<lambda>res.
       case res of
         Inl err \<Rightarrow> Return ((False, None), m)
       | Inr serverGVRs \<Rightarrow>
           let m' = fold remove_served serverGVRs m in Return ((m' = [], None), m'))"

definition waitForDiscovery :: "('f, 'z, 'w) crds_lib \<Rightarrow> 'z crd list \<Rightarrow> (error option, 'w) proc" where
  "waitForDiscovery L crds =
     (let resourcesByGV = expected_resources (GroupVersion_String L) crds in
      bind (discovery_NewForConfig L) (\<lambda>err.
        case err of
          Some e \<Rightarrow> Return (Some e)
        | None \<Rightarrow> PollUntilContextTimeout L crdInstallPollInterval maxCRDInstallTime True (discovery_poll L) resourcesByGV))"

section \<open>CRDs\<close>

definition lookaheadBytes :: nat where
  "lookaheadBytes = 100"

primrec read_crds ::
    "('f, 'z, 'w) crds_lib \<Rightarrow> string \<Rightarrow> string list \<Rightarrow> 'z crd list \<Rightarrow> (error + 'z crd list, 'w) proc" where
  "read_crds L dir [] crds = Return (Inr crds)"
| "read_crds L dir (crdFile # files) crds =
     bind (fs_Open L (path_Join2 dir crdFile)) (\<lambda>f.
       case f of
         Inl err \<Rightarrow> Return (Inl err)
       | Inr h \<Rightarrow>
           bind (crd_Decode L h lookaheadBytes) (\<lambda>res.
             case res of
               Inl err \<Rightarrow> Return (Inl err)
             | Inr crd \<Rightarrow> read_crds L dir files (crds @ [crd])))"

definition CRDs :: "('f, 'z, 'w) crds_lib \<Rightarrow> string \<Rightarrow> (error option, 'w) proc" where
  "CRDs L dir =
     bind (fs_ReadDir L dir) (\<lambda>res.
       case res of
         Inl err \<Rightarrow> Return (Some err)
       | Inr crdFiles \<Rightarrow>
           bind (read_crds L dir crdFiles []) (\<lambda>read.
             case read of
               Inl err \<Rightarrow> Return (Some err)
             | Inr crds \<Rightarrow>
                 bind (createCRDs L crds) (\<lambda>err.
                   case err of
                     Some e \<Rightarrow> Return (Some e)
                   | None \<Rightarrow>
                       bind (waitForDiscovery L crds) (\<lambda>err.
                         case err of Some e \<Rightarrow> Return (Some e) | None \<Rightarrow> Return None))))"

text \<open>The deprecated entry point, which runs without a caller's context.\<close>

definition CRD :: "('c \<Rightarrow> ('f, 'z, 'w) crds_lib) \<Rightarrow> 'c \<Rightarrow> string \<Rightarrow> (error option, 'w) proc" where
  "CRD L background dir = CRDs (L background) dir"

section \<open>The resources still missing\<close>

definition wanted :: "resource_map \<Rightarrow> (string \<times> string) set" where
  "wanted m = {(gv, r). \<exists>rs. map_of m gv = Some rs \<and> r \<in> dom (map_of rs)}"

lemma dom_map_of_Nil_iff: "dom (map_of m) = {} \<longleftrightarrow> m = []"
  by (simp add: dom_map_of_conv_image_fst)

text \<open>Every group version in the map has at least one missing resource.\<close>

definition resource_map_ok :: "resource_map \<Rightarrow> bool" where
  "resource_map_ok m \<longleftrightarrow> (\<forall>gv rs. map_of m gv = Some rs \<longrightarrow> rs \<noteq> [])"

lemma wanted_Nil [simp]: "wanted [] = {}"
  by (simp add: wanted_def)

lemma resource_map_ok_Nil [simp]: "resource_map_ok []"
  by (simp add: resource_map_ok_def)

lemma wanted_empty_iff:
  assumes "resource_map_ok m"
  shows "wanted m = {} \<longleftrightarrow> m = []"
proof
  assume empty: "wanted m = {}"
  show "m = []"
  proof (rule ccontr)
    assume "m \<noteq> []"
    then have "dom (map_of m) \<noteq> {}" by (simp add: dom_map_of_Nil_iff del: dom_eq_empty_conv)
    then obtain gv rs where gv: "map_of m gv = Some rs" by blast
    with assms have "rs \<noteq> []" unfolding resource_map_ok_def by blast
    then have "dom (map_of rs) \<noteq> {}" by (simp add: dom_map_of_Nil_iff del: dom_eq_empty_conv)
    with gv empty show False unfolding wanted_def by blast
  qed
qed simp

lemma update_ne_Nil [simp]: "AList.update k v m \<noteq> []"
  by (cases m) (auto simp: case_prod_unfold)

lemma map_of_add_resource:
  "map_of (add_resource gv r m) =
     (map_of m)(gv \<mapsto> AList.update r () (case map_of m gv of None \<Rightarrow> [] | Some rs \<Rightarrow> rs))"
  by (auto simp: add_resource_def update_conv' Let_def split: option.split)

lemma wanted_add_resource [simp]: "wanted (add_resource gv r m) = insert (gv, r) (wanted m)"
  by (auto simp: wanted_def map_of_add_resource update_conv' split: option.splits if_splits)

lemma resource_map_ok_add [simp]: "resource_map_ok m \<Longrightarrow> resource_map_ok (add_resource gv r m)"
  by (auto simp: resource_map_ok_def map_of_add_resource)

definition served_resources :: "(string \<Rightarrow> string \<Rightarrow> string) \<Rightarrow> 'z crd \<Rightarrow> (string \<times> string) set" where
  "served_resources GV crd =
     {(GV (crd_Group crd) (cv_Name v), crd_Plural crd) |v. v \<in> set (crd_Versions crd) \<and> cv_Served v}"

lemma versions_loop_wanted:
  "wanted (versions_loop GV crd vs m) =
     wanted m \<union> {(GV (crd_Group crd) (cv_Name v), crd_Plural crd) |v. v \<in> set vs \<and> cv_Served v} \<and>
   (resource_map_ok m \<longrightarrow> resource_map_ok (versions_loop GV crd vs m))"
  by (induction vs arbitrary: m) auto

lemma expected_resources_fold:
  "wanted (fold (\<lambda>crd. versions_loop GV crd (crd_Versions crd)) crds m) =
     wanted m \<union> (\<Union>crd \<in> set crds. served_resources GV crd) \<and>
   (resource_map_ok m \<longrightarrow> resource_map_ok (fold (\<lambda>crd. versions_loop GV crd (crd_Versions crd)) crds m))"
proof (induction crds arbitrary: m)
  case (Cons crd crds)
  from Cons [of "versions_loop GV crd (crd_Versions crd) m"] versions_loop_wanted [of GV crd "crd_Versions crd" m]
  show ?case by (auto simp: served_resources_def)
qed simp

lemma wanted_expected:
  "wanted (expected_resources GV crds) = (\<Union>crd \<in> set crds. served_resources GV crd)"
  "resource_map_ok (expected_resources GV crds)"
  using expected_resources_fold [of GV crds "[]"] by (simp_all add: expected_resources_def)

lemma map_of_fold_delete: "map_of (fold AList.delete ks m) = (map_of m) |` (- set ks)"
  by (induction ks arbitrary: m) (auto simp: delete_conv' restrict_map_def fun_eq_iff)

lemma map_of_remove_served:
  "map_of (remove_served (gv, ks) m) =
     (case map_of m gv of
        None \<Rightarrow> map_of m
      | Some rs \<Rightarrow> (map_of m)(gv := (let rs' = fold AList.delete ks rs in if rs' = [] then None else Some rs')))"
  by (auto simp: remove_served_def update_conv' delete_conv' Let_def fun_eq_iff split: option.split)

lemma wanted_remove_served [simp]: "wanted (remove_served x m) = wanted m - {fst x} \<times> set (snd x)"
proof (cases x)
  case (Pair gv ks)
  show ?thesis
  proof (cases "map_of m gv")
    case None
    then show ?thesis using Pair by (auto simp: wanted_def map_of_remove_served)
  next
    case (Some rs)
    have "fold AList.delete ks rs = [] \<longleftrightarrow> (\<forall>r. map_of rs r = Some () \<longrightarrow> r \<in> set ks)"
      by (auto simp: map_of_fold_delete simp flip: dom_map_of_Nil_iff)
    with Some Pair show ?thesis
      by (auto simp: wanted_def map_of_remove_served Let_def map_of_fold_delete restrict_map_def
          split: if_splits)
  qed
qed

lemma resource_map_ok_remove_served [simp]: "resource_map_ok m \<Longrightarrow> resource_map_ok (remove_served x m)"
  by (cases x) (auto simp: resource_map_ok_def map_of_remove_served Let_def split: option.splits if_splits)

definition served :: "error + (string \<times> string list) list \<Rightarrow> (string \<times> string) set" where
  "served res = (case res of Inl _ \<Rightarrow> {} | Inr gvrs \<Rightarrow> \<Union>x \<in> set gvrs. {fst x} \<times> set (snd x))"

lemma wanted_fold_remove_served:
  "wanted (fold remove_served gvrs m) = wanted m - served (Inr gvrs) \<and>
   (resource_map_ok m \<longrightarrow> resource_map_ok (fold remove_served gvrs m))"
  by (induction gvrs arbitrary: m) (auto simp: served_def)

section \<open>Polling\<close>

text \<open>What the polling helper is documented to do: an immediate poll, then further ones until the
  condition holds or fails, or the time is up after \<open>n\<close> polls.\<close>

primrec poll_rounds ::
    "nat \<Rightarrow> error \<Rightarrow> ('s \<Rightarrow> ((bool \<times> error option) \<times> 's, 'w) proc) \<Rightarrow> 's \<Rightarrow> (error option, 'w) proc" where
  "poll_rounds 0 timeout cond s = Return (Some timeout)"
| "poll_rounds (Suc n) timeout cond s =
     bind (cond s) (\<lambda>((done, err), s').
       case err of
         Some e \<Rightarrow> Return (Some e)
       | None \<Rightarrow> if done then Return None else poll_rounds n timeout cond s')"

text \<open>The answers of the discovery API, one per call: \<open>ans\<close> is the answer in a world, \<open>tick\<close> the world
  after the call. The resources \<open>D\<close> are discovered within \<open>n\<close> calls when some call succeeds and by then
  each of them has been served by some call.\<close>

definition discovered ::
    "('w \<Rightarrow> error + (string \<times> string list) list) \<Rightarrow> ('w \<Rightarrow> 'w) \<Rightarrow> 'w \<Rightarrow> nat \<Rightarrow> (string \<times> string) set \<Rightarrow> bool" where
  "discovered ans tick w n D \<longleftrightarrow>
     (\<exists>k<n. \<not> isl (ans ((tick ^^ k) w)) \<and> D \<subseteq> (\<Union>i\<le>k. served (ans ((tick ^^ i) w))))"

lemma discovered_Suc:
  "discovered ans tick w (Suc n) D \<longleftrightarrow>
     \<not> isl (ans w) \<and> D \<subseteq> served (ans w) \<or> discovered ans tick (tick w) n (D - served (ans w))"
proof -
  have shift: "(\<Union>i\<le>Suc k. served (ans ((tick ^^ i) w))) =
      served (ans w) \<union> (\<Union>i\<le>k. served (ans ((tick ^^ i) (tick w))))" for k
    by (simp add: atMost_Suc_eq_insert_0 funpow_swap1)
  have "discovered ans tick w (Suc n) D \<longleftrightarrow>
      \<not> isl (ans w) \<and> D \<subseteq> served (ans w) \<or>
      (\<exists>k<n. \<not> isl (ans ((tick ^^ Suc k) w)) \<and> D \<subseteq> (\<Union>i\<le>Suc k. served (ans ((tick ^^ i) w))))"
    unfolding discovered_def by (subst Ex_less_Suc2) simp
  then show ?thesis
    unfolding shift by (auto simp: discovered_def funpow_swap1)
qed

lemma discovered_0 [simp]: "\<not> discovered ans tick w 0 D"
  by (simp add: discovered_def)

lemma run_discovery_poll:
  assumes "run (ServerGroupsAndResources L) w = (Normal res, w')" and "resource_map_ok m"
  obtains m' where "run (discovery_poll L m) w = (Normal ((\<not> isl res \<and> wanted m \<subseteq> served res, None), m'), w')"
    and "wanted m' = wanted m - served res" and "resource_map_ok m'"
proof (cases res)
  case (Inl e)
  with assms that [of m] show ?thesis by (simp add: discovery_poll_def served_def)
next
  case (Inr gvrs)
  let ?m = "fold remove_served gvrs m"
  have m: "wanted ?m = wanted m - served res" "resource_map_ok ?m"
    using wanted_fold_remove_served [of gvrs m] Inr assms(2) by auto
  then have "?m = [] \<longleftrightarrow> wanted m \<subseteq> served res" using wanted_empty_iff by auto
  with Inr assms m that [of ?m] show ?thesis by (simp add: discovery_poll_def)
qed

lemma run_poll_discovery:
  assumes "\<And>w. run (ServerGroupsAndResources L) w = (Normal (ans w), tick w)" and "resource_map_ok m"
  shows "fst (run (poll_rounds n timeout (discovery_poll L) m) w) =
    Normal (if discovered ans tick w n (wanted m) then None else Some timeout)"
  using assms(2)
proof (induction n arbitrary: m w)
  case (Suc n)
  from run_discovery_poll [OF assms(1) Suc.prems, of w] obtain m' where
    "run (discovery_poll L m) w = (Normal ((\<not> isl (ans w) \<and> wanted m \<subseteq> served (ans w), None), m'), tick w)"
    and "wanted m' = wanted m - served (ans w)" and "resource_map_ok m'" by blast
  with Suc.IH [of m' "tick w"] show ?case by (simp add: discovered_Suc)
qed simp

section \<open>A store of definitions\<close>

text \<open>An API server that stores definitions by name, with a version that an update must give.\<close>

definition crd_store :: "('w \<Rightarrow> string \<rightharpoonup> 'z crd) \<Rightarrow> ('f, 'z, 'w) crds_lib \<Rightarrow> bool" where
  "crd_store view L \<longleftrightarrow>
     (\<forall>w n. view w n = None \<longrightarrow> (\<exists>e. run (crds_Get L n) w = (Normal (Inl e), w) \<and> crds_IsNotFound L e)) \<and>
     (\<forall>w n c. view w n = Some c \<longrightarrow> run (crds_Get L n) w = (Normal (Inr c), w)) \<and>
     (\<forall>w c. view w (crd_Name c) = None \<longrightarrow>
        (\<exists>r w' rv. run (crds_Create L c) w = (Normal (Inr r), w') \<and>
           view w' = (view w)(crd_Name c \<mapsto> c\<lparr>crd_ResourceVersion := rv\<rparr>))) \<and>
     (\<forall>w c old. view w (crd_Name c) = Some old \<and> crd_ResourceVersion c = crd_ResourceVersion old \<longrightarrow>
        (\<exists>r w' rv. run (crds_Update L c) w = (Normal (Inr r), w') \<and>
           view w' = (view w)(crd_Name c \<mapsto> c\<lparr>crd_ResourceVersion := rv\<rparr>)))"

lemma crd_store_get:
  assumes "crd_store view L"
  shows "view w n = None \<Longrightarrow> \<exists>e. run (crds_Get L n) w = (Normal (Inl e), w) \<and> crds_IsNotFound L e"
    and "view w n = Some c \<Longrightarrow> run (crds_Get L n) w = (Normal (Inr c), w)"
  using assms by (simp_all add: crd_store_def)

lemma crd_store_put:
  assumes "crd_store view L"
  shows "view w (crd_Name c) = None \<Longrightarrow>
      \<exists>r w' rv. run (crds_Create L c) w = (Normal (Inr r), w') \<and>
        view w' = (view w)(crd_Name c \<mapsto> c\<lparr>crd_ResourceVersion := rv\<rparr>)"
    and "view w (crd_Name c) = Some old \<Longrightarrow> crd_ResourceVersion c = crd_ResourceVersion old \<Longrightarrow>
      \<exists>r w' rv. run (crds_Update L c) w = (Normal (Inr r), w') \<and>
        view w' = (view w)(crd_Name c \<mapsto> c\<lparr>crd_ResourceVersion := rv\<rparr>)"
  using assms by (simp_all add: crd_store_def)

text \<open>What the retry helper is documented to do: run the function again as long as it reports a
  conflict, at most \<open>n\<close> times, and return its last result.\<close>

primrec retry_conflict :: "(error \<Rightarrow> bool) \<Rightarrow> nat \<Rightarrow> (error option, 'w) proc \<Rightarrow> (error option, 'w) proc" where
  "retry_conflict conflict 0 f = f"
| "retry_conflict conflict (Suc n) f =
     bind f (\<lambda>err. case err of
       None \<Rightarrow> Return None
     | Some e \<Rightarrow> if conflict e then retry_conflict conflict n f else Return (Some e))"

lemma run_retry_ok: "run f w = (Normal None, w') \<Longrightarrow> run (retry_conflict conflict n f) w = (Normal None, w')"
  by (cases n) auto

lemma create_or_update_installs:
  assumes store: "crd_store view L" and retry: "RetryOnConflict L = retry_conflict conflict steps"
  shows "\<exists>w' rv. run (create_or_update L crd) w = (Normal None, w') \<and>
    view w' = (view w)(crd_Name crd \<mapsto> crd\<lparr>crd_ResourceVersion := rv\<rparr>)"
proof (cases "view w (crd_Name crd)")
  case None
  with crd_store_get [OF store] obtain e where
    "run (crds_Get L (crd_Name crd)) w = (Normal (Inl e), w)" "crds_IsNotFound L e" by blast
  moreover from crd_store_put(1) [OF store None] obtain r w' rv where
    "run (crds_Create L crd) w = (Normal (Inr r), w')"
    "view w' = (view w)(crd_Name crd \<mapsto> crd\<lparr>crd_ResourceVersion := rv\<rparr>)" by blast
  ultimately show ?thesis by (auto simp: create_or_update_def)
next
  case (Some old)
  let ?new = "crd\<lparr>crd_ResourceVersion := crd_ResourceVersion old\<rparr>"
  have get: "run (crds_Get L (crd_Name crd)) w = (Normal (Inr old), w)"
    using crd_store_get(2) [OF store Some] .
  from crd_store_put(2) [OF store, of w ?new old] Some obtain r w' rv where
    w': "run (crds_Update L ?new) w = (Normal (Inr r), w')"
    "view w' = (view w)(crd_Name crd \<mapsto> crd\<lparr>crd_ResourceVersion := rv\<rparr>)" by auto
  with get have "run (update_crd L crd) w = (Normal None, w')" by (simp add: update_crd_def)
  with get w' show ?thesis by (auto simp: create_or_update_def retry run_retry_ok)
qed

text \<open>The definition that the list installs under a name: the last one of that name.\<close>

definition installs :: "('w \<Rightarrow> string \<rightharpoonup> 'z crd) \<Rightarrow> 'z crd list \<Rightarrow> 'w \<Rightarrow> 'w \<Rightarrow> bool" where
  "installs view crds w w' \<longleftrightarrow>
     (\<forall>n. (map_of (rev (map (\<lambda>c. (crd_Name c, c)) crds)) n = None \<longrightarrow> view w' n = view w n) \<and>
          (\<forall>c. map_of (rev (map (\<lambda>c. (crd_Name c, c)) crds)) n = Some c \<longrightarrow>
             (\<exists>rv. view w' n = Some (c\<lparr>crd_ResourceVersion := rv\<rparr>))))"

lemma create_loop_installs:
  assumes "crd_store view L" and "RetryOnConflict L = retry_conflict conflict steps"
  shows "\<exists>w'. run (for_err (create_or_update L) crds) w = (Normal None, w') \<and> installs view crds w w'"
proof (induction crds arbitrary: w)
  case Nil
  show ?case by (simp add: installs_def)
next
  case (Cons crd crds)
  obtain w1 rv where w1: "run (create_or_update L crd) w = (Normal None, w1)"
    "view w1 = (view w)(crd_Name crd \<mapsto> crd\<lparr>crd_ResourceVersion := rv\<rparr>)"
    using create_or_update_installs [OF assms] by blast
  obtain w2 where w2: "run (for_err (create_or_update L) crds) w1 = (Normal None, w2)" "installs view crds w1 w2"
    using Cons by blast
  have "installs view (crd # crds) w w2"
    unfolding installs_def
  proof (rule allI)
    fix n
    let ?M = "map_of (rev (map (\<lambda>c. (crd_Name c, c)) crds))"
    have "?M n = None \<Longrightarrow> view w2 n = view w1 n"
      and "\<And>c. ?M n = Some c \<Longrightarrow> \<exists>rv. view w2 n = Some (c\<lparr>crd_ResourceVersion := rv\<rparr>)"
      using w2(2) unfolding installs_def by auto
    then show "(map_of (rev (map (\<lambda>c. (crd_Name c, c)) (crd # crds))) n = None \<longrightarrow> view w2 n = view w n) \<and>
        (\<forall>c. map_of (rev (map (\<lambda>c. (crd_Name c, c)) (crd # crds))) n = Some c \<longrightarrow>
           (\<exists>rv. view w2 n = Some (c\<lparr>crd_ResourceVersion := rv\<rparr>)))"
      by (cases "?M n") (auto simp: w1(2) map_add_def)
  qed
  with w1 w2 show ?case by auto
qed

section \<open>Reading\<close>

lemma run_read_crds:
  assumes "\<And>f. f \<in> set files \<Longrightarrow> \<exists>h. run (fs_Open L (path_Join2 dir f)) w = (Normal (Inr h), w) \<and>
      run (crd_Decode L h lookaheadBytes) w = (Normal (Inr (decoded f)), w)"
  shows "run (read_crds L dir (files @ rest) crds) w = run (read_crds L dir rest (crds @ map decoded files)) w"
  using assms
proof (induction files arbitrary: crds)
  case (Cons f files)
  then obtain h where "run (fs_Open L (path_Join2 dir f)) w = (Normal (Inr h), w)"
    "run (crd_Decode L h lookaheadBytes) w = (Normal (Inr (decoded f)), w)" by auto
  with Cons show ?case by simp
qed simp

section \<open>Properties\<close>

text \<open>C7: The installation of a directory of definitions. With readable files, an API server that stores
  definitions under optimistic locking, and the documented retry and polling helpers, every
  definition of the directory ends up in the cluster (the last one where two files define the same
  name) and no other definition is touched; the call then returns without an error exactly when,
  within the polls that fit the time limit, a poll succeeded and every served version of every
  definition had been seen in that or an earlier poll, and with the timeout error otherwise.\<close>

theorem crds_installed_and_served:
  assumes dir: "run (fs_ReadDir L dir) w = (Normal (Inr files), w)"
    and files: "\<And>f. f \<in> set files \<Longrightarrow> \<exists>h. run (fs_Open L (path_Join2 dir f)) w = (Normal (Inr h), w) \<and>
      run (crd_Decode L h lookaheadBytes) w = (Normal (Inr (decoded f)), w)"
    and clients: "\<And>w. run (clientset_NewForConfig L) w = (Normal None, w)"
      "\<And>w. run (discovery_NewForConfig L) w = (Normal None, w)"
    and store: "crd_store view L" and retry: "RetryOnConflict L = retry_conflict conflict steps"
    and poll: "PollUntilContextTimeout L crdInstallPollInterval maxCRDInstallTime True = poll_rounds n timeout"
    and answers: "\<And>w. run (ServerGroupsAndResources L) w = (Normal (ans w), tick w)"
    and after: "w' = snd (run (createCRDs L (map decoded files)) w)"
  shows "installs view (map decoded files) w w' \<and>
    fst (run (CRDs L dir) w) =
      Normal (if discovered ans tick w' n (\<Union>f \<in> set files. served_resources (GroupVersion_String L) (decoded f))
              then None else Some timeout)"
proof -
  let ?crds = "map decoded files"
  have read: "run (read_crds L dir files []) w = (Normal (Inr ?crds), w)"
    using run_read_crds [of files L dir w decoded "[]" "[]"] files by simp
  obtain w1 where "run (for_err (create_or_update L) ?crds) w = (Normal None, w1)" "installs view ?crds w w1"
    using create_loop_installs [OF store retry] by blast
  then have w': "run (createCRDs L ?crds) w = (Normal None, w')" "installs view ?crds w w'"
    by (simp_all add: after createCRDs_def clients)
  have "fst (run (waitForDiscovery L ?crds) w') =
      Normal (if discovered ans tick w' n (\<Union>f \<in> set files. served_resources (GroupVersion_String L) (decoded f))
              then None else Some timeout)" (is "_ = Normal ?out")
    using run_poll_discovery [OF answers wanted_expected(2) [of "GroupVersion_String L" ?crds], of n timeout w']
    by (simp add: waitForDiscovery_def clients poll wanted_expected(1))
  then obtain w2 where "run (waitForDiscovery L ?crds) w' = (Normal ?out, w2)" by (metis prod.collapse)
  then have "fst (run (CRDs L dir) w) = Normal ?out"
    using dir read w'(1) by (simp add: CRDs_def split: option.split)
  with w'(2) show ?thesis by blast
qed

text \<open>All files are read before the cluster is touched: when the directory has a file that cannot be
  opened or decoded, the call returns that error and has changed nothing, whatever the files
  before and after it hold.\<close>

theorem crds_read_before_any_change:
  assumes "run (fs_ReadDir L dir) w = (Normal (Inr (before @ bad # after)), w)"
    and "\<And>f. f \<in> set before \<Longrightarrow> \<exists>h. run (fs_Open L (path_Join2 dir f)) w = (Normal (Inr h), w) \<and>
      run (crd_Decode L h lookaheadBytes) w = (Normal (Inr (decoded f)), w)"
    and "run (fs_Open L (path_Join2 dir bad)) w = (Normal (Inl e), w) \<or>
      (\<exists>h. run (fs_Open L (path_Join2 dir bad)) w = (Normal (Inr h), w) \<and>
           run (crd_Decode L h lookaheadBytes) w = (Normal (Inl e), w))"
  shows "run (CRDs L dir) w = (Normal (Some e), w)"
  using assms(1,3) run_read_crds [of before L dir w decoded "bad # after" "[]"] assms(2)
  by (auto simp: CRDs_def)

section \<open>Witnesses\<close>

text \<open>A cluster as a map of definitions beside the number of discovery calls; discovery fails once,
  then serves the group version without the resource, then with it.\<close>

definition demo_crd :: "unit crd" where
  "demo_crd = \<lparr>crd_Kind = ''CustomResourceDefinition'', crd_APIVersion = ''apiextensions.k8s.io/v1'',
     crd_Name = ''as.g'', crd_ResourceVersion = [], crd_Group = ''g'', crd_NamesKind = ''A'', crd_Plural = ''as'',
     crd_Versions = [\<lparr>cv_Name = ''v1'', cv_Served = True, cv_Schema = None\<rparr>]\<rparr>"

definition demo_store_put :: "unit crd \<Rightarrow> (string \<rightharpoonup> unit crd) \<times> nat \<Rightarrow> (string \<rightharpoonup> unit crd) \<times> nat" where
  "demo_store_put c w = ((fst w)(crd_Name c \<mapsto> c\<lparr>crd_ResourceVersion := ''2''\<rparr>), snd w)"

definition demo_answers :: "(string \<rightharpoonup> unit crd) \<times> nat \<Rightarrow> error + (string \<times> string list) list" where
  "demo_answers w =
     (if snd w = 0 then Inl (External ''unavailable'') else Inr [(''g/v1'', if snd w = 1 then [] else [''as''])])"

definition demo_tick :: "(string \<rightharpoonup> unit crd) \<times> nat \<Rightarrow> (string \<rightharpoonup> unit crd) \<times> nat" where
  "demo_tick w = (fst w, Suc (snd w))"

definition demo_crds_lib :: "nat \<Rightarrow> (unit, unit, (string \<rightharpoonup> unit crd) \<times> nat) crds_lib" where
  "demo_crds_lib n =
     \<lparr>fs_ReadDir = (\<lambda>_. Return (Inr [''a.yaml''])),
      fs_Open = (\<lambda>p. Return (if p = ''crds/a.yaml'' then Inr () else Inl os_ErrNotExist)),
      crd_Decode = (\<lambda>_ _. Return (Inr demo_crd)), clientset_NewForConfig = Return None,
      crds_Get = (\<lambda>n. gets (\<lambda>w. case fst w n of None \<Rightarrow> Inl (External ''not found'') | Some c \<Rightarrow> Inr c)),
      crds_Create = (\<lambda>c. act (\<lambda>w. (Inr c, demo_store_put c w))),
      crds_Update = (\<lambda>c. act (\<lambda>w. (Inr c, demo_store_put c w))),
      crds_IsNotFound = (\<lambda>e. e = External ''not found''),
      RetryOnConflict = retry_conflict (\<lambda>_. True) 3,
      GroupVersion_String = (\<lambda>g v. g @ ''/'' @ v), discovery_NewForConfig = Return None,
      ServerGroupsAndResources = act (\<lambda>w. (demo_answers w, demo_tick w)),
      PollUntilContextTimeout = (\<lambda>_ _ _. poll_rounds n (External ''timed out''))\<rparr>"

lemma demo_crd_store: "crd_store fst (demo_crds_lib n)"
  by (auto simp: crd_store_def demo_crds_lib_def demo_store_put_def)

lemma demo_path: "path_Join2 ''crds'' ''a.yaml'' = ''crds/a.yaml''"
proof -
  have "Split ''crds/a.yaml'' ''/'' = [''crds'', ''a.yaml'']"
    using Split_Join [of "''/''" "CHR ''/''" "[]" "[''crds'', ''a.yaml'']"] by fastforce
  then show ?thesis by (simp add: path_Join2_def path_Clean_def HasPrefix_def)
qed

theorem crds_installed_and_served_witness:
  "fst (run (CRDs (demo_crds_lib 3) ''crds'') (Map.empty, 0)) = Normal None \<and>
   fst (run (CRDs (demo_crds_lib 2) ''crds'') (Map.empty, 0)) = Normal (Some (External ''timed out''))"
proof -
  let ?w = "(demo_store_put demo_crd (Map.empty, 0))" and ?D = "{(''g/v1'', ''as'')}"
  have served: "(\<Union>f \<in> set [''a.yaml'']. served_resources (GroupVersion_String (demo_crds_lib n)) demo_crd) = ?D" for n
    by (auto simp: served_resources_def demo_crds_lib_def demo_crd_def)
  have out: "fst (run (CRDs (demo_crds_lib n) ''crds'') (Map.empty, 0)) =
      Normal (if discovered demo_answers demo_tick ?w n ?D then None else Some (External ''timed out''))" for n
  proof -
    have "?w = snd (run (createCRDs (demo_crds_lib n) (map (\<lambda>_. demo_crd) [''a.yaml''])) (Map.empty, 0))"
      by (simp add: createCRDs_def create_or_update_def demo_crds_lib_def)
    from crds_installed_and_served [OF _ _ _ _ demo_crd_store _ _ _ this, where dir = "''crds''"] served show ?thesis
      by (simp add: demo_crds_lib_def demo_path)
  qed
  have "discovered demo_answers demo_tick ?w 3 ?D" "\<not> discovered demo_answers demo_tick ?w 2 ?D"
    by (auto simp: eval_nat_numeral discovered_Suc demo_answers_def demo_tick_def demo_store_put_def served_def)
  with out [of 3] out [of 2] show ?thesis by simp
qed

lemma demo_path_b: "path_Join2 ''crds'' ''b.yaml'' = ''crds/b.yaml''"
proof -
  have "Split ''crds/b.yaml'' ''/'' = [''crds'', ''b.yaml'']"
    using Split_Join [of "''/''" "CHR ''/''" "[]" "[''crds'', ''b.yaml'']"] by fastforce
  then show ?thesis by (simp add: path_Join2_def path_Clean_def HasPrefix_def)
qed

theorem crds_read_before_any_change_witness:
  "run (CRDs ((demo_crds_lib 3)\<lparr>fs_ReadDir := \<lambda>_. Return (Inr [''a.yaml'', ''b.yaml''])\<rparr>) ''crds'') (Map.empty, 0) =
     (Normal (Some os_ErrNotExist), (Map.empty, 0))"
  by (rule crds_read_before_any_change [where before = "[''a.yaml'']" and bad = "''b.yaml''" and after = "[]"
        and decoded = "\<lambda>_. demo_crd"])
    (simp_all add: demo_crds_lib_def demo_path demo_path_b)

end
