(* ===== verification/File_Informer.thy ===== *)
theory File_Informer
  imports Concurrency
begin

text \<open>
  The informers over files (fileinformer/file_informer.go): the factory, the informers it makes, and
  the event loop of an informer.

  The world holds the factory, the informers the program has allocated (an informer is an address
  into the list \<open>fw_heap\<close>), the goroutines launched, the errors handed to \<open>utilruntime.HandleError\<close>, and
  the state \<open>'x\<close> of everything else, on which event handlers and the watchers of fsnotify work. The
  mutexes are part of the state: taking a lock that is held ends the run with \<open>blocked\<close>. The event loop
  is a function of the sequence of inputs that its \<open>select\<close> picks. \<open>utilruntime.HandleCrash\<close>, which
  logs and panics again, and log calls are not modelled.
\<close>

section \<open>Data\<close>

datatype notification = OnAdd string bool | OnUpdate string string | OnDelete string

type_synonym 'x event_handler = "notification \<Rightarrow> (unit, 'x) proc"

datatype fs_op = FsCreate | FsWrite | FsRemove | FsRename | FsChmod

record fs_event =
  ev_Name :: string
  ev_Op :: "fs_op list"

definition ev_Has :: "fs_event \<Rightarrow> fs_op \<Rightarrow> bool" where
  "ev_Has event op = (op \<in> set (ev_Op event))"

record 'x FileSharedIndexInformer =
  fs_once :: bool
  fs_readers :: nat
  fs_writer :: bool
  fs_defaultEventHandlerResyncPeriod :: int
  fs_fileName :: string
  fs_watcher :: nat
  fs_started :: bool
  fs_synced :: bool
  fs_handlers :: "'x event_handler list"

record FileInformer =
  fi_fileName :: string
  fi_watcher :: nat
  fi_informer :: nat

datatype goroutine = RunInformer nat | EventLoop nat

record 'x fi_world =
  fw_locked :: bool
  fw_informers :: "(gvr, FileInformer) gomap"
  fw_startedInformers :: "(gvr, bool) gomap"
  fw_heap :: "'x FileSharedIndexInformer list"
  fw_goroutines :: "goroutine list"
  fw_handled :: "error list"
  fw_app :: 'x

type_synonym ('x, 'a) fi = "('a, 'x fi_world) proc"

text \<open>fsnotify, the wait of client-go's cache package, and the order in which maps are visited.\<close>

record 'x informer_lib =
  fsnotify_NewWatcher :: "(error + nat, 'x) proc"
  watcher_Add :: "nat \<Rightarrow> string \<Rightarrow> (error option, 'x) proc"
  watcher_Remove :: "nat \<Rightarrow> string \<Rightarrow> (error option, 'x) proc"
  watcher_Close :: "nat \<Rightarrow> (error option, 'x) proc"
  cache_WaitForCacheSync :: "('x, bool) fi \<Rightarrow> ('x, bool) fi"
  informer_order :: "(gvr, FileInformer) gomap \<Rightarrow> (gvr, FileInformer) gomap"

section \<open>Access to the world\<close>

definition app :: "('a, 'x) proc \<Rightarrow> ('x, 'a) fi" where
  "app p = embed fw_app (\<lambda>x w. w\<lparr>fw_app := x\<rparr>) p"

definition informer_at :: "nat \<Rightarrow> 'x fi_world \<Rightarrow> 'x FileSharedIndexInformer" where
  "informer_at p w = fw_heap w ! p"

definition set_informer ::
    "nat \<Rightarrow> ('x FileSharedIndexInformer \<Rightarrow> 'x FileSharedIndexInformer) \<Rightarrow> 'x fi_world \<Rightarrow> 'x fi_world" where
  "set_informer p f w = w\<lparr>fw_heap := (fw_heap w)[p := f (fw_heap w ! p)]\<rparr>"

definition fi_HandleError :: "error option \<Rightarrow> ('x, unit) fi" where
  "fi_HandleError err =
     (case err of None \<Rightarrow> Return () | Some e \<Rightarrow> modify (\<lambda>w. w\<lparr>fw_handled := fw_handled w @ [e]\<rparr>))"

text \<open>\<open>utilruntime.HandleError(c())\<close>.\<close>

definition handle_error_of :: "(error option, 'x) proc \<Rightarrow> ('x, unit) fi" where
  "handle_error_of c = bind (app c) fi_HandleError"

definition spawn_goroutine :: "goroutine \<Rightarrow> ('x, unit) fi" where
  "spawn_goroutine g = modify (\<lambda>w. w\<lparr>fw_goroutines := fw_goroutines w @ [g]\<rparr>)"

definition RLock :: "nat \<Rightarrow> ('x, unit) fi" where
  "RLock p = acquire (\<lambda>w. \<not> fs_writer (informer_at p w)) (set_informer p (\<lambda>f. f\<lparr>fs_readers := Suc (fs_readers f)\<rparr>))"

definition RUnlock :: "nat \<Rightarrow> ('x, unit) fi" where
  "RUnlock p = modify (set_informer p (\<lambda>f. f\<lparr>fs_readers := fs_readers f - 1\<rparr>))"

definition Lock :: "nat \<Rightarrow> ('x, unit) fi" where
  "Lock p =
     acquire (\<lambda>w. \<not> fs_writer (informer_at p w) \<and> fs_readers (informer_at p w) = 0)
       (set_informer p (\<lambda>f. f\<lparr>fs_writer := True\<rparr>))"

definition Unlock :: "nat \<Rightarrow> ('x, unit) fi" where
  "Unlock p = modify (set_informer p (\<lambda>f. f\<lparr>fs_writer := False\<rparr>))"

definition Factory_Lock :: "('x, unit) fi" where
  "Factory_Lock = acquire (\<lambda>w. \<not> fw_locked w) (\<lambda>w. w\<lparr>fw_locked := True\<rparr>)"

definition Factory_Unlock :: "('x, unit) fi" where
  "Factory_Unlock = modify (\<lambda>w. w\<lparr>fw_locked := False\<rparr>)"

section \<open>FileSharedIndexInformer\<close>

definition Minute :: int where
  "Minute = 60 * 1000000000"

definition NewFileSharedIndexInformer :: "string \<Rightarrow> nat \<Rightarrow> int \<Rightarrow> 'x FileSharedIndexInformer" where
  "NewFileSharedIndexInformer fileName watcher period =
     \<lparr>fs_once = False, fs_readers = 0, fs_writer = False, fs_defaultEventHandlerResyncPeriod = period,
      fs_fileName = fileName, fs_watcher = watcher, fs_started = False, fs_synced = False, fs_handlers = []\<rparr>"

definition IsStopped :: "nat \<Rightarrow> ('x, bool) fi" where
  "IsStopped p = gets (\<lambda>w. \<not> fs_started (informer_at p w))"

text \<open>The panic leaves the read lock taken: nothing defers its release.\<close>

definition AddEventHandlerWithOptions :: "nat \<Rightarrow> 'x event_handler \<Rightarrow> ('x, error option) fi" where
  "AddEventHandlerWithOptions p h =
     andthen (RLock p)
       (bind (gets (\<lambda>w. fs_started (informer_at p w))) (\<lambda>started.
         if started then Panic ''cannot add event handlers after informer has started''
         else
           andthen (RUnlock p)
             (andthen (Lock p)
               (deferred
                 (andthen (modify (set_informer p (\<lambda>f. f\<lparr>fs_handlers := fs_handlers f @ [h]\<rparr>))) (Return None))
                 (Unlock p)))))"

definition AddEventHandler :: "nat \<Rightarrow> 'x event_handler \<Rightarrow> ('x, error option) fi" where
  "AddEventHandler p h = AddEventHandlerWithOptions p h"

definition AddEventHandlerWithResyncPeriod :: "nat \<Rightarrow> 'x event_handler \<Rightarrow> int \<Rightarrow> ('x, error option) fi" where
  "AddEventHandlerWithResyncPeriod p h period = AddEventHandlerWithOptions p h"

text \<open>The methods that are not implemented panic.\<close>

definition implement_me :: "('x, 'a) fi" where
  "implement_me = Panic ''implement me''"

definition GetStore :: "nat \<Rightarrow> ('x, 'a) fi" where
  "GetStore p = implement_me"

definition GetController :: "nat \<Rightarrow> ('x, 'a) fi" where
  "GetController p = implement_me"

definition LastSyncResourceVersion :: "nat \<Rightarrow> ('x, string) fi" where
  "LastSyncResourceVersion p = implement_me"

definition SetWatchErrorHandler :: "nat \<Rightarrow> 'h \<Rightarrow> ('x, error option) fi" where
  "SetWatchErrorHandler p handler = implement_me"

definition SetWatchErrorHandlerWithContext :: "nat \<Rightarrow> 'h \<Rightarrow> ('x, error option) fi" where
  "SetWatchErrorHandlerWithContext p handler = implement_me"

definition AddIndexers :: "nat \<Rightarrow> 'h \<Rightarrow> ('x, error option) fi" where
  "AddIndexers p indexers = implement_me"

definition GetIndexer :: "nat \<Rightarrow> ('x, 'a) fi" where
  "GetIndexer p = implement_me"

definition SetTransform :: "nat \<Rightarrow> 'h \<Rightarrow> ('x, error option) fi" where
  "SetTransform p f = implement_me"

definition RemoveEventHandler :: "('x, error option) fi" where
  "RemoveEventHandler = Panic ''unimplemented''"

definition HasSynced :: "nat \<Rightarrow> ('x, bool) fi" where
  "HasSynced p =
     andthen (RLock p)
       (deferred
         (bind (gets (\<lambda>w. fs_started (informer_at p w))) (\<lambda>started.
           if \<not> started then Return False else gets (\<lambda>w. fs_synced (informer_at p w))))
         (RUnlock p))"

text \<open>\<open>for _, h := range f.handlers\<close>.\<close>

primrec notify_loop :: "notification \<Rightarrow> 'x event_handler list \<Rightarrow> ('x, unit) fi" where
  "notify_loop n [] = Return ()"
| "notify_loop n (h # hs) = andthen (app (h n)) (notify_loop n hs)"

definition notify_all :: "nat \<Rightarrow> notification \<Rightarrow> ('x, unit) fi" where
  "notify_all p n = bind (gets (\<lambda>w. fs_handlers (informer_at p w))) (notify_loop n)"

definition informer_Run_body :: "'x informer_lib \<Rightarrow> nat \<Rightarrow> ('x, unit) fi" where
  "informer_Run_body L p =
     andthen (Lock p)
       (bind (gets (\<lambda>w. (fs_fileName (informer_at p w), fs_watcher (informer_at p w)))) (\<lambda>(fileName, watcher).
         andthen (handle_error_of (watcher_Add L watcher fileName))
           (andthen (modify (set_informer p (\<lambda>f. f\<lparr>fs_started := True\<rparr>)))
             (andthen (Unlock p)
               (if fileName = [] then Return ()
                else
                  andthen (RLock p)
                    (andthen (notify_all p (OnAdd fileName True))
                      (andthen (RUnlock p)
                        (andthen (Lock p)
                          (andthen (modify (set_informer p (\<lambda>f. f\<lparr>fs_synced := True\<rparr>)))
                            (andthen (Unlock p) (spawn_goroutine (EventLoop p))))))))))))"

text \<open>\<open>sync.Once\<close> marks the call as done also when it panics.\<close>

definition informer_Run :: "'x informer_lib \<Rightarrow> nat \<Rightarrow> ('x, unit) fi" where
  "informer_Run L p =
     bind (gets (\<lambda>w. fs_once (informer_at p w))) (\<lambda>ran.
       if ran then Return ()
       else deferred (informer_Run_body L p) (modify (set_informer p (\<lambda>f. f\<lparr>fs_once := True\<rparr>))))"

definition informer_RunWithContext :: "'x informer_lib \<Rightarrow> nat \<Rightarrow> ('x, unit) fi" where
  "informer_RunWithContext L p = informer_Run L p"

section \<open>The event loop\<close>

datatype loop_input =
    ResyncTimeout
  | FileEvent fs_event
  | EventsClosed
  | WatcherError error
  | ErrorsClosed
  | StopClosed

definition notify_locked :: "nat \<Rightarrow> notification \<Rightarrow> ('x, unit) fi" where
  "notify_locked p n = andthen (RLock p) (andthen (notify_all p n) (RUnlock p))"

text \<open>The branch of a removed file, which tries to watch the file again.\<close>

definition handle_remove :: "'x informer_lib \<Rightarrow> nat \<Rightarrow> string \<Rightarrow> string \<Rightarrow> ('x, unit) fi" where
  "handle_remove L p fileName eventName =
     andthen (RLock p)
       (andthen (notify_all p (OnDelete fileName))
         (bind (gets (\<lambda>w. fs_watcher (informer_at p w))) (\<lambda>watcher.
           andthen (handle_error_of (watcher_Add L watcher eventName)) (RUnlock p))))"

text \<open>One round of the loop; the result says whether the loop goes on.\<close>

fun handle_input :: "'x informer_lib \<Rightarrow> nat \<Rightarrow> string \<Rightarrow> loop_input \<Rightarrow> ('x, bool) fi" where
  "handle_input L p fileName ResyncTimeout = andthen (notify_locked p (OnUpdate fileName fileName)) (Return True)"
| "handle_input L p fileName (FileEvent event) =
     (if ev_Name event \<noteq> fileName then Return True
      else
        andthen (if ev_Has event FsWrite \<or> ev_Has event FsCreate
                 then notify_locked p (OnAdd fileName False) else Return ())
          (andthen (if ev_Has event FsRename \<or> ev_Has event FsChmod
                    then notify_locked p (OnUpdate fileName fileName) else Return ())
            (andthen (if ev_Has event FsRemove then handle_remove L p fileName (ev_Name event) else Return ())
              (Return True))))"
| "handle_input L p fileName EventsClosed = Return False"
| "handle_input L p fileName (WatcherError err) =
     andthen (fi_HandleError (Some (Wrapped ''error watching file: '' err))) (Return True)"
| "handle_input L p fileName ErrorsClosed = Return False"
| "handle_input L p fileName StopClosed = Return False"

text \<open>The deferred function of the goroutine.\<close>

definition stop_watching :: "'x informer_lib \<Rightarrow> nat \<Rightarrow> string \<Rightarrow> ('x, unit) fi" where
  "stop_watching L p fileName =
     andthen (Lock p)
       (deferred
         (bind (gets (\<lambda>w. fs_watcher (informer_at p w))) (\<lambda>watcher.
           andthen (handle_error_of (watcher_Remove L watcher fileName))
             (handle_error_of (watcher_Close L watcher))))
         (Unlock p))"

text \<open>A deferred call on the panicking path only.\<close>

primrec on_panic :: "('a, 'w) proc \<Rightarrow> (unit, 'w) proc \<Rightarrow> ('a, 'w) proc" where
  "on_panic (Return a) d = Return a"
| "on_panic (Panic m) d = bind d (\<lambda>_. Panic m)"
| "on_panic (Step u k) d = Step u (\<lambda>w. on_panic (k w) d)"

text \<open>The loop on the inputs that arrive; the result is true when it still waits for more.\<close>

primrec event_loop :: "'x informer_lib \<Rightarrow> nat \<Rightarrow> string \<Rightarrow> loop_input list \<Rightarrow> ('x, bool) fi" where
  "event_loop L p fileName [] = Return True"
| "event_loop L p fileName (i # is) =
     bind (on_panic (handle_input L p fileName i) (stop_watching L p fileName)) (\<lambda>again.
       if again then event_loop L p fileName is
       else andthen (stop_watching L p fileName) (Return False))"

section \<open>FileInformer and Factory\<close>

definition FileGroupVersion_WithResource :: "string \<Rightarrow> gvr" where
  "FileGroupVersion_WithResource r = \<lparr>Group = ''//LocalFile'', Version = ''v1'', Resource = r\<rparr>"

definition NewFileInformer :: "nat \<Rightarrow> gvr \<Rightarrow> ('x, FileInformer) fi" where
  "NewFileInformer watcher g =
     act (\<lambda>w. (\<lparr>fi_fileName = Resource g, fi_watcher = watcher, fi_informer = length (fw_heap w)\<rparr>,
               w\<lparr>fw_heap := fw_heap w @ [NewFileSharedIndexInformer (Resource g) watcher (1 * Minute)]\<rparr>))"

definition FileInformer_Informer :: "FileInformer \<Rightarrow> nat" where
  "FileInformer_Informer f = fi_informer f"

definition FileInformer_Lister :: "('x, 'a) fi" where
  "FileInformer_Lister = Panic ''implement me''"

definition NewFileInformerFactory :: "'x \<Rightarrow> 'x fi_world" where
  "NewFileInformerFactory x =
     \<lparr>fw_locked = False, fw_informers = [], fw_startedInformers = [], fw_heap = [], fw_goroutines = [],
      fw_handled = [], fw_app = x\<rparr>"

definition is_started :: "'x fi_world \<Rightarrow> gvr \<Rightarrow> bool" where
  "is_started w g = (map_of (fw_startedInformers w) g = Some True)"

primrec start_loop :: "(gvr \<times> FileInformer) list \<Rightarrow> ('x, unit) fi" where
  "start_loop [] = Return ()"
| "start_loop (e # es) =
     andthen
       (bind (gets (\<lambda>w. is_started w (fst e))) (\<lambda>started.
         if \<not> started then
           andthen (spawn_goroutine (RunInformer (FileInformer_Informer (snd e))))
             (modify (\<lambda>w. w\<lparr>fw_startedInformers := AList.update (fst e) True (fw_startedInformers w)\<rparr>))
         else Return ()))
       (start_loop es)"

definition Factory_Start :: "'x informer_lib \<Rightarrow> ('x, unit) fi" where
  "Factory_Start L =
     andthen Factory_Lock
       (deferred (bind (gets fw_informers) (\<lambda>informers. start_loop (informer_order L informers))) Factory_Unlock)"

definition Factory_Shutdown :: "('x, unit) fi" where
  "Factory_Shutdown = Return ()"

definition Factory_ForResource :: "'x informer_lib \<Rightarrow> gvr \<Rightarrow> ('x, FileInformer) fi" where
  "Factory_ForResource L g =
     andthen Factory_Lock
       (deferred
         (bind (gets (\<lambda>w. map_of (fw_informers w) g)) (\<lambda>informer.
           case informer of
             Some i \<Rightarrow> Return i
           | None \<Rightarrow>
               bind (app (fsnotify_NewWatcher L)) (\<lambda>res.
                 case res of
                   Inl err \<Rightarrow> Panic (error_text err)
                 | Inr watcher \<Rightarrow>
                     bind (NewFileInformer watcher g) (\<lambda>i.
                       andthen (modify (\<lambda>w. w\<lparr>fw_informers := AList.update g i (fw_informers w)\<rparr>)) (Return i)))))
         Factory_Unlock)"

primrec wait_loop :: "'x informer_lib \<Rightarrow> (gvr \<times> FileInformer) list \<Rightarrow> (gvr, bool) gomap \<Rightarrow> ('x, (gvr, bool) gomap) fi" where
  "wait_loop L [] res = Return res"
| "wait_loop L (e # es) res =
     bind (cache_WaitForCacheSync L (HasSynced (FileInformer_Informer (snd e)))) (\<lambda>ok.
       wait_loop L es (AList.update (fst e) ok res))"

definition Factory_WaitForCacheSync :: "'x informer_lib \<Rightarrow> ('x, (gvr, bool) gomap) fi" where
  "Factory_WaitForCacheSync L =
     bind
       (andthen Factory_Lock
         (deferred (gets (\<lambda>w. filter (\<lambda>e. is_started w (fst e)) (fw_informers w))) Factory_Unlock))
       (\<lambda>infs. wait_loop L (informer_order L infs) [])"

section \<open>Runs\<close>

text \<open>The informer exists and nobody holds its mutex.\<close>

definition unlocked :: "nat \<Rightarrow> 'x fi_world \<Rightarrow> bool" where
  "unlocked p w \<longleftrightarrow> p < length (fw_heap w) \<and> \<not> fs_writer (informer_at p w) \<and> fs_readers (informer_at p w) = 0"

text \<open>A handler that returns on every notification, and a watcher whose calls return.\<close>

definition quiet :: "'x event_handler \<Rightarrow> bool" where
  "quiet h \<longleftrightarrow> (\<forall>n x. fst (run (h n) x) = Normal ())"

definition watcher_returns :: "'x informer_lib \<Rightarrow> bool" where
  "watcher_returns L \<longleftrightarrow>
     (\<forall>wt s x. (\<exists>e. fst (run (watcher_Add L wt s) x) = Normal e) \<and>
               (\<exists>e. fst (run (watcher_Remove L wt s) x) = Normal e) \<and>
               (\<exists>e. fst (run (watcher_Close L wt) x) = Normal e))"

text \<open>The effect of a notification on handlers that return, in the order of their registration.\<close>

definition deliver :: "'x event_handler list \<Rightarrow> notification \<Rightarrow> 'x \<Rightarrow> 'x" where
  "deliver hs n = fold (\<lambda>h x. snd (run (h n) x)) hs"

text \<open>The effect of \<open>utilruntime.HandleError(call())\<close> on the reported errors and the rest.\<close>

definition report :: "(error option, 'x) proc \<Rightarrow> error list \<times> 'x \<Rightarrow> error list \<times> 'x" where
  "report c s =
     (case run c (snd s) of
        (Normal (Some e), x) \<Rightarrow> (fst s @ [e], x)
      | (_, x) \<Rightarrow> (fst s, x))"

definition outside :: "'x fi_world \<Rightarrow> error list \<times> 'x" where
  "outside w = (fw_handled w, fw_app w)"

definition with_outside :: "error list \<times> 'x \<Rightarrow> 'x fi_world \<Rightarrow> 'x fi_world" where
  "with_outside s w = w\<lparr>fw_handled := fst s, fw_app := snd s\<rparr>"

lemma outside_with [simp]: "outside (with_outside s w) = s"
  by (simp add: outside_def with_outside_def)

lemma with_outside_twice [simp]: "with_outside s (with_outside t w) = with_outside s w"
  by (simp add: with_outside_def)

lemma with_outside_id [simp]: "with_outside (outside w) w = w"
  by (simp add: with_outside_def outside_def)

lemma informer_at_with_outside [simp]: "informer_at p (with_outside s w) = informer_at p w"
  by (simp add: informer_at_def with_outside_def)

lemma heap_with_outside [simp]: "fw_heap (with_outside s w) = fw_heap w"
  by (simp add: with_outside_def)

lemma unlocked_with_outside [simp]: "unlocked p (with_outside s w) = unlocked p w"
  by (simp add: unlocked_def)

lemma set_informer_with_outside: "set_informer p f (with_outside s w) = with_outside s (set_informer p f w)"
  by (simp add: set_informer_def with_outside_def)

lemma outside_set_informer [simp]: "outside (set_informer p f w) = outside w"
  by (simp add: outside_def set_informer_def)

lemma informer_at_set [simp]:
  "p < length (fw_heap w) \<Longrightarrow> informer_at p (set_informer p f w) = f (informer_at p w)"
  by (simp add: informer_at_def set_informer_def)

lemma length_set_informer [simp]: "length (fw_heap (set_informer p f w)) = length (fw_heap w)"
  by (simp add: set_informer_def)

lemma set_informer_twice [simp]:
  "p < length (fw_heap w) \<Longrightarrow> set_informer p f (set_informer p g w) = set_informer p (\<lambda>i. f (g i)) w"
  by (simp add: set_informer_def)

lemma set_informer_same: "p < length (fw_heap w) \<Longrightarrow> f (informer_at p w) = informer_at p w \<Longrightarrow> set_informer p f w = w"
  by (simp add: set_informer_def informer_at_def)

lemma set_informer_cong:
  "f (informer_at p w) = g (informer_at p w) \<Longrightarrow> set_informer p f w = set_informer p g w"
  by (simp add: set_informer_def informer_at_def)

lemma run_app: "run (app c) w = (case run c (fw_app w) of (r, x) \<Rightarrow> (r, w\<lparr>fw_app := x\<rparr>))"
  unfolding app_def by (rule run_embed) simp_all

lemma run_report:
  assumes "\<exists>e. fst (run c (fw_app w)) = Normal e"
  shows "run (handle_error_of c) w = (Normal (), with_outside (report c (outside w)) w)"
  using assms
  by (auto simp: handle_error_of_def run_app report_def outside_def with_outside_def fi_HandleError_def
      split: prod.split option.split outcome.split)

lemma run_notify_loop:
  assumes "\<forall>h \<in> set hs. quiet h"
  shows "run (notify_loop n hs) w = (Normal (), w\<lparr>fw_app := deliver hs n (fw_app w)\<rparr>)"
  using assms
proof (induction hs arbitrary: w)
  case (Cons h hs)
  then have "fst (run (h n) (fw_app w)) = Normal ()" by (simp add: quiet_def)
  with Cons show ?case by (auto simp: run_app deliver_def split: prod.split)
qed (simp add: deliver_def)

text \<open>All handlers of an informer are notified while its read lock is held.\<close>

definition handlers_quiet :: "nat \<Rightarrow> 'x fi_world \<Rightarrow> bool" where
  "handlers_quiet p w \<longleftrightarrow> (\<forall>h \<in> set (fs_handlers (informer_at p w)). quiet h)"

definition deliver_outside :: "'x event_handler list \<Rightarrow> notification \<Rightarrow> error list \<times> 'x \<Rightarrow> error list \<times> 'x" where
  "deliver_outside hs n s = (fst s, deliver hs n (snd s))"

lemma run_notify_all:
  assumes "handlers_quiet p w"
  shows "run (notify_all p n) w =
    (Normal (), with_outside (deliver_outside (fs_handlers (informer_at p w)) n (outside w)) w)"
  using assms
  by (simp add: notify_all_def handlers_quiet_def run_notify_loop with_outside_def deliver_outside_def outside_def)

lemma run_RLock [simp]:
  "run (RLock p) w = (if fs_writer (informer_at p w) then (Panicked blocked, w)
     else (Normal (), set_informer p (\<lambda>f. f\<lparr>fs_readers := Suc (fs_readers f)\<rparr>) w))"
  by (simp add: RLock_def)

lemma run_RUnlock [simp]:
  "run (RUnlock p) w = (Normal (), set_informer p (\<lambda>f. f\<lparr>fs_readers := fs_readers f - 1\<rparr>) w)"
  by (simp add: RUnlock_def)

lemma run_Lock [simp]:
  "run (Lock p) w = (if fs_writer (informer_at p w) \<or> fs_readers (informer_at p w) \<noteq> 0 then (Panicked blocked, w)
     else (Normal (), set_informer p (\<lambda>f. f\<lparr>fs_writer := True\<rparr>) w))"
  by (auto simp: Lock_def)

lemma run_Unlock [simp]: "run (Unlock p) w = (Normal (), set_informer p (\<lambda>f. f\<lparr>fs_writer := False\<rparr>) w)"
  by (simp add: Unlock_def)

lemma handlers_quiet_outside [simp]: "handlers_quiet p (with_outside s w) = handlers_quiet p w"
  by (simp add: handlers_quiet_def)

lemma run_notify_locked:
  assumes "unlocked p w" and "handlers_quiet p w"
  shows "run (notify_locked p n) w =
    (Normal (), with_outside (deliver_outside (fs_handlers (informer_at p w)) n (outside w)) w)"
proof -
  let ?w = "set_informer p (\<lambda>f. f\<lparr>fs_readers := Suc (fs_readers f)\<rparr>) w"
  have p: "p < length (fw_heap w)" using assms(1) by (simp add: unlocked_def)
  then have "handlers_quiet p ?w" using assms(2) by (simp add: handlers_quiet_def)
  from run_notify_all [OF this] p assms(1) show ?thesis
    by (simp add: notify_locked_def unlocked_def set_informer_with_outside) (subst set_informer_same, simp_all)
qed

section \<open>What the event loop does\<close>

text \<open>The notifications an event of the watcher stands for.\<close>

definition notifications :: "string \<Rightarrow> fs_event \<Rightarrow> notification list" where
  "notifications fileName event =
     (if ev_Name event \<noteq> fileName then []
      else (if ev_Has event FsWrite \<or> ev_Has event FsCreate then [OnAdd fileName False] else []) @
           (if ev_Has event FsRename \<or> ev_Has event FsChmod then [OnUpdate fileName fileName] else []) @
           (if ev_Has event FsRemove then [OnDelete fileName] else []))"

text \<open>The effect of one input on the reported errors and the state of the handlers.\<close>

fun input_effect ::
    "'x informer_lib \<Rightarrow> nat \<Rightarrow> 'x event_handler list \<Rightarrow> string \<Rightarrow> loop_input \<Rightarrow> error list \<times> 'x \<Rightarrow> error list \<times> 'x" where
  "input_effect L wt hs fileName ResyncTimeout s = deliver_outside hs (OnUpdate fileName fileName) s"
| "input_effect L wt hs fileName (FileEvent event) s =
     (if ev_Name event = fileName \<and> ev_Has event FsRemove then report (watcher_Add L wt fileName) else id)
       (fold (deliver_outside hs) (notifications fileName event) s)"
| "input_effect L wt hs fileName (WatcherError err) s = (fst s @ [Wrapped ''error watching file: '' err], snd s)"
| "input_effect L wt hs fileName _ s = s"

definition loop_ends :: "loop_input \<Rightarrow> bool" where
  "loop_ends i \<longleftrightarrow> i = EventsClosed \<or> i = ErrorsClosed \<or> i = StopClosed"

definition stop_effect :: "'x informer_lib \<Rightarrow> nat \<Rightarrow> string \<Rightarrow> error list \<times> 'x \<Rightarrow> error list \<times> 'x" where
  "stop_effect L wt fileName s = report (watcher_Close L wt) (report (watcher_Remove L wt fileName) s)"

lemma run_on_panic_normal: "run c w = (Normal a, w') \<Longrightarrow> run (on_panic c d) w = (Normal a, w')"
  by (induction c arbitrary: w) auto

lemma run_on_panic_panicked: "run c w = (Panicked m, w') \<Longrightarrow> run (on_panic c d) w =
    (case run d w' of (Normal _, w'') \<Rightarrow> (Panicked m, w'') | (Panicked m', w'') \<Rightarrow> (Panicked m', w''))"
  by (induction c arbitrary: w) (auto split: prod.split outcome.split)

lemma run_handle_remove:
  assumes "unlocked p w" and "handlers_quiet p w" and "watcher_returns L"
  shows "run (handle_remove L p fileName eventName) w =
    (Normal (), with_outside (report (watcher_Add L (fs_watcher (informer_at p w)) eventName)
       (deliver_outside (fs_handlers (informer_at p w)) (OnDelete fileName) (outside w))) w)"
proof -
  let ?w = "set_informer p (\<lambda>f. f\<lparr>fs_readers := Suc (fs_readers f)\<rparr>) w"
  have p: "p < length (fw_heap w)" using assms(1) by (simp add: unlocked_def)
  then have "handlers_quiet p ?w" using assms(2) by (simp add: handlers_quiet_def)
  from run_notify_all [OF this] p assms(1) assms(3) show ?thesis
    by (simp add: handle_remove_def unlocked_def set_informer_with_outside run_report watcher_returns_def)
      (subst set_informer_same, simp_all)
qed

lemma run_handle_input:
  assumes "unlocked p w" and "handlers_quiet p w" and "watcher_returns L"
  shows "run (handle_input L p fileName i) w =
    (Normal (\<not> loop_ends i),
     with_outside (input_effect L (fs_watcher (informer_at p w)) (fs_handlers (informer_at p w)) fileName i (outside w)) w)"
proof (cases i)
  case (FileEvent event)
  with assms show ?thesis
    by (auto simp: run_notify_locked notifications_def loop_ends_def run_handle_remove)
next
  case (WatcherError err)
  then show ?thesis by (simp add: loop_ends_def fi_HandleError_def with_outside_def outside_def)
qed (use assms in \<open>simp_all add: loop_ends_def run_notify_locked\<close>)

lemma run_stop_watching:
  assumes "unlocked p w" and "watcher_returns L"
  shows "run (stop_watching L p fileName) w =
    (Normal (), with_outside (stop_effect L (fs_watcher (informer_at p w)) fileName (outside w)) w)"
proof -
  have p: "p < length (fw_heap w)" using assms(1) by (simp add: unlocked_def)
  with assms show ?thesis
    by (simp add: stop_watching_def unlocked_def set_informer_with_outside run_report watcher_returns_def
        stop_effect_def) (subst set_informer_same, simp_all)
qed

lemma run_event_loop:
  assumes "unlocked p w" and "handlers_quiet p w" and "watcher_returns L"
    and "wt = fs_watcher (informer_at p w)" and "hs = fs_handlers (informer_at p w)"
  shows "run (event_loop L p fileName inputs) w =
    (let s = fold (input_effect L wt hs fileName) (takeWhile (\<lambda>i. \<not> loop_ends i) inputs) (outside w) in
     if list_ex loop_ends inputs then (Normal False, with_outside (stop_effect L wt fileName s) w)
     else (Normal True, with_outside s w))"
  using assms
proof (induction inputs arbitrary: w)
  case (Cons i inputs)
  let ?w = "with_outside (input_effect L wt hs fileName i (outside w)) w"
  have input: "run (on_panic (handle_input L p fileName i) d) w = (Normal (\<not> loop_ends i), ?w)" for d
    using run_handle_input [OF Cons.prems(1-3)] Cons.prems(4,5) by (simp add: run_on_panic_normal)
  show ?case
  proof (cases "loop_ends i")
    case True
    then have "input_effect L wt hs fileName i (outside w) = outside w" by (auto simp: loop_ends_def)
    with True input run_stop_watching [OF Cons.prems(1,3)] Cons.prems(4) show ?thesis by simp
  next
    case False
    with input Cons.IH [of ?w] Cons.prems show ?thesis by (simp add: Let_def)
  qed
qed simp

text \<open>The first call of \<open>Run\<close> on an informer whose mutex is free.\<close>

lemma run_informer_Run:
  assumes "unlocked p w" and "handlers_quiet p w" and "watcher_returns L"
    and "\<not> fs_once (informer_at p w)" and "fs_fileName (informer_at p w) = fileName"
  shows "run (informer_Run L p) w =
    (Normal (),
     if fileName = []
     then set_informer p (\<lambda>f. f\<lparr>fs_started := True, fs_once := True\<rparr>)
            (with_outside (report (watcher_Add L (fs_watcher (informer_at p w)) fileName) (outside w)) w)
     else set_informer p (\<lambda>f. f\<lparr>fs_started := True, fs_synced := True, fs_once := True\<rparr>)
            ((with_outside (deliver_outside (fs_handlers (informer_at p w)) (OnAdd fileName True)
                (report (watcher_Add L (fs_watcher (informer_at p w)) fileName) (outside w))) w)
              \<lparr>fw_goroutines := fw_goroutines w @ [EventLoop p]\<rparr>))"
proof -
  have p: "p < length (fw_heap w)" "\<not> fs_writer (informer_at p w)" "fs_readers (informer_at p w) = 0"
    using assms(1) by (simp_all add: unlocked_def)
  have quiet: "handlers_quiet p (set_informer p g w)" if "\<And>i. fs_handlers (g i) = fs_handlers i" for g
    using assms(2) p(1) that by (simp add: handlers_quiet_def)
  show ?thesis
  proof (cases "fileName = []")
    case True
    with p assms(3-5) show ?thesis
      by (simp add: informer_Run_def informer_Run_body_def set_informer_with_outside run_report watcher_returns_def)
        (rule arg_cong [where f = "with_outside _"], rule set_informer_cong, simp)
  next
    case False
    with p assms(3-5) show ?thesis
      by (simp add: informer_Run_def informer_Run_body_def set_informer_with_outside run_report watcher_returns_def
          run_notify_all quiet spawn_goroutine_def)
        (cases "fw_heap w ! p", simp add: set_informer_def with_outside_def informer_at_def)
  qed
qed

lemma informer_Run_effect:
  assumes "unlocked p w" and "handlers_quiet p w" and "watcher_returns L"
    and "\<not> fs_once (informer_at p w)" and "fs_fileName (informer_at p w) = fileName"
  shows "\<exists>w'. run (informer_Run L p) w = (Normal (), w') \<and> length (fw_heap w') = length (fw_heap w) \<and>
    informer_at p w' = (informer_at p w)
      \<lparr>fs_started := True, fs_synced := fileName \<noteq> [] \<or> fs_synced (informer_at p w), fs_once := True\<rparr> \<and>
    fw_goroutines w' = fw_goroutines w @ (if fileName = [] then [] else [EventLoop p]) \<and>
    outside w' = (if fileName = [] then id else deliver_outside (fs_handlers (informer_at p w)) (OnAdd fileName True))
      (report (watcher_Add L (fs_watcher (informer_at p w)) fileName) (outside w))"
proof -
  have "p < length (fw_heap w)" using assms(1) by (simp add: unlocked_def)
  then show ?thesis
    using run_informer_Run [OF assms]
    by (cases "fileName = []"; cases "fw_heap w ! p")
      (auto simp: set_informer_def informer_at_def with_outside_def outside_def)
qed

section \<open>The invariant of the factory\<close>

text \<open>Every registered informer exists and watches the file its resource names, no two resources share
  an informer, a started resource is registered, an informer that has synced has started, and the
  goroutines launched for informers are exactly those of the started resources, one each.\<close>

definition runs :: "'x fi_world \<Rightarrow> nat list" where
  "runs w = concat (map (\<lambda>g. case g of RunInformer p \<Rightarrow> [p] | EventLoop _ \<Rightarrow> []) (fw_goroutines w))"

definition registered :: "'x fi_world \<Rightarrow> gvr \<Rightarrow> nat \<Rightarrow> bool" where
  "registered w g p \<longleftrightarrow> (\<exists>i. map_of (fw_informers w) g = Some i \<and> fi_informer i = p)"

definition heap_ok :: "'x fi_world \<Rightarrow> bool" where
  "heap_ok w \<longleftrightarrow> gomap_ok (fw_informers w) \<and>
     (\<forall>g i. map_of (fw_informers w) g = Some i \<longrightarrow>
        fi_informer i < length (fw_heap w) \<and> fi_fileName i = Resource g \<and>
        fs_fileName (fw_heap w ! fi_informer i) = Resource g) \<and>
     (\<forall>p < length (fw_heap w). fs_synced (fw_heap w ! p) \<longrightarrow> fs_started (fw_heap w ! p))"

definition registry_ok :: "'x fi_world \<Rightarrow> bool" where
  "registry_ok w \<longleftrightarrow>
     (\<forall>g g' p. registered w g p \<longrightarrow> registered w g' p \<longrightarrow> g = g') \<and>
     (\<forall>g. is_started w g \<longrightarrow> (\<exists>p. registered w g p)) \<and>
     distinct (runs w) \<and>
     (\<forall>p. p \<in> set (runs w) \<longleftrightarrow> (\<exists>g. is_started w g \<and> registered w g p))"

definition factory_ok :: "'x fi_world \<Rightarrow> bool" where
  "factory_ok w \<longleftrightarrow> heap_ok w \<and> registry_ok w"

lemma registry_ok_cong:
  assumes "fw_informers w' = fw_informers w" and "fw_startedInformers w' = fw_startedInformers w" and "runs w' = runs w"
  shows "registry_ok w' = registry_ok w"
proof -
  have "registered w' = registered w" "is_started w' = is_started w"
    by (simp_all add: fun_eq_iff registered_def is_started_def assms)
  then show ?thesis by (simp add: registry_ok_def assms(3))
qed

text \<open>What the code of a single informer changes.\<close>

lemma factory_ok_set_informer:
  assumes "factory_ok w" and "\<And>i. fs_fileName (f i) = fs_fileName i"
    and "p < length (fw_heap w) \<Longrightarrow> fs_synced (f (fw_heap w ! p)) \<Longrightarrow> fs_started (f (fw_heap w ! p))"
  shows "factory_ok (set_informer p f w)"
proof -
  have "registry_ok (set_informer p f w) = registry_ok w"
    by (rule registry_ok_cong) (simp_all add: set_informer_def runs_def)
  moreover have "heap_ok (set_informer p f w)"
    using assms
    by (cases "p < length (fw_heap w)")
      (auto simp: factory_ok_def heap_ok_def set_informer_def nth_list_update list_update_beyond)
  ultimately show ?thesis using assms(1) by (simp add: factory_ok_def)
qed

lemma factory_ok_lock:
  "factory_ok w \<Longrightarrow> (\<And>i. fs_fileName (f i) = fs_fileName i \<and> fs_synced (f i) = fs_synced i \<and> fs_started (f i) = fs_started i) \<Longrightarrow>
   factory_ok (set_informer p f w)"
  by (rule factory_ok_set_informer) (simp_all add: factory_ok_def heap_ok_def)

lemma factory_ok_app [simp]: "factory_ok (w\<lparr>fw_app := x\<rparr>) = factory_ok w"
  by (simp add: factory_ok_def heap_ok_def registry_ok_def registered_def is_started_def runs_def)

lemma factory_ok_handled [simp]: "factory_ok (w\<lparr>fw_handled := es\<rparr>) = factory_ok w"
  by (simp add: factory_ok_def heap_ok_def registry_ok_def registered_def is_started_def runs_def)

lemma factory_ok_locked [simp]: "factory_ok (w\<lparr>fw_locked := b\<rparr>) = factory_ok w"
  by (simp add: factory_ok_def heap_ok_def registry_ok_def registered_def is_started_def runs_def)

lemma factory_ok_event_loop [simp]:
  "factory_ok (w\<lparr>fw_goroutines := fw_goroutines w @ [EventLoop p]\<rparr>) = factory_ok w"
  by (simp add: factory_ok_def heap_ok_def registry_ok_def registered_def is_started_def runs_def)

lemma keeps_app [simp]: "keeps factory_ok (app c)"
  unfolding app_def by (rule keeps_embed) simp

lemma keeps_acquire: "(\<And>w. I w \<Longrightarrow> I (grab w)) \<Longrightarrow> keeps I (acquire free grab)"
  unfolding acquire_def by (auto intro!: keeps_bind keeps_act)

lemma keeps_locks [simp]:
  "keeps factory_ok (RLock p)" "keeps factory_ok (RUnlock p)" "keeps factory_ok (Lock p)" "keeps factory_ok (Unlock p)"
  "keeps factory_ok Factory_Lock" "keeps factory_ok Factory_Unlock"
  unfolding RLock_def RUnlock_def Lock_def Unlock_def Factory_Lock_def Factory_Unlock_def
  by (auto intro!: keeps_acquire keeps_modify factory_ok_lock)

lemma keeps_errors [simp]: "keeps factory_ok (fi_HandleError e)" "keeps factory_ok (handle_error_of c)"
  by (auto simp: fi_HandleError_def handle_error_of_def intro!: keeps_bind keeps_modify split: option.split)

lemma keeps_notify [simp]: "keeps factory_ok (notify_all p n)" "keeps factory_ok (notify_locked p n)"
proof -
  have "keeps factory_ok (notify_loop n hs)" for hs by (induction hs) (auto intro!: keeps_andthen)
  then show "keeps factory_ok (notify_all p n)" by (auto simp: notify_all_def intro!: keeps_bind)
  then show "keeps factory_ok (notify_locked p n)" by (auto simp: notify_locked_def intro!: keeps_andthen)
qed

lemma keeps_handle_input: "keeps factory_ok (handle_input L p fileName i)"
  by (cases i) (auto simp: handle_remove_def intro!: keeps_intros)

lemma keeps_stop_watching: "keeps factory_ok (stop_watching L p fileName)"
  by (auto simp: stop_watching_def intro!: keeps_intros)

lemma keeps_on_panic:
  assumes "keeps I c" and "keeps I d"
  shows "keeps I (on_panic c d)"
proof -
  have "run (on_panic c d) w = run c w \<or> (\<exists>w' m. run c w = (Panicked m, w') \<and> snd (run (on_panic c d) w) = snd (run d w'))" for w
    by (induction c arbitrary: w) (auto split: prod.split outcome.split)
  then show ?thesis
    using assms unfolding keeps_def triple_def by (metis keeps_def keeps_run snd_conv assms(2) outcome.distinct(1))
qed

lemma keeps_event_loop: "keeps factory_ok (event_loop L p fileName inputs)"
  by (induction inputs) (auto intro!: keeps_intros keeps_on_panic keeps_handle_input keeps_stop_watching)

lemma keeps_AddEventHandler: "keeps factory_ok (AddEventHandler p h)"
  unfolding AddEventHandler_def AddEventHandlerWithOptions_def
  by (auto intro!: keeps_intros keeps_modify factory_ok_lock)

lemma keeps_HasSynced: "keeps factory_ok (HasSynced p)"
  by (auto simp: HasSynced_def intro!: keeps_intros)

text \<open>The code of \<open>Run\<close> after it has marked the informer as started.\<close>

definition started_ok :: "nat \<Rightarrow> 'x fi_world \<Rightarrow> bool" where
  "started_ok p w \<longleftrightarrow> factory_ok w \<and> (p < length (fw_heap w) \<longrightarrow> fs_started (fw_heap w ! p))"

lemma started_ok_lock:
  "started_ok p w \<Longrightarrow> (\<And>i. fs_fileName (f i) = fs_fileName i \<and> fs_synced (f i) = fs_synced i \<and> fs_started (f i) = fs_started i) \<Longrightarrow>
   started_ok p (set_informer p f w)"
  unfolding started_ok_def using factory_ok_lock [of w f p] by (simp add: set_informer_def)

lemma keeps_started_locks:
  "keeps (started_ok p) (RLock p)" "keeps (started_ok p) (RUnlock p)" "keeps (started_ok p) (Lock p)" "keeps (started_ok p) (Unlock p)"
  unfolding RLock_def RUnlock_def Lock_def Unlock_def
  by (auto intro!: keeps_acquire keeps_modify started_ok_lock)

lemma keeps_started_notify: "keeps (started_ok p) (notify_all p n :: ('x, unit) fi)"
proof -
  have "keeps (started_ok p) (app c)" for c :: "(unit, 'x) proc"
    unfolding app_def by (rule keeps_embed) (simp add: started_ok_def)
  then have "keeps (started_ok p) (notify_loop n hs)" for hs :: "'x event_handler list" by (induction hs) (auto intro!: keeps_andthen)
  then show ?thesis by (auto simp: notify_all_def intro!: keeps_bind)
qed

lemma triple_weaken: "keeps I c \<Longrightarrow> (\<And>w. I w \<Longrightarrow> E w) \<Longrightarrow> triple I c (\<lambda>_. I) E"
  unfolding keeps_def by (rule triple_conseq)

lemma keeps_informer_Run:
  fixes L :: "'x informer_lib"
  shows "keeps factory_ok (informer_Run L p)"
proof -
  have weaken: "started_ok p w \<Longrightarrow> factory_ok w" for w :: "'x fi_world" by (simp add: started_ok_def)
  note started = keeps_started_locks [THEN triple_weaken, OF weaken] keeps_started_notify [THEN triple_weaken, OF weaken]
  have set_started: "factory_ok w \<Longrightarrow> started_ok p (set_informer p (\<lambda>f. f\<lparr>fs_started := True\<rparr>) w)" for w :: "'x fi_world"
    by (simp add: started_ok_def factory_ok_set_informer) (simp add: set_informer_def)
  have set_synced: "started_ok p w \<Longrightarrow> factory_ok (set_informer p (\<lambda>f. f\<lparr>fs_synced := True\<rparr>) w)" for w :: "'x fi_world"
    by (rule factory_ok_set_informer) (auto simp: started_ok_def)
  have rest: "triple (started_ok p)
      (if fileName = [] then Return ()
       else andthen (RLock p :: ('x, unit) fi) (andthen (notify_all p (OnAdd fileName True)) (andthen (RUnlock p) (andthen (Lock p)
         (andthen (modify (set_informer p (\<lambda>f. f\<lparr>fs_synced := True\<rparr>)))
           (andthen (Unlock p) (spawn_goroutine (EventLoop p)))))))) (\<lambda>_. factory_ok) factory_ok"
    for fileName :: string
  proof (cases "fileName = []")
    case True
    then show ?thesis by (auto intro!: triple_Return weaken)
  next
    case False
    have "keeps factory_ok (andthen (Unlock p :: ('x, unit) fi) (spawn_goroutine (EventLoop p)))"
      by (auto simp: spawn_goroutine_def intro!: keeps_andthen keeps_modify)
    then have "triple (started_ok p) (andthen (modify (set_informer p (\<lambda>f. f\<lparr>fs_synced := True\<rparr>)))
        (andthen (Unlock p :: ('x, unit) fi) (spawn_goroutine (EventLoop p)))) (\<lambda>_. factory_ok) factory_ok"
      unfolding keeps_def by (rule triple_andthen [rotated]) (auto intro: triple_modify set_synced)
    with False show ?thesis
      by (simp add: triple_andthen [OF started(1)] triple_andthen [OF started(2)] triple_andthen [OF started(3)]
          triple_andthen [OF started(5)])
  qed
  have "keeps factory_ok (andthen (modify (set_informer p (\<lambda>f. f\<lparr>fs_started := True\<rparr>))) (andthen (Unlock p) d))"
    if "triple (started_ok p) d (\<lambda>_. factory_ok) factory_ok" for d :: "('x, unit) fi"
    unfolding keeps_def
    by (rule triple_andthen [where Q = "started_ok p"])
      (auto intro: triple_modify set_started triple_andthen [OF started(4) that])
  note body = this [OF rest]
  have "keeps factory_ok (informer_Run_body L p)"
    unfolding informer_Run_body_def case_prod_unfold
    by (rule keeps_andthen [OF keeps_locks(3)], rule keeps_bind [OF keeps_simps(3)],
        rule keeps_andthen [OF keeps_errors(2)], rule body)
  then show ?thesis
    unfolding informer_Run_def by (auto intro!: keeps_intros keeps_modify factory_ok_lock)
qed

text \<open>A new informer.\<close>

lemma factory_ok_new:
  assumes ok: "factory_ok w" and new: "map_of (fw_informers w) g = None"
    and i: "i = \<lparr>fi_fileName = Resource g, fi_watcher = wt, fi_informer = length (fw_heap w)\<rparr>"
  shows "factory_ok (w\<lparr>fw_heap := fw_heap w @ [NewFileSharedIndexInformer (Resource g) wt period],
      fw_informers := AList.update g i (fw_informers w)\<rparr>)" (is "factory_ok ?w")
proof -
  have old: "registered w g' p \<Longrightarrow> p < length (fw_heap w)" for g' p
    using ok by (auto simp: factory_ok_def heap_ok_def registered_def)
  have reg: "registered ?w g' p \<longleftrightarrow> (if g' = g then p = length (fw_heap w) else registered w g' p)" for g' p
    by (auto simp: registered_def update_conv' i)
  have st: "is_started ?w = is_started w" "runs ?w = runs w" by (simp_all add: fun_eq_iff is_started_def runs_def)
  have "\<not> is_started w g"
    using ok new by (auto simp: factory_ok_def registry_ok_def registered_def)
  then have "registry_ok ?w"
    using ok old unfolding factory_ok_def registry_ok_def st reg by (auto dest: old split: if_splits) metis+
  moreover have "heap_ok ?w"
    using ok by (auto simp: factory_ok_def heap_ok_def update_conv' i nth_append NewFileSharedIndexInformer_def
        less_Suc_eq split: if_splits)
  ultimately show ?thesis by (simp add: factory_ok_def)
qed

lemma keeps_ForResource: "keeps factory_ok (Factory_ForResource L g)"
proof -
  have "factory_ok (snd (run (Factory_ForResource L g) w))" if "factory_ok w" for w
    using that factory_ok_new [of "w\<lparr>fw_locked := True, fw_app := x\<rparr>" g _ wt "1 * Minute" for x wt]
    by (auto simp: Factory_ForResource_def Factory_Lock_def Factory_Unlock_def NewFileInformer_def run_app
        split: option.split prod.split sum.split outcome.split)
  then show ?thesis unfolding keeps_def triple_def by (metis snd_conv)
qed

text \<open>The launch of a registered informer.\<close>

definition launch :: "gvr \<times> FileInformer \<Rightarrow> 'x fi_world \<Rightarrow> 'x fi_world" where
  "launch e w =
     (if is_started w (fst e) then w
      else w\<lparr>fw_goroutines := fw_goroutines w @ [RunInformer (fi_informer (snd e))],
             fw_startedInformers := AList.update (fst e) True (fw_startedInformers w)\<rparr>)"

lemma run_start_loop: "run (start_loop es) w = (Normal (), fold launch es w)"
  by (induction es arbitrary: w) (auto simp: launch_def spawn_goroutine_def FileInformer_Informer_def)

lemma launch_frame [simp]:
  "fw_informers (launch e w) = fw_informers w" "fw_heap (launch e w) = fw_heap w" "registered (launch e w) = registered w"
  "fw_app (launch e w) = fw_app w" "fw_handled (launch e w) = fw_handled w" "fw_locked (launch e w) = fw_locked w"
  by (simp_all add: launch_def registered_def fun_eq_iff)

lemma is_started_launch [simp]: "is_started (launch e w) g \<longleftrightarrow> g = fst e \<or> is_started w g"
  by (auto simp: launch_def is_started_def update_conv')

lemma factory_ok_launch:
  assumes ok: "factory_ok w" and e: "map_of (fw_informers w) (fst e) = Some (snd e)"
  shows "factory_ok (launch e w)"
proof (cases "is_started w (fst e)")
  case True
  with ok show ?thesis by (simp add: launch_def)
next
  case False
  have reg: "registered w (fst e) (fi_informer (snd e))" using e by (simp add: registered_def)
  have runs: "runs (launch e w) = runs w @ [fi_informer (snd e)]" using False by (simp add: launch_def runs_def)
  have "fi_informer (snd e) \<notin> set (runs w)"
    using ok reg False unfolding factory_ok_def registry_ok_def by metis
  moreover have "p \<in> set (runs (launch e w)) \<longleftrightarrow> (\<exists>g. is_started (launch e w) g \<and> registered (launch e w) g p)" for p
  proof -
    have "p \<in> set (runs w) \<longleftrightarrow> (\<exists>g. is_started w g \<and> registered w g p)"
      using ok by (auto simp: factory_ok_def registry_ok_def)
    moreover have "registered w (fst e) p \<longleftrightarrow> p = fi_informer (snd e)" using e by (auto simp: registered_def)
    ultimately show ?thesis by (auto simp: runs)
  qed
  ultimately have "registry_ok (launch e w)"
    using ok reg unfolding factory_ok_def registry_ok_def by (auto simp: runs)
  then show ?thesis using ok by (simp add: factory_ok_def heap_ok_def)
qed

lemma fold_launch:
  assumes "factory_ok w" and "\<forall>e \<in> set es. map_of (fw_informers w) (fst e) = Some (snd e)"
  shows "factory_ok (fold launch es w) \<and> fw_informers (fold launch es w) = fw_informers w \<and>
    fw_heap (fold launch es w) = fw_heap w \<and> fw_app (fold launch es w) = fw_app w \<and>
    fw_handled (fold launch es w) = fw_handled w \<and> fw_locked (fold launch es w) = fw_locked w \<and>
    (\<forall>g. is_started (fold launch es w) g \<longleftrightarrow> g \<in> fst ` set es \<or> is_started w g)"
  using assms
proof (induction es arbitrary: w)
  case (Cons e es)
  then have "factory_ok (launch e w)" by (simp add: factory_ok_launch)
  with Cons.IH [of "launch e w"] Cons.prems show ?case by auto
qed simp

text \<open>A call of \<open>Start\<close> while the factory's mutex is free.\<close>

lemma run_Factory_Start:
  assumes "\<not> fw_locked w"
  shows "run (Factory_Start L) w =
    (Normal (), (fold launch (informer_order L (fw_informers w)) (w\<lparr>fw_locked := True\<rparr>))\<lparr>fw_locked := False\<rparr>)"
  using assms by (simp add: Factory_Start_def Factory_Lock_def Factory_Unlock_def run_start_loop)

lemma Factory_Start_effect:
  assumes "factory_ok w" and "range_order (informer_order L)" and "\<not> fw_locked w"
  shows "\<exists>w'. run (Factory_Start L) w = (Normal (), w') \<and> factory_ok w' \<and> fw_informers w' = fw_informers w \<and>
    fw_heap w' = fw_heap w \<and> fw_app w' = fw_app w \<and> fw_handled w' = fw_handled w \<and> \<not> fw_locked w' \<and>
    (\<forall>g. is_started w' g \<longleftrightarrow> map_of (fw_informers w) g \<noteq> None)"
proof -
  let ?es = "informer_order L (fw_informers w)" and ?w = "w\<lparr>fw_locked := True\<rparr>"
  have ok: "gomap_ok (fw_informers w)" using assms(1) by (simp add: factory_ok_def heap_ok_def)
  have es: "set ?es = set (fw_informers w)" using assms(2) by (rule range_order_set)
  have "\<forall>e \<in> set ?es. map_of (fw_informers ?w) (fst e) = Some (snd e)"
    using ok unfolding es by (auto simp: gomap_ok_def)
  from fold_launch [OF _ this] assms(1) have launched: "factory_ok (fold launch ?es ?w)"
    "fw_informers (fold launch ?es ?w) = fw_informers w" "fw_heap (fold launch ?es ?w) = fw_heap w"
    "fw_app (fold launch ?es ?w) = fw_app w" "fw_handled (fold launch ?es ?w) = fw_handled w"
    "\<forall>g. is_started (fold launch ?es ?w) g \<longleftrightarrow> g \<in> fst ` set ?es \<or> is_started ?w g" by auto
  have "is_started w g \<Longrightarrow> map_of (fw_informers w) g \<noteq> None" for g
    using assms(1) by (auto simp: factory_ok_def registry_ok_def registered_def)
  moreover have "g \<in> fst ` set ?es \<longleftrightarrow> map_of (fw_informers w) g \<noteq> None" for g
    unfolding es by (metis map_of_eq_None_iff)
  ultimately have "\<forall>g. is_started ((fold launch ?es ?w)\<lparr>fw_locked := False\<rparr>) g \<longleftrightarrow> map_of (fw_informers w) g \<noteq> None"
    using launched(6) by (auto simp: is_started_def)
  with launched(1-5) run_Factory_Start [OF assms(3)] show ?thesis by simp
qed

lemma keeps_Factory_Start:
  assumes "range_order (informer_order L)"
  shows "keeps factory_ok (Factory_Start L)"
proof -
  have "factory_ok (snd (run (Factory_Start L) w))" if "factory_ok w" for w
  proof (cases "fw_locked w")
    case True
    with that show ?thesis by (simp add: Factory_Start_def Factory_Lock_def)
  next
    case False
    from Factory_Start_effect [OF that assms False] show ?thesis by auto
  qed
  then show ?thesis unfolding keeps_def triple_def by (metis snd_conv)
qed

lemma run_HasSynced:
  "unlocked p w \<Longrightarrow> run (HasSynced p) w = (Normal (fs_started (informer_at p w) \<and> fs_synced (informer_at p w)), w)"
  by (auto simp: HasSynced_def unlocked_def set_informer_same)

section \<open>Sequences of calls\<close>

datatype 'x informer_call =
    CallForResource gvr
  | CallFactoryStart
  | CallAddEventHandler nat "'x event_handler"
  | CallRun nat
  | CallEventLoop nat string "loop_input list"
  | CallHasSynced nat

fun exec_call :: "'x informer_lib \<Rightarrow> 'x informer_call \<Rightarrow> 'x fi_world \<Rightarrow> 'x fi_world" where
  "exec_call L (CallForResource g) w = snd (run (Factory_ForResource L g) w)"
| "exec_call L CallFactoryStart w = snd (run (Factory_Start L) w)"
| "exec_call L (CallAddEventHandler p h) w = snd (run (AddEventHandler p h) w)"
| "exec_call L (CallRun p) w = snd (run (informer_Run L p) w)"
| "exec_call L (CallEventLoop p fileName is) w = snd (run (event_loop L p fileName is) w)"
| "exec_call L (CallHasSynced p) w = snd (run (HasSynced p) w)"

lemma factory_ok_call:
  assumes "range_order (informer_order L)" and "factory_ok w"
  shows "factory_ok (exec_call L c w)"
  using assms
  by (cases c) (auto intro: keeps_run keeps_ForResource keeps_Factory_Start keeps_AddEventHandler keeps_informer_Run
      keeps_event_loop keeps_HasSynced)

section \<open>Properties\<close>

text \<open>C14: After any sequence of calls, whether they return, panic or block, every informer of the factory
  exists and watches the file its resource names, no two resources share an informer, only
  registered resources are started, each started resource has exactly one goroutine that runs its
  informer and there are no others, and an informer that has synced has started.\<close>

theorem factory_invariant:
  assumes "range_order (informer_order L)"
  shows "factory_ok (fold (exec_call L) calls (NewFileInformerFactory x))"
proof -
  have "factory_ok (fold (exec_call L) calls w)" if "factory_ok w" for w
    using that by (induction calls arbitrary: w) (auto simp: factory_ok_call [OF assms])
  moreover have "factory_ok (NewFileInformerFactory x)"
    by (simp add: NewFileInformerFactory_def factory_ok_def heap_ok_def registry_ok_def registered_def is_started_def runs_def)
  ultimately show ?thesis by blast
qed

text \<open>C13: The event loop implements its specification. For handlers and watchers that return, and any
  sequence of inputs: every input before the first that ends the loop has the effect of
  \<open>input_effect\<close> (all handlers are told, in the order of their registration, of the additions, changes and
  removals that an event of the watched file stands for; events of other files are ignored; a
  removed file is watched again; errors of the watcher are reported), later inputs have none, and when
  the loop ends the watch is removed and the watcher closed. The informer itself is left as it was.\<close>

theorem event_loop_refines_effects:
  assumes "unlocked p w" and "handlers_quiet p w" and "watcher_returns L"
    and "wt = fs_watcher (informer_at p w)" and "hs = fs_handlers (informer_at p w)"
  shows "run (event_loop L p fileName inputs) w =
    (let s = fold (input_effect L wt hs fileName) (takeWhile (\<lambda>i. \<not> loop_ends i) inputs) (outside w) in
     if list_ex loop_ends inputs then (Normal False, with_outside (stop_effect L wt fileName s) w)
     else (Normal True, with_outside s w))"
  using assms by (rule run_event_loop)

text \<open>The start of an informer. The first call of \<open>Run\<close> watches the file, tells every handler of it
  once as an initial addition, in the order of their registration, and only then lets
  \<open>HasSynced\<close> answer true and launches the event loop; further calls do nothing. An informer without a
  file name tells nobody anything, has no event loop and never reports to be synced.\<close>

theorem run_syncs_handlers_once:
  assumes "unlocked p w" and "handlers_quiet p w" and "watcher_returns L" and "\<not> fs_once (informer_at p w)"
    and "\<not> fs_synced (informer_at p w)" and "fs_fileName (informer_at p w) = fileName"
  shows "\<exists>w'. run (informer_Run L p) w = (Normal (), w') \<and> run (informer_Run L p) w' = (Normal (), w') \<and>
    run (HasSynced p) w' = (Normal (fileName \<noteq> []), w') \<and>
    fw_goroutines w' = fw_goroutines w @ (if fileName = [] then [] else [EventLoop p]) \<and>
    outside w' = (if fileName = [] then id else deliver_outside (fs_handlers (informer_at p w)) (OnAdd fileName True))
      (report (watcher_Add L (fs_watcher (informer_at p w)) fileName) (outside w))"
proof -
  obtain w' where w': "run (informer_Run L p) w = (Normal (), w')"
    and at: "informer_at p w' = (informer_at p w)\<lparr>fs_started := True, fs_synced := fileName \<noteq> [], fs_once := True\<rparr>"
    and "length (fw_heap w') = length (fw_heap w)"
    and out: "fw_goroutines w' = fw_goroutines w @ (if fileName = [] then [] else [EventLoop p])"
      "outside w' = (if fileName = [] then id else deliver_outside (fs_handlers (informer_at p w)) (OnAdd fileName True))
        (report (watcher_Add L (fs_watcher (informer_at p w)) fileName) (outside w))"
    using informer_Run_effect [OF assms(1-4,6)] assms(5) by auto
  then have "unlocked p w'" using assms(1) by (simp add: unlocked_def)
  with at have "run (HasSynced p) w' = (Normal (fileName \<noteq> []), w')" by (simp add: run_HasSynced)
  moreover have "run (informer_Run L p) w' = (Normal (), w')" using at by (simp add: informer_Run_def)
  ultimately show ?thesis using w' out by blast
qed

text \<open>\<open>Start\<close> can be called any number of times: every informer registered so far then has exactly one
  goroutine, and a second call changes nothing. Asking for the informer of a registered resource
  returns the one that is there.\<close>

theorem factory_start_is_idempotent:
  assumes "factory_ok w" and "range_order (informer_order L)" and "\<not> fw_locked w"
  shows "\<exists>w'. run (Factory_Start L) w = (Normal (), w') \<and> run (Factory_Start L) w' = (Normal (), w') \<and>
    distinct (runs w') \<and> set (runs w') = {p. \<exists>g. registered w g p} \<and>
    (\<forall>g i. map_of (fw_informers w) g = Some i \<longrightarrow> run (Factory_ForResource L g) w' = (Normal i, w'))"
proof -
  obtain w' where run: "run (Factory_Start L) w = (Normal (), w')" and w': "factory_ok w'" "fw_informers w' = fw_informers w"
    "\<not> fw_locked w'" "\<forall>g. is_started w' g \<longleftrightarrow> map_of (fw_informers w) g \<noteq> None"
    using Factory_Start_effect [OF assms] by blast
  have reg: "registered w' = registered w" by (simp add: fun_eq_iff registered_def w'(2))
  have "fold launch es (w'\<lparr>fw_locked := True\<rparr>) = w'\<lparr>fw_locked := True\<rparr>" if "set es \<subseteq> set (fw_informers w)" for es
    using that
  proof (induction es)
    case (Cons e es)
    then have "fst e \<in> fst ` set (fw_informers w)" by simp
    then have "map_of (fw_informers w) (fst e) \<noteq> None" by (simp add: map_of_eq_None_iff)
    then have "launch e (w'\<lparr>fw_locked := True\<rparr>) = w'\<lparr>fw_locked := True\<rparr>"
      using w'(4) by (simp add: launch_def is_started_def)
    with Cons show ?case by simp
  qed simp
  then have again: "run (Factory_Start L) w' = (Normal (), w')"
    using run_Factory_Start [OF w'(3)] range_order_set [OF assms(2)] w'(2,3) by simp
  have runs: "distinct (runs w')" "set (runs w') = {p. \<exists>g. registered w g p}"
    using w'(1,4) by (auto simp: factory_ok_def registry_ok_def reg) (auto simp: registered_def)
  have "run (Factory_ForResource L g) w' = (Normal i, w')" if "map_of (fw_informers w) g = Some i" for g i
    using that w'(2,3) by (simp add: Factory_ForResource_def Factory_Lock_def Factory_Unlock_def)
  with run again runs show ?thesis by blast
qed

text \<open>C38: A handler added after the start. The call panics with the read lock still taken: from then on
  the event loop cannot stop. When it is told to, it blocks on the write lock, and the watch is
  neither removed nor the watcher closed.\<close>

theorem late_handler_blocks_stop:
  assumes "unlocked p w" and "fs_started (informer_at p w)"
  shows "\<exists>w'. run (AddEventHandler p h) w =
      (Panicked ''cannot add event handlers after informer has started'', w') \<and>
    run (event_loop L p fileName [StopClosed]) w' = (Panicked blocked, w') \<and> outside w' = outside w"
  using assms
  by (auto simp: AddEventHandler_def AddEventHandlerWithOptions_def unlocked_def stop_watching_def)

text \<open>A handler that panics in the event loop does not crash the program: the deferred cleanup blocks on
  the write lock, because the read lock is still taken.\<close>

theorem panicking_handler_blocks_cleanup:
  assumes "unlocked p w" and "fs_handlers (informer_at p w) = h # hs"
    and "run (h (OnUpdate fileName fileName)) (fw_app w) = (Panicked m, x)"
  shows "\<exists>w'. run (event_loop L p fileName (ResyncTimeout # inputs)) w = (Panicked blocked, w') \<and>
    outside w' = (fw_handled w, x)"
proof -
  have "run (handle_input L p fileName ResyncTimeout) w =
      (Panicked m, (set_informer p (\<lambda>f. f\<lparr>fs_readers := Suc (fs_readers f)\<rparr>) w)\<lparr>fw_app := x\<rparr>)"
    (is "_ = (_, ?w)")
    using assms by (simp add: notify_locked_def notify_all_def unlocked_def run_app) (simp add: set_informer_def)
  from run_on_panic_panicked [OF this] assms(1) show ?thesis
    by (auto simp: stop_watching_def unlocked_def informer_at_def set_informer_def outside_def)
qed

text \<open>\<open>IsStopped\<close> tells the opposite of what its name says: it is true before the start and false from
  then on, also after the event loop has ended.\<close>

theorem is_stopped_after_stop:
  assumes "unlocked p w" and "handlers_quiet p w" and "watcher_returns L"
    and "run (event_loop L p fileName inputs) w = (Normal False, w')"
  shows "fst (run (IsStopped p) w') = Normal (\<not> fs_started (informer_at p w))"
  using run_event_loop [OF assms(1-3) refl refl] assms(4)
  by (auto simp: IsStopped_def Let_def split: if_splits)

section \<open>Witnesses\<close>

text \<open>Handlers that list what they are told, and watchers that do nothing.\<close>

definition demo_recorder :: "notification list event_handler" where
  "demo_recorder n = modify (\<lambda>l. l @ [n])"

definition demo_informer_lib :: "notification list informer_lib" where
  "demo_informer_lib =
     \<lparr>fsnotify_NewWatcher = Return (Inr 7), watcher_Add = (\<lambda>_ _. Return None), watcher_Remove = (\<lambda>_ _. Return None),
      watcher_Close = (\<lambda>_. Return None), cache_WaitForCacheSync = (\<lambda>c. c), informer_order = (\<lambda>m. m)\<rparr>"

definition demo_file :: gvr where
  "demo_file = FileGroupVersion_WithResource ''f''"

definition demo_informer_world :: "bool \<Rightarrow> notification list event_handler list \<Rightarrow> notification list fi_world" where
  "demo_informer_world started hs =
     (NewFileInformerFactory [])
       \<lparr>fw_heap := [(NewFileSharedIndexInformer ''f'' 7 Minute)\<lparr>fs_started := started, fs_handlers := hs\<rparr>],
        fw_informers := [(demo_file, \<lparr>fi_fileName = ''f'', fi_watcher = 7, fi_informer = 0\<rparr>)]\<rparr>"

lemma demo_recorder_quiet: "quiet demo_recorder"
  by (simp add: quiet_def demo_recorder_def)

lemma demo_watcher_returns: "watcher_returns demo_informer_lib"
  by (simp add: watcher_returns_def demo_informer_lib_def)

lemmas demo_informer_defs = demo_informer_world_def NewFileInformerFactory_def NewFileSharedIndexInformer_def
  informer_at_def

lemma demo_informer_unlocked: "unlocked 0 (demo_informer_world started hs)"
  by (simp add: unlocked_def demo_informer_defs)

lemma demo_handlers_quiet: "handlers_quiet 0 (demo_informer_world started [demo_recorder])"
  by (simp add: handlers_quiet_def demo_informer_defs demo_recorder_quiet)

lemma demo_factory_ok: "factory_ok (demo_informer_world False [])"
  by (auto simp: factory_ok_def heap_ok_def registry_ok_def registered_def is_started_def runs_def gomap_ok_def
      demo_informer_defs demo_file_def FileGroupVersion_WithResource_def split: if_splits)

theorem factory_invariant_witness:
  "factory_ok (fold (exec_call demo_informer_lib)
     [CallForResource demo_file, CallAddEventHandler 0 demo_recorder, CallFactoryStart, CallRun 0] (NewFileInformerFactory []))"
  by (rule factory_invariant) (simp add: demo_informer_lib_def)

theorem event_loop_refines_effects_witness:
  "run (event_loop demo_informer_lib 0 ''f''
       [FileEvent \<lparr>ev_Name = ''f'', ev_Op = [FsWrite, FsChmod]\<rparr>, FileEvent \<lparr>ev_Name = ''g'', ev_Op = [FsWrite]\<rparr>,
        FileEvent \<lparr>ev_Name = ''f'', ev_Op = [FsRemove]\<rparr>, StopClosed, ResyncTimeout])
     (demo_informer_world True [demo_recorder]) =
   (Normal False, (demo_informer_world True [demo_recorder])
      \<lparr>fw_app := [OnAdd ''f'' False, OnUpdate ''f'' ''f'', OnDelete ''f'']\<rparr>)"
  using event_loop_refines_effects [OF demo_informer_unlocked demo_handlers_quiet [of True] demo_watcher_returns refl refl,
      where fileName = "''f''" and inputs = "[FileEvent \<lparr>ev_Name = ''f'', ev_Op = [FsWrite, FsChmod]\<rparr>, FileEvent \<lparr>ev_Name = ''g'', ev_Op = [FsWrite]\<rparr>,
        FileEvent \<lparr>ev_Name = ''f'', ev_Op = [FsRemove]\<rparr>, StopClosed, ResyncTimeout]"]
  by (simp add: loop_ends_def notifications_def ev_Has_def stop_effect_def report_def demo_informer_lib_def
      deliver_outside_def deliver_def demo_recorder_def outside_def with_outside_def demo_informer_defs)

theorem run_syncs_handlers_once_witness:
  "\<exists>w'. run (informer_Run demo_informer_lib 0) (demo_informer_world False [demo_recorder]) = (Normal (), w') \<and>
     run (HasSynced 0) w' = (Normal True, w') \<and> outside w' = ([], [OnAdd ''f'' True])"
proof -
  have "fs_fileName (informer_at 0 (demo_informer_world False [demo_recorder])) = ''f''"
    by (simp add: demo_informer_defs)
  from run_syncs_handlers_once [OF demo_informer_unlocked demo_handlers_quiet demo_watcher_returns _ _ this]
  show ?thesis
    by (auto simp: demo_informer_defs report_def demo_informer_lib_def deliver_outside_def deliver_def
        demo_recorder_def outside_def)
qed

theorem factory_start_is_idempotent_witness:
  "\<exists>w'. run (Factory_Start demo_informer_lib) (demo_informer_world False []) = (Normal (), w') \<and>
     run (Factory_Start demo_informer_lib) w' = (Normal (), w') \<and> set (runs w') = {0}"
proof -
  from factory_start_is_idempotent [OF demo_factory_ok, of demo_informer_lib] show ?thesis
    by (auto simp: demo_informer_lib_def demo_informer_defs registered_def)
qed

theorem late_handler_blocks_stop_witness:
  "\<exists>w'. run (AddEventHandler 0 demo_recorder) (demo_informer_world True []) =
       (Panicked ''cannot add event handlers after informer has started'', w') \<and>
     run (event_loop demo_informer_lib 0 ''f'' [StopClosed]) w' = (Panicked blocked, w')"
  using late_handler_blocks_stop [OF demo_informer_unlocked, of True "[]" demo_recorder demo_informer_lib "''f''"]
  by (auto simp: demo_informer_defs)

theorem panicking_handler_blocks_cleanup_witness:
  "\<exists>w'. run (event_loop demo_informer_lib 0 ''f'' [ResyncTimeout]) (demo_informer_world True [\<lambda>_. Panic ''boom'']) =
     (Panicked blocked, w')"
  using panicking_handler_blocks_cleanup [OF demo_informer_unlocked, of True "[\<lambda>_. Panic ''boom'']" "\<lambda>_. Panic ''boom''" "[]"
      "''f''" "''boom''" "[]" demo_informer_lib "[]"]
  by (auto simp: demo_informer_defs)

theorem is_stopped_after_stop_witness:
  "fst (run (IsStopped 0) (demo_informer_world True [demo_recorder])) = Normal False"
proof -
  have "run (event_loop demo_informer_lib 0 ''f'' [StopClosed]) (demo_informer_world True [demo_recorder]) =
      (Normal False, demo_informer_world True [demo_recorder])"
    using run_event_loop [OF demo_informer_unlocked demo_handlers_quiet [of True] demo_watcher_returns refl refl,
        where fileName = "''f''" and inputs = "[StopClosed]"]
    by (simp add: loop_ends_def stop_effect_def report_def demo_informer_lib_def outside_def with_outside_def)
  from is_stopped_after_stop [OF demo_informer_unlocked demo_handlers_quiet demo_watcher_returns this] show ?thesis
    by (simp add: demo_informer_defs)
qed

end
