(* ===== verification/Informer_Concurrency.thy ===== *)
theory Informer_Concurrency
  imports File_Informer Handler
begin

text \<open>
  The informers over files under concurrent use (fileinformer/file_informer.go): goroutines that call
  the methods of one factory, and a handler that is added while its informer starts.
\<close>

section \<open>The mutex of the factory\<close>

definition set_locked :: "bool \<Rightarrow> 'x fi_world \<Rightarrow> 'x fi_world" where
  "set_locked b w = w\<lparr>fw_locked := b\<rparr>"

interpretation factory: mutex fw_locked set_locked
  by unfold_locales (simp add: set_locked_def)

text \<open>What a client of the factory calls; it drops the informer it gets.\<close>

datatype factory_call = GetInformer gvr | StartInformers

fun client_call :: "'x informer_lib \<Rightarrow> factory_call \<Rightarrow> ('x, unit) fi" where
  "client_call L (GetInformer g) = bind (Factory_ForResource L g) (\<lambda>_. Return ())"
| "client_call L StartInformers = Factory_Start L"

lemma Factory_locks: "Factory_Lock = acquire (\<lambda>w. \<not> fw_locked w) (set_locked True)" "Factory_Unlock = modify (set_locked False)"
  by (simp_all add: Factory_Lock_def Factory_Unlock_def set_locked_def [abs_def])

lemma leaves_app [leaves_rules]: "leaves fw_locked (app c)"
  unfolding app_def by (rule leaves_embed) simp

lemma leaves_start_loop: "leaves fw_locked (start_loop es)"
proof (induction es)
  case (Cons e es)
  then show ?case
    unfolding start_loop.simps spawn_goroutine_def by (auto intro!: leaves_rules simp: leaves_rules)
qed simp

lemma client_call_locking: "factory.locking (client_call L c)"
proof (cases c)
  case (GetInformer g)
  show ?thesis
    unfolding GetInformer client_call.simps factory.locking_def Factory_ForResource_def Factory_locks
      critical_def [symmetric] bind_critical_unit
    by (rule exI, rule conjI, rule refl)
      (auto intro!: leaves_rules split: option.split sum.split simp: NewFileInformer_def)
next
  case StartInformers
  show ?thesis
    unfolding StartInformers client_call.simps factory.locking_def Factory_Start_def Factory_locks
      critical_def [symmetric]
    by (rule exI, rule conjI, rule refl) (auto intro!: leaves_rules leaves_start_loop)
qed

lemma keeps_client_call: "range_order (informer_order L) \<Longrightarrow> keeps factory_ok (client_call L c)"
  by (cases c) (auto intro: keeps_bind keeps_ForResource keeps_Factory_Start)

lemma serial_factory_ok:
  assumes "serial_step\<^sup>*\<^sup>* (w, rs) a" and "factory_ok w" and "\<Union> (set ` set rs) \<subseteq> range (client_call L)"
    and "range_order (informer_order L)"
  shows "factory_ok (fst a) \<and> \<Union> (set ` set (snd a)) \<subseteq> range (client_call L)"
  using assms(1)
proof (induction rule: rtranclp_induct)
  case (step a a')
  from step(2) show ?case
  proof cases
    case (serial i rs c cs w r w')
    then have "c \<in> \<Union> (set ` set (snd a))" by (metis UN_iff list.set_intros(1) nth_mem snd_conv)
    with step.IH obtain d where "c = client_call L d" by auto
    then have "factory_ok w'" using serial step.IH keeps_run [OF keeps_client_call [OF assms(4)]] by (metis fst_conv snd_conv)
    moreover have "\<Union> (set ` set (snd a')) \<subseteq> range (client_call L)"
      using factory.serial_step_keeps(2) [OF step(2)] step.IH by blast
    ultimately show ?thesis using serial by simp
  qed
qed (use assms in auto)

text \<open>C9: Goroutines that share a factory. Whatever calls of \<open>ForResource\<close> and \<open>Start\<close> the goroutines make, and
  however their steps interleave: whenever the mutex of the factory is free, the factory is as some
  serial execution of the calls leaves it, in which each goroutine's calls come in its own order, and
  its invariant holds (so no informer is made twice for a resource or started twice); at most one
  goroutine is inside a call; and as long as a goroutine has calls left, one of them can go on.\<close>

theorem factory_calls_are_atomic:
  assumes "calls_step\<^sup>*\<^sup>* (w, map (\<lambda>cs. Outside (map (client_call L) cs)) clients) (w', ts)"
    and "factory_ok w" and "\<not> fw_locked w" and "range_order (informer_order L)"
  shows "(\<not> fw_locked w' \<longrightarrow> factory_ok w' \<and>
      (\<exists>rs. serial_step\<^sup>*\<^sup>* (w, map (map (client_call L)) clients) (w', rs) \<and> ts = map Outside rs)) \<and>
    (\<forall>i < length ts. \<forall>j < length ts. \<forall>p q cs ds. ts ! i = Inside p cs \<longrightarrow> ts ! j = Inside q ds \<longrightarrow> i = j) \<and>
    ((\<exists>t \<in> set ts. t \<noteq> Outside []) \<longrightarrow> (\<exists>s. calls_step (w', ts) s))"
proof -
  let ?rs = "map (map (client_call L)) clients"
  have "calls_step\<^sup>*\<^sup>* (w, map Outside ?rs) (w', ts)" using assms(1) by (simp add: comp_def)
  moreover have "factory.all_locking ?rs" by (auto simp: client_call_locking)
  ultimately obtain a where a: "serial_step\<^sup>*\<^sup>* (w, ?rs) a" "serialised fw_locked set_locked (w', ts) a"
    "factory.all_locking (snd a)"
    using factory.serialisable assms(3) by blast
  have "factory_ok (fst a)" using serial_factory_ok [OF a(1) assms(2) _ assms(4)] by auto
  with a(1) factory.serialised_free [OF a(2)] have "\<not> fw_locked w' \<Longrightarrow> factory_ok w' \<and>
      (\<exists>rs. serial_step\<^sup>*\<^sup>* (w, ?rs) (w', rs) \<and> ts = map Outside rs)"
    by (cases a) auto
  with factory.serialised_exclusive [OF a(2)] factory.serialised_progress [OF a(2,3)] show ?thesis
    by (metis snd_conv)
qed

section \<open>Adding a handler while the informer starts\<close>

text \<open>The check that the informer has not started and the addition of the handler are two critical
  sections. The steps of the first one:\<close>

lemma add_checks_first:
  assumes "unlocked p w" and "\<not> fs_started (informer_at p w)"
  shows "run (interleave [1, 1, 1] [q, bind (AddEventHandler p h) (\<lambda>_. Return ())]) w =
    run (andthen q (andthen (Lock p)
      (andthen (deferred (andthen (modify (set_informer p (\<lambda>f. f\<lparr>fs_handlers := fs_handlers f @ [h]\<rparr>))) (Return None)) (Unlock p))
        (Return ())))) w"
proof -
  have "set_informer p (\<lambda>i. i\<lparr>fs_readers := fs_readers i\<rparr>) w = w"
    using assms(1) by (intro set_informer_same) (auto simp: unlocked_def)
  with assms show ?thesis
    by (simp add: AddEventHandler_def AddEventHandlerWithOptions_def RLock_def RUnlock_def acquire_def act_def gets_def
        modify_def andthen_def unlocked_def)
qed

text \<open>C37: A handler that is added while its informer starts. The check of \<open>AddEventHandler\<close> passes, \<open>Run\<close> then
  starts the informer and tells its handlers of the file, and only after that is the handler added. No
  call panics and the informer reports to be synced, but the handler was not told of the file.\<close>

theorem handler_added_during_start_misses_file:
  assumes "unlocked p w" and "handlers_quiet p w" and "watcher_returns L" and "\<not> fs_once (informer_at p w)"
    and "\<not> fs_started (informer_at p w)" and "fs_fileName (informer_at p w) = fileName" and "fileName \<noteq> []"
  shows "\<exists>w'. run (interleave [1, 1, 1] [informer_Run L p, bind (AddEventHandler p h) (\<lambda>_. Return ())]) w = (Normal (), w') \<and>
    fs_handlers (informer_at p w') = fs_handlers (informer_at p w) @ [h] \<and>
    run (HasSynced p) w' = (Normal True, w') \<and>
    outside w' = deliver_outside (fs_handlers (informer_at p w)) (OnAdd fileName True)
      (report (watcher_Add L (fs_watcher (informer_at p w)) fileName) (outside w))"
proof -
  obtain w1 where run1: "run (informer_Run L p) w = (Normal (), w1)" and w1: "length (fw_heap w1) = length (fw_heap w)"
    "informer_at p w1 = (informer_at p w)\<lparr>fs_started := True, fs_synced := True, fs_once := True\<rparr>"
    "outside w1 = deliver_outside (fs_handlers (informer_at p w)) (OnAdd fileName True)
      (report (watcher_Add L (fs_watcher (informer_at p w)) fileName) (outside w))"
    using informer_Run_effect [OF assms(1-4,6)] assms(7) by auto
  let ?w = "set_informer p (\<lambda>f. f\<lparr>fs_writer := False, fs_handlers := fs_handlers f @ [h]\<rparr>) w1"
  have p: "p < length (fw_heap w1)" "\<not> fs_writer (informer_at p w1)" "fs_readers (informer_at p w1) = 0"
    using assms(1) w1 by (simp_all add: unlocked_def)
  then have "unlocked p ?w" by (simp add: unlocked_def)
  with p w1 have "run (HasSynced p) ?w = (Normal True, ?w)" by (simp add: run_HasSynced)
  moreover have "run (interleave [1, 1, 1] [informer_Run L p, bind (AddEventHandler p h) (\<lambda>_. Return ())]) w = (Normal (), ?w)"
    using p by (subst add_checks_first [OF assms(1,5)]) (auto simp: run1 intro!: set_informer_cong)
  ultimately show ?thesis using p w1 by simp
qed

section \<open>Witnesses\<close>

theorem factory_calls_are_atomic_witness:
  "\<exists>s. calls_step (demo_informer_world False [],
      map (\<lambda>cs. Outside (map (client_call demo_informer_lib) cs)) [[GetInformer demo_file, StartInformers], [StartInformers]]) s"
proof -
  have "range_order (informer_order demo_informer_lib)" "\<not> fw_locked (demo_informer_world False [])"
    by (simp_all add: demo_informer_lib_def demo_informer_defs)
  from factory_calls_are_atomic [OF rtranclp.rtrancl_refl demo_factory_ok this(2,1),
      of "[[GetInformer demo_file, StartInformers], [StartInformers]]"] show ?thesis by auto
qed

theorem handler_added_during_start_misses_file_witness:
  "\<exists>w'. run (interleave [1, 1, 1] [informer_Run demo_informer_lib 0, bind (AddEventHandler 0 demo_recorder) (\<lambda>_. Return ())])
      (demo_informer_world False []) = (Normal (), w') \<and>
    run (HasSynced 0) w' = (Normal True, w') \<and> outside w' = ([], [])"
proof -
  have "handlers_quiet 0 (demo_informer_world False [])" by (simp add: handlers_quiet_def demo_informer_defs)
  from handler_added_during_start_misses_file [OF demo_informer_unlocked this demo_watcher_returns, of "''f''" demo_recorder]
  show ?thesis
    by (auto simp: demo_informer_defs report_def demo_informer_lib_def deliver_outside_def deliver_def outside_def)
qed

end
