(* ===== verification/Fake_Client.thy ===== *)
theory Fake_Client
  imports Bootstrap
begin

text \<open>
  The fake dynamic client with server-side apply (client/fake/fake.go): \<open>Apply\<close>, \<open>ApplyStatus\<close>, \<open>Patch\<close>,
  the methods that only delegate, and the reactor for apply patches that reach the upstream client
  directly. The construction of the client is in the theory \<open>Fake_Schema\<close>.

  The two object trackers of client-go (the one of the upstream client, and the one that keeps field
  managers), the upstream resource clients, the converter to unstructured objects and the JSON decoder
  are parameters. The options of the delegated methods are of the type \<open>'p\<close>.
\<close>

section \<open>Trackers and clients\<close>

datatype ('u, 't) runtime_object = UnstructuredObject 'u | TypedObject 't

record ('u, 't, 'w) tracker =
  tk_Get :: "gvr \<Rightarrow> string \<Rightarrow> string \<Rightarrow> (error + ('u, 't) runtime_object, 'w) proc"
  tk_Create :: "gvr \<Rightarrow> ('u, 't) runtime_object \<Rightarrow> string \<Rightarrow> (error option, 'w) proc"
  tk_Update :: "gvr \<Rightarrow> ('u, 't) runtime_object \<Rightarrow> string \<Rightarrow> (error option, 'w) proc"
  tk_Apply :: "gvr \<Rightarrow> ('u, 't) runtime_object \<Rightarrow> string \<Rightarrow> patch_options \<Rightarrow> (error option, 'w) proc"

record ('u, 'p, 'w) resource_interface =
  ri_Create :: "'u \<Rightarrow> 'p \<Rightarrow> string list \<Rightarrow> (error + 'u, 'w) proc"
  ri_Update :: "'u \<Rightarrow> 'p \<Rightarrow> string list \<Rightarrow> (error + 'u, 'w) proc"
  ri_UpdateStatus :: "'u \<Rightarrow> 'p \<Rightarrow> (error + 'u, 'w) proc"
  ri_Delete :: "string \<Rightarrow> 'p \<Rightarrow> string list \<Rightarrow> (error option, 'w) proc"
  ri_DeleteCollection :: "'p \<Rightarrow> 'p \<Rightarrow> (error option, 'w) proc"
  ri_Get :: "string \<Rightarrow> 'p \<Rightarrow> string list \<Rightarrow> (error + 'u, 'w) proc"
  ri_List :: "'p \<Rightarrow> (error + 'u list, 'w) proc"
  ri_Watch :: "'p \<Rightarrow> (error + nat, 'w) proc"
  ri_Patch :: "string \<Rightarrow> string \<Rightarrow> string \<Rightarrow> patch_options \<Rightarrow> string list \<Rightarrow> (error + 'u, 'w) proc"

record ('u, 't) fake_lib =
  fk_ToUnstructured :: "'t \<Rightarrow> error + 'u"
  fk_Unmarshal :: "string \<Rightarrow> error + 'u"

record ('u, 't, 'p, 'w) fakeDynamicClient =
  fc_lib :: "('u, 't) fake_lib"
  fc_Resource :: "gvr \<Rightarrow> string \<Rightarrow> ('u, 'p, 'w) resource_interface"
  fc_Tracker :: "('u, 't, 'w) tracker"
  fc_fieldManagedTracker :: "('u, 't, 'w) tracker"

record ('u, 't, 'p, 'w) fakeDynamicResourceClient =
  fr_client :: "('u, 't, 'p, 'w) fakeDynamicClient"
  fr_resource :: gvr
  fr_namespace :: string
  fr_fieldManagedTracker :: "('u, 't, 'w) tracker"

record apply_options =
  ao_DryRun :: "string list"
  ao_Force :: bool
  ao_FieldManager :: string

definition fakeClient_Resource ::
    "('u, 't, 'p, 'w) fakeDynamicClient \<Rightarrow> gvr \<Rightarrow> ('u, 't, 'p, 'w) fakeDynamicResourceClient" where
  "fakeClient_Resource c resource =
     \<lparr>fr_client = c, fr_resource = resource, fr_namespace = [], fr_fieldManagedTracker = fc_fieldManagedTracker c\<rparr>"

definition fakeResource_Namespace ::
    "('u, 't, 'p, 'w) fakeDynamicResourceClient \<Rightarrow> string \<Rightarrow> ('u, 't, 'p, 'w) fakeDynamicResourceClient" where
  "fakeResource_Namespace c ns =
     \<lparr>fr_client = fr_client c, fr_resource = fr_resource c, fr_namespace = ns,
      fr_fieldManagedTracker = fr_fieldManagedTracker c\<rparr>"

section \<open>Apply\<close>

definition to_unstructured :: "('u, 't) fake_lib \<Rightarrow> ('u, 't) runtime_object \<Rightarrow> error + 'u" where
  "to_unstructured L ob = (case ob of UnstructuredObject u \<Rightarrow> Inr u | TypedObject t \<Rightarrow> fk_ToUnstructured L t)"

definition fake_Apply ::
    "('u, 't, 'p, 'w) fakeDynamicResourceClient \<Rightarrow> string \<Rightarrow> 'u \<Rightarrow> apply_options \<Rightarrow> string list \<Rightarrow> (error + 'u, 'w) proc" where
  "fake_Apply c nm obj options subresources =
     (let patchOptions = \<lparr>po_DryRun = ao_DryRun options, po_Force = Some (ao_Force options),
                          po_FieldManager = ao_FieldManager options\<rparr>;
          upstream = fc_Tracker (fr_client c); managed = fr_fieldManagedTracker c;
          g = fr_resource c; ns = fr_namespace c in
      bind (tk_Get upstream g ns nm) (\<lambda>original.
        bind (case original of
                Inl _ \<Rightarrow> Return None
              | Inr originalObj \<Rightarrow>
                  bind (tk_Get managed g ns nm) (\<lambda>res.
                    case res of Inr _ \<Rightarrow> Return None | Inl _ \<Rightarrow> tk_Create managed g originalObj ns)) (\<lambda>createErr.
          case createErr of
            Some e \<Rightarrow> Return (Inl e)
          | None \<Rightarrow>
              bind (tk_Apply managed g (UnstructuredObject obj) ns patchOptions) (\<lambda>err.
                case err of
                  Some e \<Rightarrow> Return (Inl e)
                | None \<Rightarrow>
                    bind (tk_Get managed g ns nm) (\<lambda>result.
                      case result of
                        Inl e \<Rightarrow> Return (Inl e)
                      | Inr r \<Rightarrow>
                          (case to_unstructured (fc_lib (fr_client c)) r of
                             Inl e \<Rightarrow> Return (Inl e)
                           | Inr finalResult \<Rightarrow>
                               bind (tk_Update upstream g (UnstructuredObject finalResult) ns) (\<lambda>updateErr.
                                 case updateErr of
                                   None \<Rightarrow> Return (Inr finalResult)
                                 | Some ue \<Rightarrow>
                                     bind (tk_Create upstream g (UnstructuredObject finalResult) ns) (\<lambda>createErr.
                                       case createErr of
                                         None \<Rightarrow> Return (Inr finalResult)
                                       | Some _ \<Rightarrow> Return (Inl ue)))))))))"

definition fake_ApplyStatus ::
    "('u, 't, 'p, 'w) fakeDynamicResourceClient \<Rightarrow> string \<Rightarrow> 'u \<Rightarrow> apply_options \<Rightarrow> (error + 'u, 'w) proc" where
  "fake_ApplyStatus c nm obj options = fake_Apply c nm obj options [''status'']"

section \<open>Delegated methods and Patch\<close>

definition fake_upstream :: "('u, 't, 'p, 'w) fakeDynamicResourceClient \<Rightarrow> ('u, 'p, 'w) resource_interface" where
  "fake_upstream c = fc_Resource (fr_client c) (fr_resource c) (fr_namespace c)"

definition fake_Create :: "('u, 't, 'p, 'w) fakeDynamicResourceClient \<Rightarrow> 'u \<Rightarrow> 'p \<Rightarrow> string list \<Rightarrow> (error + 'u, 'w) proc" where
  "fake_Create c obj options subresources = ri_Create (fake_upstream c) obj options subresources"

definition fake_Update :: "('u, 't, 'p, 'w) fakeDynamicResourceClient \<Rightarrow> 'u \<Rightarrow> 'p \<Rightarrow> string list \<Rightarrow> (error + 'u, 'w) proc" where
  "fake_Update c obj options subresources = ri_Update (fake_upstream c) obj options subresources"

definition fake_UpdateStatus :: "('u, 't, 'p, 'w) fakeDynamicResourceClient \<Rightarrow> 'u \<Rightarrow> 'p \<Rightarrow> (error + 'u, 'w) proc" where
  "fake_UpdateStatus c obj options = ri_UpdateStatus (fake_upstream c) obj options"

definition fake_Delete :: "('u, 't, 'p, 'w) fakeDynamicResourceClient \<Rightarrow> string \<Rightarrow> 'p \<Rightarrow> string list \<Rightarrow> (error option, 'w) proc" where
  "fake_Delete c nm options subresources = ri_Delete (fake_upstream c) nm options subresources"

definition fake_DeleteCollection :: "('u, 't, 'p, 'w) fakeDynamicResourceClient \<Rightarrow> 'p \<Rightarrow> 'p \<Rightarrow> (error option, 'w) proc" where
  "fake_DeleteCollection c options listOptions = ri_DeleteCollection (fake_upstream c) options listOptions"

definition fake_Get :: "('u, 't, 'p, 'w) fakeDynamicResourceClient \<Rightarrow> string \<Rightarrow> 'p \<Rightarrow> string list \<Rightarrow> (error + 'u, 'w) proc" where
  "fake_Get c nm options subresources = ri_Get (fake_upstream c) nm options subresources"

definition fake_List :: "('u, 't, 'p, 'w) fakeDynamicResourceClient \<Rightarrow> 'p \<Rightarrow> (error + 'u list, 'w) proc" where
  "fake_List c opts = ri_List (fake_upstream c) opts"

definition fake_Watch :: "('u, 't, 'p, 'w) fakeDynamicResourceClient \<Rightarrow> 'p \<Rightarrow> (error + nat, 'w) proc" where
  "fake_Watch c opts = ri_Watch (fake_upstream c) opts"

definition fake_Patch ::
    "('u, 't, 'p, 'w) fakeDynamicResourceClient \<Rightarrow> string \<Rightarrow> string \<Rightarrow> string \<Rightarrow> patch_options \<Rightarrow> string list \<Rightarrow>
     (error + 'u, 'w) proc" where
  "fake_Patch c nm pt data options subresources =
     (if pt = ApplyPatchType then
        (case fk_Unmarshal (fc_lib (fr_client c)) data of
           Inl err \<Rightarrow> Return (Inl (Wrapped ''failed to unmarshal apply patch data: '' err))
         | Inr obj \<Rightarrow>
             fake_Apply c nm obj
               \<lparr>ao_DryRun = po_DryRun options,
                ao_Force = (case po_Force options of None \<Rightarrow> False | Some force \<Rightarrow> force),
                ao_FieldManager = po_FieldManager options\<rparr> subresources)
      else ri_Patch (fake_upstream c) nm pt data options subresources)"

section \<open>The reactor for raw apply patches\<close>

record patch_action =
  pa_Resource :: gvr
  pa_Namespace :: string
  pa_Name :: string
  pa_PatchType :: string
  pa_Patch :: string
  pa_PatchOptions :: patch_options

datatype test_action = PatchAction patch_action | OtherAction string

text \<open>The result \<open>None\<close> is an action that is not handled.\<close>

definition apply_reactor ::
    "('u, 't, 'p, 'w) fakeDynamicClient \<Rightarrow> test_action \<Rightarrow> ((error + 'u) option, 'w) proc" where
  "apply_reactor c action =
     (case action of
        OtherAction _ \<Rightarrow> Return None
      | PatchAction a \<Rightarrow>
          if pa_PatchType a \<noteq> ApplyPatchType then Return None
          else
            (case fk_Unmarshal (fc_lib c) (pa_Patch a) of
               Inl err \<Rightarrow> Return (Some (Inl err))
             | Inr unstructuredApply \<Rightarrow>
                 bind (tk_Get (fc_Tracker c) (pa_Resource a) (pa_Namespace a) (pa_Name a)) (\<lambda>original.
                   bind (case original of
                           Inl _ \<Rightarrow> Return None
                         | Inr originalObj \<Rightarrow>
                             bind (tk_Get (fc_fieldManagedTracker c) (pa_Resource a) (pa_Namespace a) (pa_Name a)) (\<lambda>res.
                               case res of
                                 Inr _ \<Rightarrow> Return None
                               | Inl _ \<Rightarrow> tk_Create (fc_fieldManagedTracker c) (pa_Resource a) originalObj (pa_Namespace a)))
                     (\<lambda>createErr.
                       case createErr of
                         Some e \<Rightarrow> Return (Some (Inl e))
                       | None \<Rightarrow>
                           bind (tk_Apply (fc_fieldManagedTracker c) (pa_Resource a) (UnstructuredObject unstructuredApply)
                                   (pa_Namespace a) (pa_PatchOptions a)) (\<lambda>err.
                             case err of
                               Some e \<Rightarrow> Return (Some (Inl e))
                             | None \<Rightarrow>
                                 bind (tk_Get (fc_fieldManagedTracker c) (pa_Resource a) (pa_Namespace a) (pa_Name a)) (\<lambda>result.
                                   case result of
                                     Inl e \<Rightarrow> Return (Some (Inl e))
                                   | Inr r \<Rightarrow>
                                       (case to_unstructured (fc_lib c) r of
                                          Inl e \<Rightarrow> Return (Some (Inl e))
                                        | Inr finalResult \<Rightarrow>
                                            bind (tk_Update (fc_Tracker c) (pa_Resource a) (UnstructuredObject finalResult)
                                                    (pa_Namespace a)) (\<lambda>updateErr.
                                              case updateErr of
                                                None \<Rightarrow> Return (Some (Inr finalResult))
                                              | Some ue \<Rightarrow>
                                                  bind (tk_Create (fc_Tracker c) (pa_Resource a) (UnstructuredObject finalResult)
                                                          (pa_Namespace a)) (\<lambda>createErr.
                                                    case createErr of
                                                      None \<Rightarrow> Return (Some (Inr finalResult))
                                                    | Some _ \<Rightarrow> Return (Some (Inl ue)))))))))))"

section \<open>What trackers promise\<close>

type_synonym ('u, 't) object_map = "gvr \<times> string \<times> string \<rightharpoonup> ('u, 't) runtime_object"

text \<open>A tracker keeps objects by resource, namespace and their own name, and leaves the rest of the
  world alone: a missing object is an error of \<open>Get\<close> and \<open>Update\<close>, a present one of \<open>Create\<close>.\<close>

definition tracker_laws ::
    "('u, 't, 'w) tracker \<Rightarrow> ('w \<Rightarrow> ('u, 't) object_map) \<Rightarrow> ('w \<Rightarrow> 'v) \<Rightarrow> (('u, 't) runtime_object \<Rightarrow> string) \<Rightarrow> bool" where
  "tracker_laws tk view rest nameOf \<longleftrightarrow>
     (\<forall>w g ns nm ob. view w (g, ns, nm) = Some ob \<longrightarrow> run (tk_Get tk g ns nm) w = (Normal (Inr ob), w)) \<and>
     (\<forall>w g ns nm. view w (g, ns, nm) = None \<longrightarrow> (\<exists>e. run (tk_Get tk g ns nm) w = (Normal (Inl e), w))) \<and>
     (\<forall>w g ns ob. view w (g, ns, nameOf ob) = None \<longrightarrow>
        (\<exists>w'. run (tk_Create tk g ob ns) w = (Normal None, w') \<and>
              view w' = (view w)((g, ns, nameOf ob) \<mapsto> ob) \<and> rest w' = rest w)) \<and>
     (\<forall>w g ns ob. view w (g, ns, nameOf ob) \<noteq> None \<longrightarrow>
        (\<exists>w'. run (tk_Update tk g ob ns) w = (Normal None, w') \<and>
              view w' = (view w)((g, ns, nameOf ob) \<mapsto> ob) \<and> rest w' = rest w)) \<and>
     (\<forall>w g ns ob. view w (g, ns, nameOf ob) = None \<longrightarrow>
        (\<exists>e. run (tk_Update tk g ob ns) w = (Normal (Some e), w)))"

text \<open>The tracker with field managers merges an applied object into the one it has.\<close>

type_synonym ('u, 't) merge =
  "('u, 't) runtime_object option \<Rightarrow> ('u, 't) runtime_object \<Rightarrow> patch_options \<Rightarrow> error + ('u, 't) runtime_object"

definition apply_laws ::
    "('u, 't, 'w) tracker \<Rightarrow> ('w \<Rightarrow> ('u, 't) object_map) \<Rightarrow> ('w \<Rightarrow> 'v) \<Rightarrow> (('u, 't) runtime_object \<Rightarrow> string) \<Rightarrow>
     ('u, 't) merge \<Rightarrow> bool" where
  "apply_laws tk view rest nameOf merge \<longleftrightarrow>
     (\<forall>w g ns ob opts r. merge (view w (g, ns, nameOf ob)) ob opts = Inr r \<longrightarrow>
        (\<exists>w'. run (tk_Apply tk g ob ns opts) w = (Normal None, w') \<and>
              view w' = (view w)((g, ns, nameOf ob) \<mapsto> r) \<and> rest w' = rest w)) \<and>
     (\<forall>w g ns ob opts e. merge (view w (g, ns, nameOf ob)) ob opts = Inl e \<longrightarrow>
        (\<exists>w'. run (tk_Apply tk g ob ns opts) w = (Normal (Some e), w') \<and> view w' = view w \<and> rest w' = rest w))"

lemma tracker_get:
  assumes "tracker_laws tk view rest nameOf"
  shows "view w (g, ns, nm) = Some ob \<Longrightarrow> run (tk_Get tk g ns nm) w = (Normal (Inr ob), w)"
    and "view w (g, ns, nm) = None \<Longrightarrow> \<exists>e. run (tk_Get tk g ns nm) w = (Normal (Inl e), w)"
  using assms by (simp_all add: tracker_laws_def)

lemma tracker_put:
  assumes "tracker_laws tk view rest nameOf"
  shows "view w (g, ns, nameOf ob) = None \<Longrightarrow> \<exists>w'. run (tk_Create tk g ob ns) w = (Normal None, w') \<and>
      view w' = (view w)((g, ns, nameOf ob) \<mapsto> ob) \<and> rest w' = rest w"
    and "view w (g, ns, nameOf ob) = Some old \<Longrightarrow> \<exists>w'. run (tk_Update tk g ob ns) w = (Normal None, w') \<and>
      view w' = (view w)((g, ns, nameOf ob) \<mapsto> ob) \<and> rest w' = rest w"
    and "view w (g, ns, nameOf ob) = None \<Longrightarrow> \<exists>e. run (tk_Update tk g ob ns) w = (Normal (Some e), w)"
  using assms by (simp_all add: tracker_laws_def)

lemma tracker_apply:
  assumes "apply_laws tk view rest nameOf merge"
  shows "merge (view w (g, ns, nameOf ob)) ob opts = Inr r \<Longrightarrow>
      \<exists>w'. run (tk_Apply tk g ob ns opts) w = (Normal None, w') \<and>
        view w' = (view w)((g, ns, nameOf ob) \<mapsto> r) \<and> rest w' = rest w"
    and "merge (view w (g, ns, nameOf ob)) ob opts = Inl e \<Longrightarrow>
      \<exists>w'. run (tk_Apply tk g ob ns opts) w = (Normal (Some e), w') \<and> view w' = view w \<and> rest w' = rest w"
  using assms by (simp_all add: apply_laws_def)

text \<open>The two trackers of a client, side by side.\<close>

definition client_laws ::
    "('u, 't, 'p, 'w) fakeDynamicResourceClient \<Rightarrow> ('w \<Rightarrow> ('u, 't) object_map) \<Rightarrow> ('w \<Rightarrow> ('u, 't) object_map) \<Rightarrow>
     (('u, 't) runtime_object \<Rightarrow> string) \<Rightarrow> ('u, 't) merge \<Rightarrow> bool" where
  "client_laws c upv fmv nameOf merge \<longleftrightarrow>
     tracker_laws (fc_Tracker (fr_client c)) upv fmv nameOf \<and>
     tracker_laws (fr_fieldManagedTracker c) fmv upv nameOf \<and>
     apply_laws (fr_fieldManagedTracker c) fmv upv nameOf merge"

text \<open>The object an apply starts from: the one the field-managing tracker has, and only if it has none,
  the one of the upstream client.\<close>

definition apply_base :: "('u, 't) object_map \<Rightarrow> ('u, 't) object_map \<Rightarrow> gvr \<times> string \<times> string \<Rightarrow> ('u, 't) runtime_object option" where
  "apply_base up fm k = (case fm k of Some ob \<Rightarrow> Some ob | None \<Rightarrow> up k)"

text \<open>The first part of \<open>Apply\<close>, up to the seeding of the field-managing tracker.\<close>

definition seed_managed ::
    "('u, 't, 'p, 'w) fakeDynamicResourceClient \<Rightarrow> string \<Rightarrow> error + ('u, 't) runtime_object \<Rightarrow> (error option, 'w) proc" where
  "seed_managed c nm original =
     (case original of
        Inl _ \<Rightarrow> Return None
      | Inr originalObj \<Rightarrow>
          bind (tk_Get (fr_fieldManagedTracker c) (fr_resource c) (fr_namespace c) nm) (\<lambda>res.
            case res of
              Inr _ \<Rightarrow> Return None
            | Inl _ \<Rightarrow> tk_Create (fr_fieldManagedTracker c) (fr_resource c) originalObj (fr_namespace c)))"

text \<open>The last part, which writes the result back to the upstream client.\<close>

definition write_upstream :: "('u, 't, 'p, 'w) fakeDynamicResourceClient \<Rightarrow> 'u \<Rightarrow> (error + 'u, 'w) proc" where
  "write_upstream c finalResult =
     bind (tk_Update (fc_Tracker (fr_client c)) (fr_resource c) (UnstructuredObject finalResult) (fr_namespace c)) (\<lambda>updateErr.
       case updateErr of
         None \<Rightarrow> Return (Inr finalResult)
       | Some ue \<Rightarrow>
           bind (tk_Create (fc_Tracker (fr_client c)) (fr_resource c) (UnstructuredObject finalResult) (fr_namespace c)) (\<lambda>createErr.
             case createErr of None \<Rightarrow> Return (Inr finalResult) | Some _ \<Rightarrow> Return (Inl ue)))"

definition apply_patch_options :: "apply_options \<Rightarrow> patch_options" where
  "apply_patch_options options =
     \<lparr>po_DryRun = ao_DryRun options, po_Force = Some (ao_Force options), po_FieldManager = ao_FieldManager options\<rparr>"

lemma fake_Apply_parts:
  "fake_Apply c nm obj options subresources =
     bind (tk_Get (fc_Tracker (fr_client c)) (fr_resource c) (fr_namespace c) nm) (\<lambda>original.
       bind (seed_managed c nm original) (\<lambda>createErr.
         case createErr of
           Some e \<Rightarrow> Return (Inl e)
         | None \<Rightarrow>
             bind (tk_Apply (fr_fieldManagedTracker c) (fr_resource c) (UnstructuredObject obj) (fr_namespace c)
                     (apply_patch_options options)) (\<lambda>err.
               case err of
                 Some e \<Rightarrow> Return (Inl e)
               | None \<Rightarrow>
                   bind (tk_Get (fr_fieldManagedTracker c) (fr_resource c) (fr_namespace c) nm) (\<lambda>result.
                     case result of
                       Inl e \<Rightarrow> Return (Inl e)
                     | Inr r \<Rightarrow>
                         (case to_unstructured (fc_lib (fr_client c)) r of
                            Inl e \<Rightarrow> Return (Inl e)
                          | Inr finalResult \<Rightarrow> write_upstream c finalResult)))))"
  unfolding fake_Apply_def seed_managed_def write_upstream_def apply_patch_options_def Let_def by (rule refl)

lemma run_seed_managed:
  assumes laws: "client_laws c upv fmv nameOf merge" and k: "k = (fr_resource c, fr_namespace c, nm)"
    and named: "\<And>ob. upv w k = Some ob \<Longrightarrow> nameOf ob = nm"
  shows "\<exists>w1. run (bind (tk_Get (fc_Tracker (fr_client c)) (fr_resource c) (fr_namespace c) nm) (seed_managed c nm)) w =
      (Normal None, w1) \<and> upv w1 = upv w \<and> fmv w1 = (fmv w)(k := apply_base (upv w) (fmv w) k)"
proof -
  have up: "tracker_laws (fc_Tracker (fr_client c)) upv fmv nameOf"
    and fm: "tracker_laws (fr_fieldManagedTracker c) fmv upv nameOf" using laws by (simp_all add: client_laws_def)
  show ?thesis
  proof (cases "upv w k")
    case None
    then have "(fmv w)(k := apply_base (upv w) (fmv w) k) = fmv w"
      by (simp add: apply_base_def fun_upd_idem split: option.split)
    with tracker_get(2) [OF up None [unfolded k]] show ?thesis by (auto simp: seed_managed_def)
  next
    case (Some ob)
    note get = tracker_get(1) [OF up Some [unfolded k]]
    show ?thesis
    proof (cases "fmv w k")
      case None
      from tracker_get(2) [OF fm None [unfolded k]] obtain e where
        "run (tk_Get (fr_fieldManagedTracker c) (fr_resource c) (fr_namespace c) nm) w = (Normal (Inl e), w)" by blast
      moreover from tracker_put(1) [OF fm, of w "fr_resource c" "fr_namespace c" ob] None named [OF Some] k
      obtain w1 where "run (tk_Create (fr_fieldManagedTracker c) (fr_resource c) ob (fr_namespace c)) w = (Normal None, w1)"
        "fmv w1 = (fmv w)(k \<mapsto> ob)" "upv w1 = upv w" by auto
      ultimately show ?thesis using get None Some by (simp add: seed_managed_def apply_base_def)
    next
      case (Some old)
      with get tracker_get(1) [OF fm Some [unfolded k]] show ?thesis
        by (simp add: seed_managed_def apply_base_def fun_upd_idem)
    qed
  qed
qed

lemma run_write_upstream:
  assumes laws: "client_laws c upv fmv nameOf merge" and k: "k = (fr_resource c, fr_namespace c, nm)"
    and named: "nameOf (UnstructuredObject u) = nm"
  shows "\<exists>w'. run (write_upstream c u) w = (Normal (Inr u), w') \<and>
    upv w' = (upv w)(k \<mapsto> UnstructuredObject u) \<and> fmv w' = fmv w"
proof -
  have up: "tracker_laws (fc_Tracker (fr_client c)) upv fmv nameOf" using laws by (simp add: client_laws_def)
  note put = tracker_put [OF up, of w "fr_resource c" "fr_namespace c" "UnstructuredObject u", unfolded named]
  show ?thesis
  proof (cases "upv w k")
    case None
    with put(1,3) k show ?thesis by (auto simp: write_upstream_def)
  next
    case (Some old)
    with put(2) k show ?thesis by (auto simp: write_upstream_def)
  qed
qed

text \<open>\<open>Apply\<close> on trackers that keep their promises.\<close>

lemma run_fake_Apply:
  assumes laws: "client_laws c upv fmv nameOf merge" and k: "k = (fr_resource c, fr_namespace c, nm)"
    and stored: "\<And>ob. upv w k = Some ob \<Longrightarrow> nameOf ob = nm" and obj: "nameOf (UnstructuredObject obj) = nm"
  shows "merge (apply_base (upv w) (fmv w) k) (UnstructuredObject obj) (apply_patch_options options) = Inr r \<Longrightarrow>
      to_unstructured (fc_lib (fr_client c)) r = Inr u \<Longrightarrow> nameOf (UnstructuredObject u) = nm \<Longrightarrow>
      \<exists>w'. run (fake_Apply c nm obj options subresources) w = (Normal (Inr u), w') \<and>
        upv w' = (upv w)(k \<mapsto> UnstructuredObject u) \<and> fmv w' = (fmv w)(k \<mapsto> r)"
    and "merge (apply_base (upv w) (fmv w) k) (UnstructuredObject obj) (apply_patch_options options) = Inl e \<Longrightarrow>
      \<exists>w'. run (fake_Apply c nm obj options subresources) w = (Normal (Inl e), w') \<and>
        upv w' = upv w \<and> fmv w' = (fmv w)(k := apply_base (upv w) (fmv w) k)"
proof -
  have fm: "tracker_laws (fr_fieldManagedTracker c) fmv upv nameOf" "apply_laws (fr_fieldManagedTracker c) fmv upv nameOf merge"
    using laws by (simp_all add: client_laws_def)
  obtain w1 where w1: "run (bind (tk_Get (fc_Tracker (fr_client c)) (fr_resource c) (fr_namespace c) nm) (seed_managed c nm)) w =
      (Normal None, w1)" "upv w1 = upv w" "fmv w1 = (fmv w)(k := apply_base (upv w) (fmv w) k)"
    using run_seed_managed [OF laws k stored] by blast
  let ?rest = "\<lambda>createErr. case createErr of
         Some e \<Rightarrow> Return (Inl e)
       | None \<Rightarrow>
           bind (tk_Apply (fr_fieldManagedTracker c) (fr_resource c) (UnstructuredObject obj) (fr_namespace c)
                   (apply_patch_options options)) (\<lambda>err.
             case err of
               Some e \<Rightarrow> Return (Inl e)
             | None \<Rightarrow>
                 bind (tk_Get (fr_fieldManagedTracker c) (fr_resource c) (fr_namespace c) nm) (\<lambda>result.
                   case result of
                     Inl e \<Rightarrow> Return (Inl e)
                   | Inr r \<Rightarrow>
                       (case to_unstructured (fc_lib (fr_client c)) r of
                          Inl e \<Rightarrow> Return (Inl e)
                        | Inr finalResult \<Rightarrow> write_upstream c finalResult)))"
  have parts: "run (fake_Apply c nm obj options subresources) w = run (?rest None) w1"
    using w1(1) unfolding fake_Apply_parts bind_assoc [symmetric] by (simp only: run_bind) simp
  have base: "fmv w1 (fr_resource c, fr_namespace c, nameOf (UnstructuredObject obj)) = apply_base (upv w) (fmv w) k"
    by (simp add: w1(3) obj k)
  {
    assume merge: "merge (apply_base (upv w) (fmv w) k) (UnstructuredObject obj) (apply_patch_options options) = Inr r"
      and u: "to_unstructured (fc_lib (fr_client c)) r = Inr u" "nameOf (UnstructuredObject u) = nm"
    from tracker_apply(1) [OF fm(2) merge [folded base]] obtain w2 where
      w2: "run (tk_Apply (fr_fieldManagedTracker c) (fr_resource c) (UnstructuredObject obj) (fr_namespace c)
        (apply_patch_options options)) w1 = (Normal None, w2)" "fmv w2 = (fmv w1)(k \<mapsto> r)" "upv w2 = upv w"
      by (auto simp: w1(2) obj k)
    then have w2fm: "fmv w2 = (fmv w)(k \<mapsto> r)" by (simp add: w1(3))
    have get: "run (tk_Get (fr_fieldManagedTracker c) (fr_resource c) (fr_namespace c) nm) w2 = (Normal (Inr r), w2)"
      by (rule tracker_get(1) [OF fm(1)]) (simp add: w2 k)
    from run_write_upstream [OF laws k u(2), of w2] show "\<exists>w'. run (fake_Apply c nm obj options subresources) w =
        (Normal (Inr u), w') \<and> upv w' = (upv w)(k \<mapsto> UnstructuredObject u) \<and> fmv w' = (fmv w)(k \<mapsto> r)"
      unfolding parts using w2(1,3) w2fm get u(1) by simp
  next
    assume merge: "merge (apply_base (upv w) (fmv w) k) (UnstructuredObject obj) (apply_patch_options options) = Inl e"
    from tracker_apply(2) [OF fm(2) merge [folded base]]
    show "\<exists>w'. run (fake_Apply c nm obj options subresources) w = (Normal (Inl e), w') \<and>
        upv w' = upv w \<and> fmv w' = (fmv w)(k := apply_base (upv w) (fmv w) k)"
      unfolding parts using w1 by (auto simp: fun_upd_def)
  }
qed

lemma fake_Patch_apply:
  assumes "fk_Unmarshal (fc_lib (fr_client c)) data = Inr obj" and "po_Force options = Some force"
  shows "fake_Patch c nm ApplyPatchType data options subresources =
    fake_Apply c nm obj \<lparr>ao_DryRun = po_DryRun options, ao_Force = force, ao_FieldManager = po_FieldManager options\<rparr> subresources"
  using assms by (simp add: fake_Patch_def)

section \<open>Trackers in memory\<close>

text \<open>Two trackers that keep their promises, given by what an apply merges; the fake client over them
  provides the contract of an apply client.\<close>

record ('u, 't) memory =
  mem_upstream :: "('u, 't) object_map"
  mem_managed :: "('u, 't) object_map"

definition memory_tracker ::
    "('w \<Rightarrow> ('u, 't) object_map) \<Rightarrow> (('u, 't) object_map \<Rightarrow> 'w \<Rightarrow> 'w) \<Rightarrow> (('u, 't) runtime_object \<Rightarrow> string) \<Rightarrow>
     ('u, 't) merge \<Rightarrow> ('u, 't, 'w) tracker" where
  "memory_tracker view put nameOf merge =
     \<lparr>tk_Get = (\<lambda>g ns nm. gets (\<lambda>w. case view w (g, ns, nm) of None \<Rightarrow> Inl (External ''not found'') | Some ob \<Rightarrow> Inr ob)),
      tk_Create = (\<lambda>g ob ns. act (\<lambda>w. case view w (g, ns, nameOf ob) of
         None \<Rightarrow> (None, put ((view w)((g, ns, nameOf ob) \<mapsto> ob)) w)
       | Some _ \<Rightarrow> (Some (External ''already exists''), w))),
      tk_Update = (\<lambda>g ob ns. act (\<lambda>w. case view w (g, ns, nameOf ob) of
         None \<Rightarrow> (Some (External ''not found''), w)
       | Some _ \<Rightarrow> (None, put ((view w)((g, ns, nameOf ob) \<mapsto> ob)) w))),
      tk_Apply = (\<lambda>g ob ns opts. act (\<lambda>w. case merge (view w (g, ns, nameOf ob)) ob opts of
         Inl e \<Rightarrow> (Some e, w)
       | Inr r \<Rightarrow> (None, put ((view w)((g, ns, nameOf ob) \<mapsto> r)) w)))\<rparr>"

definition memory_client ::
    "('u, 't) fake_lib \<Rightarrow> (gvr \<Rightarrow> string \<Rightarrow> ('u, 'p, ('u, 't) memory) resource_interface) \<Rightarrow>
     (('u, 't) runtime_object \<Rightarrow> string) \<Rightarrow> ('u, 't) merge \<Rightarrow> ('u, 't, 'p, ('u, 't) memory) fakeDynamicClient" where
  "memory_client L R nameOf merge =
     \<lparr>fc_lib = L, fc_Resource = R,
      fc_Tracker = memory_tracker mem_upstream (\<lambda>m w. w\<lparr>mem_upstream := m\<rparr>) nameOf (\<lambda>_ ob _. Inr ob),
      fc_fieldManagedTracker = memory_tracker mem_managed (\<lambda>m w. w\<lparr>mem_managed := m\<rparr>) nameOf merge\<rparr>"

definition memory_resource ::
    "('u, 't) fake_lib \<Rightarrow> (gvr \<Rightarrow> string \<Rightarrow> ('u, 'p, ('u, 't) memory) resource_interface) \<Rightarrow>
     (('u, 't) runtime_object \<Rightarrow> string) \<Rightarrow> ('u, 't) merge \<Rightarrow> gvr \<Rightarrow> string \<Rightarrow>
     ('u, 't, 'p, ('u, 't) memory) fakeDynamicResourceClient" where
  "memory_resource L R nameOf merge g ns =
     fakeResource_Namespace (fakeClient_Resource (memory_client L R nameOf merge) g) ns"

lemma memory_client_laws:
  "client_laws (memory_resource L R nameOf merge g ns) mem_upstream mem_managed nameOf merge"
  by (simp add: client_laws_def tracker_laws_def apply_laws_def memory_resource_def fakeResource_Namespace_def
      fakeClient_Resource_def memory_client_def memory_tracker_def split: option.split)

lemma memory_resource_sel [simp]:
  "fr_resource (memory_resource L R nameOf merge g ns) = g" "fr_namespace (memory_resource L R nameOf merge g ns) = ns"
  "fc_lib (fr_client (memory_resource L R nameOf merge g ns)) = L"
  by (simp_all add: memory_resource_def fakeResource_Namespace_def fakeClient_Resource_def memory_client_def)

definition fake_patch_client ::
    "('u, 't) fake_lib \<Rightarrow> (gvr \<Rightarrow> string \<Rightarrow> ('u, 'p, ('u, 't) memory) resource_interface) \<Rightarrow>
     (('u, 't) runtime_object \<Rightarrow> string) \<Rightarrow> ('u, 't) merge \<Rightarrow> ('u, ('u, 't) memory) patch_client" where
  "fake_patch_client L R nameOf merge g ns nm pt data options =
     fake_Patch (memory_resource L R nameOf merge g ns) nm pt data options []"

text \<open>An object that is the result of an apply of the data.\<close>

definition applied ::
    "('u, 't) fake_lib \<Rightarrow> ('u, 't) merge \<Rightarrow> string \<Rightarrow> string \<Rightarrow> ('u, 't) runtime_object option \<Rightarrow> 'u \<Rightarrow> bool" where
  "applied L merge manager data base u \<longleftrightarrow>
     (\<exists>obj r. fk_Unmarshal L data = Inr obj \<and> merge base (UnstructuredObject obj) (boot_patch_options manager) = Inr r \<and>
        to_unstructured L r = Inr u)"

definition fake_good ::
    "('u, 't) fake_lib \<Rightarrow> (('u, 't) runtime_object \<Rightarrow> string) \<Rightarrow> ('u, 't) merge \<Rightarrow> string \<Rightarrow>
     gvr \<Rightarrow> string \<Rightarrow> string \<Rightarrow> string \<Rightarrow> bool" where
  "fake_good L nameOf merge manager g ns nm data \<longleftrightarrow>
     (\<exists>obj. fk_Unmarshal L data = Inr obj \<and> nameOf (UnstructuredObject obj) = nm) \<and>
     (\<forall>base. \<exists>u. applied L merge manager data base u \<and> nameOf (UnstructuredObject u) = nm)"

definition fake_holds ::
    "('u, 't) fake_lib \<Rightarrow> ('u, 't) merge \<Rightarrow> string \<Rightarrow> gvr \<Rightarrow> string \<Rightarrow> string \<Rightarrow> string \<Rightarrow> ('u, 't) memory \<Rightarrow> bool" where
  "fake_holds L merge manager g ns nm data w \<longleftrightarrow>
     (\<exists>base u. mem_upstream w (g, ns, nm) = Some (UnstructuredObject u) \<and> applied L merge manager data base u)"

definition own_names :: "(('u, 't) runtime_object \<Rightarrow> string) \<Rightarrow> ('u, 't) memory \<Rightarrow> bool" where
  "own_names nameOf w \<longleftrightarrow> (\<forall>g ns nm ob. mem_upstream w (g, ns, nm) = Some ob \<longrightarrow> nameOf ob = nm)"

interpretation fake: apply_client
    "fake_patch_client L R nameOf merge" manager "fake_good L nameOf merge manager" "fake_holds L merge manager" "own_names nameOf"
  for L :: "('u, 't) fake_lib" and R :: "gvr \<Rightarrow> string \<Rightarrow> ('u, 'p, ('u, 't) memory) resource_interface" and nameOf merge manager
proof unfold_locales
  fix w :: "('u, 't) memory" and g ns nm data
  assume inv: "own_names nameOf w" and good: "fake_good L nameOf merge manager g ns nm data"
  let ?c = "memory_resource L R nameOf merge g ns" and ?k = "(g, ns, nm)"
  obtain obj u r where obj: "fk_Unmarshal L data = Inr obj" "nameOf (UnstructuredObject obj) = nm"
    and merge: "merge (apply_base (mem_upstream w) (mem_managed w) ?k) (UnstructuredObject obj) (boot_patch_options manager) = Inr r"
      "to_unstructured L r = Inr u" "nameOf (UnstructuredObject u) = nm"
    using good unfolding fake_good_def applied_def by (metis Inr_inject)
  let ?ao = "\<lparr>ao_DryRun = [], ao_Force = True, ao_FieldManager = manager\<rparr>"
  have opts: "apply_patch_options ?ao = boot_patch_options manager"
    by (simp add: apply_patch_options_def boot_patch_options_def)
  have patch: "fake_patch_client L R nameOf merge g ns nm ApplyPatchType data (boot_patch_options manager) = fake_Apply ?c nm obj ?ao []"
    using obj(1) by (simp add: fake_patch_client_def fake_Patch_apply boot_patch_options_def)
  have "\<exists>w'. run (fake_Apply ?c nm obj ?ao []) w = (Normal (Inr u), w') \<and>
      mem_upstream w' = (mem_upstream w)(?k \<mapsto> UnstructuredObject u) \<and> mem_managed w' = (mem_managed w)(?k \<mapsto> r)"
    by (rule run_fake_Apply(1) [OF memory_client_laws])
      (use inv obj merge opts in \<open>auto simp: own_names_def\<close>)
  then obtain w' where w': "run (fake_Apply ?c nm obj ?ao []) w = (Normal (Inr u), w')"
    "mem_upstream w' = (mem_upstream w)(?k \<mapsto> UnstructuredObject u)" by blast
  moreover have "own_names nameOf w'" using inv w'(2) merge(3) by (auto simp: own_names_def)
  moreover have "fake_holds L merge manager g ns nm data w'"
    using w'(2) obj merge by (auto simp: fake_holds_def applied_def)
  ultimately show "\<exists>r w'. run (fake_patch_client L R nameOf merge g ns nm ApplyPatchType data (boot_patch_options manager)) w = (Normal (Inr r), w') \<and>
      own_names nameOf w' \<and> fake_holds L merge manager g ns nm data w' \<and>
      (\<forall>ns' nm' d. (ns', nm') \<noteq> (ns, nm) \<longrightarrow> fake_holds L merge manager g ns' nm' d w' = fake_holds L merge manager g ns' nm' d w)"
    unfolding patch by (auto simp: fake_holds_def)
qed

section \<open>Properties\<close>

text \<open>C12: What an apply does. It merges the applied object into the one the field-managing tracker has, or,
  if it has none, into the one of the upstream client. When the merge succeeds, both trackers
  afterwards hold the result under the object's name, as an unstructured object in the upstream
  client, which is also what is returned; when the merge is refused, its error is returned and the
  upstream client is unchanged. Nothing else in either tracker changes.\<close>

theorem apply_updates_both_trackers:
  assumes "client_laws c upv fmv nameOf merge" and "k = (fr_resource c, fr_namespace c, nm)"
    and "\<And>ob. upv w k = Some ob \<Longrightarrow> nameOf ob = nm" and "nameOf (UnstructuredObject obj) = nm"
    and "\<And>r. merge (apply_base (upv w) (fmv w) k) (UnstructuredObject obj) (apply_patch_options options) = Inr r \<Longrightarrow>
      to_unstructured (fc_lib (fr_client c)) r = Inr u \<and> nameOf (UnstructuredObject u) = nm"
  shows "\<exists>w'. case merge (apply_base (upv w) (fmv w) k) (UnstructuredObject obj) (apply_patch_options options) of
      Inl e \<Rightarrow> run (fake_Apply c nm obj options subresources) w = (Normal (Inl e), w') \<and>
        upv w' = upv w \<and> fmv w' = (fmv w)(k := apply_base (upv w) (fmv w) k)
    | Inr r \<Rightarrow> run (fake_Apply c nm obj options subresources) w = (Normal (Inr u), w') \<and>
        upv w' = (upv w)(k \<mapsto> UnstructuredObject u) \<and> fmv w' = (fmv w)(k \<mapsto> r)"
proof (cases "merge (apply_base (upv w) (fmv w) k) (UnstructuredObject obj) (apply_patch_options options)")
  case (Inl e)
  from run_fake_Apply(2) [OF assms(1-4) Inl] Inl show ?thesis by simp
next
  case (Inr r)
  with assms(5) run_fake_Apply(1) [OF assms(1-4) Inr] show ?thesis by simp
qed


text \<open>Writes by other methods are lost. \<open>Create\<close>, \<open>Update\<close> and \<open>Delete\<close> reach the upstream client only.
  Once the field-managing tracker has an object, an apply does not look at what has become of it
  in the upstream client since: whatever is there, changed or deleted, is replaced by the merge of the
  applied object into the old one.\<close>

theorem apply_ignores_other_writes:
  assumes "client_laws c upv fmv nameOf merge" and "k = (fr_resource c, fr_namespace c, nm)"
    and "\<And>ob. upv w k = Some ob \<Longrightarrow> nameOf ob = nm" and "nameOf (UnstructuredObject obj) = nm"
    and "fmv w k = Some old" and "merge (Some old) (UnstructuredObject obj) (apply_patch_options options) = Inr r"
    and "to_unstructured (fc_lib (fr_client c)) r = Inr u" and "nameOf (UnstructuredObject u) = nm"
  shows "\<exists>w'. run (fake_Apply c nm obj options subresources) w = (Normal (Inr u), w') \<and>
    upv w' k = Some (UnstructuredObject u) \<and> fmv w' k = Some r"
proof -
  have "merge (apply_base (upv w) (fmv w) k) (UnstructuredObject obj) (apply_patch_options options) = Inr r"
    using assms(5,6) by (simp add: apply_base_def)
  from run_fake_Apply(1) [OF assms(1-4) this assms(7,8)] show ?thesis by fastforce
qed

section \<open>Witnesses\<close>

text \<open>Objects as lists of fields, the name among them; a merge lets the applied fields win and
  refuses the field \<open>bad\<close>.\<close>

type_synonym demo_fields = "(string, string) gomap"

definition demo_nameOf :: "(demo_fields, unit) runtime_object \<Rightarrow> string" where
  "demo_nameOf ob =
     (case ob of UnstructuredObject u \<Rightarrow> (case map_of u ''name'' of None \<Rightarrow> [] | Some n \<Rightarrow> n) | TypedObject _ \<Rightarrow> [])"

definition demo_fields_of :: "(demo_fields, unit) runtime_object option \<Rightarrow> demo_fields" where
  "demo_fields_of ob = (case ob of Some (UnstructuredObject u) \<Rightarrow> u | _ \<Rightarrow> [])"

definition demo_merge :: "(demo_fields, unit) merge" where
  "demo_merge base ob opts =
     (if ''bad'' \<in> fst ` set (demo_fields_of (Some ob)) then Inl (External ''conflict'')
      else Inr (UnstructuredObject (fold (\<lambda>(k, v) m. AList.update k v m) (demo_fields_of (Some ob)) (demo_fields_of base))))"

definition demo_fake_lib :: "(demo_fields, unit) fake_lib" where
  "demo_fake_lib = \<lparr>fk_ToUnstructured = (\<lambda>_. Inl (External ''no typed objects'')), fk_Unmarshal = (\<lambda>s. Inr [(''name'', s)])\<rparr>"

definition demo_upstream :: "gvr \<Rightarrow> string \<Rightarrow> (demo_fields, unit, (demo_fields, unit) memory) resource_interface" where
  "demo_upstream g ns =
     \<lparr>ri_Create = (\<lambda>u _ _. Return (Inr u)), ri_Update = (\<lambda>u _ _. Return (Inr u)), ri_UpdateStatus = (\<lambda>u _. Return (Inr u)),
      ri_Delete = (\<lambda>_ _ _. Return None), ri_DeleteCollection = (\<lambda>_ _. Return None),
      ri_Get = (\<lambda>nm _ _. gets (\<lambda>w. case mem_upstream w (g, ns, nm) of
         Some (UnstructuredObject u) \<Rightarrow> Inr u | _ \<Rightarrow> Inl (External ''not found''))),
      ri_List = (\<lambda>_. Return (Inr [])), ri_Watch = (\<lambda>_. Return (Inr 0)), ri_Patch = (\<lambda>_ _ _ _ _. Return (Inl (External ''unsupported'')))\<rparr>"

definition demo_resource :: "(demo_fields, unit, unit, (demo_fields, unit) memory) fakeDynamicResourceClient" where
  "demo_resource = memory_resource demo_fake_lib demo_upstream demo_nameOf demo_merge demo_gvr ''ns''"

definition demo_apply_options :: apply_options where
  "demo_apply_options = \<lparr>ao_DryRun = [], ao_Force = True, ao_FieldManager = ''m''\<rparr>"

text \<open>The object \<open>a\<close> was applied with the field \<open>x\<close>, and then updated to have the field \<open>y\<close> instead.\<close>

definition demo_memory :: "(demo_fields, unit) memory" where
  "demo_memory =
     \<lparr>mem_upstream = [(demo_gvr, ''ns'', ''a'') \<mapsto> UnstructuredObject [(''name'', ''a''), (''y'', ''2'')]],
      mem_managed = [(demo_gvr, ''ns'', ''a'') \<mapsto> UnstructuredObject [(''name'', ''a''), (''x'', ''1'')]]\<rparr>"

lemma demo_resource_sel [simp]:
  "fr_resource demo_resource = demo_gvr" "fr_namespace demo_resource = ''ns''" "fc_lib (fr_client demo_resource) = demo_fake_lib"
  by (simp_all add: demo_resource_def)

lemma demo_client_laws: "client_laws demo_resource mem_upstream mem_managed demo_nameOf demo_merge"
  unfolding demo_resource_def by (rule memory_client_laws)

lemmas demo_fake_defs = demo_memory_def demo_nameOf_def demo_merge_def demo_fields_of_def apply_base_def to_unstructured_def

theorem apply_updates_both_trackers_witness:
  "\<exists>w'. run (fake_Apply demo_resource ''b'' [(''name'', ''b''), (''z'', ''3'')] demo_apply_options []) demo_memory =
       (Normal (Inr [(''name'', ''b''), (''z'', ''3'')]), w') \<and>
     mem_upstream w' (demo_gvr, ''ns'', ''b'') = Some (UnstructuredObject [(''name'', ''b''), (''z'', ''3'')])"
  using apply_updates_both_trackers [OF demo_client_laws refl, of demo_memory "''b''" "[(''name'', ''b''), (''z'', ''3'')]"
      demo_apply_options "[(''name'', ''b''), (''z'', ''3'')]" "[]"]
  by (auto simp: demo_fake_defs)


theorem apply_ignores_other_writes_witness:
  "\<exists>w'. run (fake_Apply demo_resource ''a'' [(''name'', ''a''), (''z'', ''3'')] demo_apply_options []) demo_memory =
       (Normal (Inr [(''name'', ''a''), (''x'', ''1''), (''z'', ''3'')]), w') \<and>
     mem_upstream w' (demo_gvr, ''ns'', ''a'') = Some (UnstructuredObject [(''name'', ''a''), (''x'', ''1''), (''z'', ''3'')])"
  using apply_ignores_other_writes [OF demo_client_laws refl, of demo_memory "''a''" "[(''name'', ''a''), (''z'', ''3'')]"
      "UnstructuredObject [(''name'', ''a''), (''x'', ''1'')]" demo_apply_options
      "UnstructuredObject [(''name'', ''a''), (''x'', ''1''), (''z'', ''3'')]" "[(''name'', ''a''), (''x'', ''1''), (''z'', ''3'')]" "[]"]
  by (auto simp: demo_fake_defs)

end
