(* ===== verification/Static.thy ===== *)
theory Static
  imports Controller File_Informer Fake_Client
begin

text \<open>
  The controller for objects that must always exist (static/controller.go): an informer on a file whose
  every notification applies the file to the cluster, over \<open>ResourceFromFile\<close> of the theory \<open>Bootstrap\<close>
  and the informers of the theory \<open>File_Informer\<close>.

  The state of the handlers is the hash of the last application (an \<open>atomic.Uint64\<close>) beside the
  environment \<open>'e\<close>: files, cluster, reported errors.
\<close>

record 'e static_world =
  sw_lastStaticHash :: "64 word"
  sw_env :: 'e

record ('f, 'o, 'r, 'e) StaticController =
  sc_BasicController :: BasicController
  sc_path :: string
  sc_staticClusterResource :: gvr
  sc_gvr :: gvr
  sc_lib :: "('f, 'o, 'r, 'e) boot_lib"

text \<open>The controller, and the factory it holds, as the world its informers live in.\<close>

definition NewStaticController ::
    "string \<Rightarrow> string \<Rightarrow> gvr \<Rightarrow> ('f, 'o, 'r, 'e) boot_lib \<Rightarrow> 'e \<Rightarrow>
     ('f, 'o, 'r, 'e) StaticController \<times> 'e static_world fi_world" where
  "NewStaticController nm path g L e =
     (\<lparr>sc_BasicController = NewBasicController nm, sc_path = path,
       sc_staticClusterResource = FileGroupVersion_WithResource path, sc_gvr = g, sc_lib = L\<rparr>,
      NewFileInformerFactory \<lparr>sw_lastStaticHash = 0, sw_env = e\<rparr>)"

definition on_env :: "('a, 'e) proc \<Rightarrow> ('a, 'e static_world) proc" where
  "on_env p = embed sw_env (\<lambda>e w. w\<lparr>sw_env := e\<rparr>) p"

definition handleStaticResource :: "('f, 'o, 'r, 'e) StaticController \<Rightarrow> (unit, 'e static_world) proc" where
  "handleStaticResource c =
     bind (gets sw_lastStaticHash) (\<lambda>lastHash.
       bind (on_env (ResourceFromFile (sc_lib c) (BasicController_Name (sc_BasicController c)) (sc_gvr c) (sc_path c) lastHash))
         (\<lambda>(hash, err).
           case err of
             Some e \<Rightarrow> on_env (utilruntime_HandleError (sc_lib c) (Some e))
           | None \<Rightarrow> modify (\<lambda>w. w\<lparr>sw_lastStaticHash := hash\<rparr>)))"

text \<open>The three functions of \<open>cache.ResourceEventHandlerFuncs\<close>.\<close>

definition static_handler :: "('f, 'o, 'r, 'e) StaticController \<Rightarrow> 'e static_world event_handler" where
  "static_handler c n =
     (case n of
        OnAdd _ _ \<Rightarrow> handleStaticResource c
      | OnUpdate _ _ \<Rightarrow> handleStaticResource c
      | OnDelete _ \<Rightarrow> handleStaticResource c)"

definition Static_Start ::
    "'e static_world informer_lib \<Rightarrow> ('f, 'o, 'r, 'e) StaticController \<Rightarrow> ('e static_world, unit) fi" where
  "Static_Start IL c =
     bind (Factory_ForResource IL (sc_staticClusterResource c)) (\<lambda>inf.
       bind (AddEventHandler (FileInformer_Informer inf) (static_handler c)) (\<lambda>err.
         case err of
           Some e \<Rightarrow> Panic (''failed to add handlers: '' @ error_text e)
         | None \<Rightarrow> Factory_Start IL))"

section \<open>Lemmas\<close>

lemma run_on_env: "run (on_env p) w = (case run p (sw_env w) of (r, e) \<Rightarrow> (r, w\<lparr>sw_env := e\<rparr>))"
  unfolding on_env_def by (rule run_embed) simp_all

lemma static_handler_all: "static_handler c n = handleStaticResource c"
  by (cases n) (simp_all add: static_handler_def)

abbreviation static_sync ::
    "('f, 'o, 'r, 'e) StaticController \<Rightarrow> 64 word \<Rightarrow> (64 word \<times> error option, 'e) proc" where
  "static_sync c \<equiv> ResourceFromFile (sc_lib c) (BasicController_Name (sc_BasicController c)) (sc_gvr c) (sc_path c)"

lemma run_handle_ok:
  assumes "run (static_sync c (sw_lastStaticHash w)) (sw_env w) = (Normal (hash, None), e)"
  shows "run (handleStaticResource c) w = (Normal (), \<lparr>sw_lastStaticHash = hash, sw_env = e\<rparr>)"
  using assms by (simp add: handleStaticResource_def run_on_env)

lemma run_handle_error:
  assumes "run (static_sync c (sw_lastStaticHash w)) (sw_env w) = (Normal (hash, Some err), e)"
    and "run (boot_HandleError (sc_lib c) err) e = (Normal (), e')"
  shows "run (handleStaticResource c) w = (Normal (), \<lparr>sw_lastStaticHash = sw_lastStaticHash w, sw_env = e'\<rparr>)"
  using assms by (simp add: handleStaticResource_def run_on_env utilruntime_HandleError_def)

text \<open>A state that further notifications do not change: the file has the hash of the last application.\<close>

definition settled :: "('f, 'o, 'r, 'e) StaticController \<Rightarrow> 'e static_world \<Rightarrow> bool" where
  "settled c x \<longleftrightarrow> sc_path c \<noteq> [] \<and>
     (\<exists>contents. readable (sc_lib c) (sc_path c) contents (sw_env x) \<and>
        boot_Sum64 (sc_lib c) contents = sw_lastStaticHash x)"

lemma run_handle_settled:
  assumes "settled c x"
  shows "run (handleStaticResource c) x = (Normal (), x)"
proof -
  from assms obtain contents where "readable (sc_lib c) (sc_path c) contents (sw_env x)"
    "boot_Sum64 (sc_lib c) contents = sw_lastStaticHash x" "sc_path c \<noteq> []" by (auto simp: settled_def)
  then have "run (static_sync c (sw_lastStaticHash x)) (sw_env x) = (Normal (sw_lastStaticHash x, None), sw_env x)"
    by (simp add: run_ResourceFromFile_unchanged)
  from run_handle_ok [OF this] show ?thesis by simp
qed

text \<open>The start of a fresh controller: one informer, with the controller's handler, that is about to run.\<close>

definition started_world ::
    "('f, 'o, 'r, 'e) StaticController \<Rightarrow> nat \<Rightarrow> 'e static_world \<Rightarrow> 'e static_world fi_world" where
  "started_world c wt x =
     (let g = sc_staticClusterResource c in
      \<lparr>fw_locked = False, fw_informers = [(g, \<lparr>fi_fileName = Resource g, fi_watcher = wt, fi_informer = 0\<rparr>)],
       fw_startedInformers = [(g, True)],
       fw_heap = [(NewFileSharedIndexInformer (Resource g) wt (1 * Minute))\<lparr>fs_handlers := [static_handler c]\<rparr>],
       fw_goroutines = [RunInformer 0], fw_handled = [], fw_app = x\<rparr>)"

lemma range_order_single: "range_order ord \<Longrightarrow> ord [e] = [e]"
  unfolding range_order_def by (metis mset_single_iff mset.simps)

lemma run_Static_Start:
  assumes "run (fsnotify_NewWatcher IL) x = (Normal (Inr wt), x)" and "range_order (informer_order IL)"
  shows "run (Static_Start IL c) (NewFileInformerFactory x) = (Normal (), started_world c wt x)"
proof -
  let ?g = "sc_staticClusterResource c"
  let ?i = "\<lparr>fi_fileName = Resource ?g, fi_watcher = wt, fi_informer = 0\<rparr>"
  let ?w = "\<lambda>hs. \<lparr>fw_locked = False, fw_informers = [(?g, ?i)], fw_startedInformers = [],
    fw_heap = [(NewFileSharedIndexInformer (Resource ?g) wt (1 * Minute))\<lparr>fs_handlers := hs\<rparr>],
    fw_goroutines = [], fw_handled = [], fw_app = x\<rparr>"
  have "run (Factory_ForResource IL ?g) (NewFileInformerFactory x) = (Normal ?i, ?w [])"
    using assms(1) by (simp add: Factory_ForResource_def Factory_Lock_def Factory_Unlock_def NewFileInformer_def run_app
        NewFileInformerFactory_def NewFileSharedIndexInformer_def)
  moreover have "run (AddEventHandler 0 (static_handler c)) (?w []) = (Normal None, ?w [static_handler c])"
    by (simp add: AddEventHandler_def AddEventHandlerWithOptions_def informer_at_def set_informer_def NewFileSharedIndexInformer_def)
  moreover have "run (Factory_Start IL) (?w [static_handler c]) = (Normal (), started_world c wt x)"
    using assms(2) by (subst run_Factory_Start) (simp_all add: range_order_single launch_def is_started_def started_world_def Let_def)
  ultimately show ?thesis by (simp add: Static_Start_def FileInformer_Informer_def)
qed

text \<open>Watchers that work and change nothing the handlers see.\<close>

definition idle_watcher :: "'x informer_lib \<Rightarrow> bool" where
  "idle_watcher IL \<longleftrightarrow>
     (\<forall>wt s x. run (watcher_Add IL wt s) x = (Normal None, x) \<and> run (watcher_Remove IL wt s) x = (Normal None, x) \<and>
               run (watcher_Close IL wt) x = (Normal None, x))"

lemma idle_watcher_returns: "idle_watcher IL \<Longrightarrow> watcher_returns IL"
  by (simp add: idle_watcher_def watcher_returns_def)

lemma report_idle [simp]:
  "idle_watcher IL \<Longrightarrow> report (watcher_Add IL wt s) st = st"
  "idle_watcher IL \<Longrightarrow> report (watcher_Remove IL wt s) st = st"
  "idle_watcher IL \<Longrightarrow> report (watcher_Close IL wt) st = st"
  by (simp_all add: idle_watcher_def report_def)

lemma deliver_settled: "settled c (snd st) \<Longrightarrow> deliver_outside [static_handler c] n st = st"
  by (simp add: deliver_outside_def deliver_def static_handler_all run_handle_settled)

lemma fold_deliver_settled: "settled c (snd st) \<Longrightarrow> fold (deliver_outside [static_handler c]) ns st = st"
  by (induction ns) (auto simp: deliver_settled)

lemma fold_inputs_settled:
  assumes "idle_watcher IL" and "settled c (snd st)"
  shows "snd (fold (input_effect IL wt [static_handler c] fileName) is st) = snd st"
  using assms(2)
proof (induction "is" arbitrary: st)
  case (Cons i "is")
  have "snd (input_effect IL wt [static_handler c] fileName i st) = snd st"
    using assms(1) Cons.prems by (cases i) (auto simp: deliver_settled fold_deliver_settled)
  with Cons show ?case by simp
qed simp

lemma run_static_informer:
  assumes "quiet (static_handler c)" and "idle_watcher IL" and "Resource (sc_staticClusterResource c) \<noteq> []"
    and "run (handleStaticResource c) x = (Normal (), x')"
  shows "\<exists>w'. run (informer_Run IL 0) (started_world c wt x) = (Normal (), w') \<and> fw_app w' = x' \<and>
    unlocked 0 w' \<and> fs_handlers (informer_at 0 w') = [static_handler c]"
proof -
  let ?w = "started_world c wt x"
  have w: "unlocked 0 ?w" "handlers_quiet 0 ?w" "\<not> fs_once (informer_at 0 ?w)"
    "fs_fileName (informer_at 0 ?w) = Resource (sc_staticClusterResource c)"
    "fs_handlers (informer_at 0 ?w) = [static_handler c]" "outside ?w = ([], x)"
    using assms(1) by (simp_all add: unlocked_def handlers_quiet_def informer_at_def started_world_def Let_def
        NewFileSharedIndexInformer_def outside_def)
  from run_informer_Run [OF w(1,2) idle_watcher_returns [OF assms(2)] w(3,4)] assms(2-4) w(1,5,6)
  show ?thesis
    by (auto simp: deliver_outside_def deliver_def static_handler_all unlocked_def informer_at_def set_informer_def
        with_outside_def)
qed

section \<open>Properties\<close>


text \<open>A failed application is tried again. When the cluster rejects a document, the documents before it
  stay applied, the error is reported and the stored hash is not changed, so that the next
  notification sends the whole file again, from the first document on. When the file is gone, the stored hash
  becomes 0, so that the same file is applied again when it comes back.\<close>

theorem static_controller_retries:
  assumes "sc_path c \<noteq> []"
  shows "(\<forall>contents before bad after err data rejected e'. readable (sc_lib c) (sc_path c) contents e \<and>
      hash \<noteq> boot_Sum64 (sc_lib c) contents \<and> consuming (sc_lib c) \<and>
      decodes (sc_lib c) contents (map Some before @ Some bad # after) err \<and>
      (\<forall>ob \<in> set before. accepts (sc_lib c) (BasicController_Name (sc_BasicController c)) (sc_gvr c) put ob) \<and>
      json_Marshal (sc_lib c) (Some bad) = Inr data \<and>
      run (dc_Patch (sc_lib c) (sc_gvr c) (o_GetNamespace (sc_lib c) bad) (o_GetName (sc_lib c) bad) ApplyPatchType data
        (boot_patch_options (BasicController_Name (sc_BasicController c)))) (fold put before e) =
          (Normal (Inl rejected), fold put before e) \<and>
      run (boot_HandleError (sc_lib c) rejected) (fold put before e) = (Normal (), e') \<longrightarrow>
      run (static_handler c n) \<lparr>sw_lastStaticHash = hash, sw_env = e\<rparr> = (Normal (), \<lparr>sw_lastStaticHash = hash, sw_env = e'\<rparr>)) \<and>
    (\<forall>msg e'. run (os_Open (sc_lib c) (sc_path c)) e = (Normal (Inl (Wrapped msg os_ErrNotExist)), e) \<and>
      run (boot_HandleError (sc_lib c) os_ErrInvalid) e = (Normal (), e') \<longrightarrow>
      run (static_handler c n) \<lparr>sw_lastStaticHash = hash, sw_env = e\<rparr> = (Normal (), \<lparr>sw_lastStaticHash = 0, sw_env = e'\<rparr>))"
proof (intro conjI allI impI; elim conjE)
  fix contents before bad after err data rejected e'
  assume "readable (sc_lib c) (sc_path c) contents e" "hash \<noteq> boot_Sum64 (sc_lib c) contents" "consuming (sc_lib c)"
    "decodes (sc_lib c) contents (map Some before @ Some bad # after) err"
    and acc: "\<forall>ob \<in> set before. accepts (sc_lib c) (BasicController_Name (sc_BasicController c)) (sc_gvr c) put ob"
    and rej: "json_Marshal (sc_lib c) (Some bad) = Inr data"
      "run (dc_Patch (sc_lib c) (sc_gvr c) (o_GetNamespace (sc_lib c) bad) (o_GetName (sc_lib c) bad) ApplyPatchType data
        (boot_patch_options (BasicController_Name (sc_BasicController c)))) (fold put before e) =
          (Normal (Inl rejected), fold put before e)"
    and handled: "run (boot_HandleError (sc_lib c) rejected) (fold put before e) = (Normal (), e')"
  from run_ResourceFromFile_rejected [OF this(1) assms this(2-4) _ rej] acc
  have "run (static_sync c hash) e = (Normal (boot_Sum64 (sc_lib c) contents, Some rejected), fold put before e)" by blast
  with run_handle_error [OF _ handled, of "\<lparr>sw_lastStaticHash = hash, sw_env = e\<rparr>"]
  show "run (static_handler c n) \<lparr>sw_lastStaticHash = hash, sw_env = e\<rparr> = (Normal (), \<lparr>sw_lastStaticHash = hash, sw_env = e'\<rparr>)"
    by (simp add: static_handler_all)
next
  fix msg e'
  assume "run (os_Open (sc_lib c) (sc_path c)) e = (Normal (Inl (Wrapped msg os_ErrNotExist)), e)"
    and "run (boot_HandleError (sc_lib c) os_ErrInvalid) e = (Normal (), e')"
  then have "run (static_sync c hash) e = (Normal (0, None), e')"
    using assms by (simp add: ResourceFromFile_def File_Close_def utilruntime_HandleError_def)
  then show "run (static_handler c n) \<lparr>sw_lastStaticHash = hash, sw_env = e\<rparr> = (Normal (), \<lparr>sw_lastStaticHash = 0, sw_env = e'\<rparr>)"
    by (simp add: static_handler_all run_handle_ok)
qed

text \<open>The hash 0 stands for no application. A file whose content hashes to 0 is never applied by a fresh
  controller, whatever notifications arrive.\<close>

theorem zero_hash_is_never_applied:
  assumes "(c, w) = NewStaticController nm path g L e" and "path \<noteq> []" and "readable L path contents e"
    and "boot_Sum64 L contents = 0"
  shows "run (static_handler c n) (fw_app w) = (Normal (), fw_app w)"
proof -
  have "settled c (fw_app w)"
    using assms by (auto simp: settled_def NewStaticController_def NewFileInformerFactory_def)
  then show ?thesis by (simp add: static_handler_all run_handle_settled)
qed


section \<open>Witnesses\<close>

definition demo_static_informers :: "'x informer_lib" where
  "demo_static_informers =
     \<lparr>fsnotify_NewWatcher = Return (Inr 7), watcher_Add = (\<lambda>_ _. Return None), watcher_Remove = (\<lambda>_ _. Return None),
      watcher_Close = (\<lambda>_. Return None), cache_WaitForCacheSync = (\<lambda>c. c), informer_order = (\<lambda>m. m)\<rparr>"

lemma demo_static_idle: "idle_watcher demo_static_informers" "range_order (informer_order demo_static_informers)"
  "run (fsnotify_NewWatcher demo_static_informers) x = (Normal (Inr 7), x)"
  by (simp_all add: idle_watcher_def demo_static_informers_def)

definition demo_static ::
    "string \<Rightarrow> (unit, string, unit, string list \<times> error list) StaticController" where
  "demo_static contents = fst (NewStaticController ''m'' ''f'' demo_gvr (demo_boot contents) ([], []))"

lemma demo_static_sel [simp]:
  "sc_lib (demo_static contents) = demo_boot contents" "sc_path (demo_static contents) = ''f''"
  "sc_gvr (demo_static contents) = demo_gvr" "BasicController_Name (sc_BasicController (demo_static contents)) = ''m''"
  by (simp_all add: demo_static_def NewStaticController_def NewBasicController_def BasicController_Name_def)

lemma demo_boot_decodes_ab: "decodes (demo_boot ''ab'') ''ab'' (map Some [''a'', ''b'']) io_EOF"
  using demo_boot_decodes [of "''ab''" "''ab''"] by simp

lemma demo_static_quiet: "quiet (static_handler (demo_static ''ab''))"
  unfolding quiet_def
proof (intro allI)
  fix n and x :: "(string list \<times> error list) static_world"
  show "fst (run (static_handler (demo_static ''ab'') n) x) = Normal ()"
  proof (cases "sw_lastStaticHash x = boot_Sum64 (demo_boot ''ab'') ''ab''")
    case True
    then have "settled (demo_static ''ab'') x"
      unfolding settled_def demo_static_sel using demo_boot_readable [of "''ab''" "sw_env x"] by (metis list.distinct(1))
    then show ?thesis by (simp add: static_handler_all run_handle_settled)
  next
    case False
    have "run (static_sync (demo_static ''ab'') (sw_lastStaticHash x)) (sw_env x) =
        (Normal (boot_Sum64 (demo_boot ''ab'') ''ab'', None), fold demo_put [''a'', ''b''] (sw_env x))"
      unfolding demo_static_sel
      by (rule run_ResourceFromFile_applied [OF demo_boot_readable _ False demo_boot_consuming demo_boot_decodes_ab demo_boot_accepts])
        auto
    from run_handle_ok [OF this] show ?thesis by (simp add: static_handler_all)
  qed
qed


theorem static_controller_retries_witness:
  "run (static_handler (demo_static ''axb'') (OnAdd ''f'' False)) \<lparr>sw_lastStaticHash = 9, sw_env = ([], [])\<rparr> =
     (Normal (), \<lparr>sw_lastStaticHash = 9, sw_env = ([''a''], [External ''rejected''])\<rparr>)"
proof -
  have "decodes (demo_boot ''axb'') ''axb'' (map Some [''a''] @ Some ''x'' # [Some ''b'']) io_EOF"
    using demo_boot_decodes [of "''axb''" "''axb''"] by simp
  then show ?thesis
    using static_controller_retries [of "demo_static ''axb''" "([], [])" 9 demo_put "OnAdd ''f'' False", THEN conjunct1,
        rule_format, of "''axb''" "[''a'']" "''x''" "[Some ''b'']" io_EOF "''x''" "External ''rejected''" "([''a''], [External ''rejected''])"]
      demo_boot_readable [of "''axb''" "([], [])"] demo_boot_consuming demo_boot_accepts [of "''a''"]
    by (simp add: demo_put_def)
qed

text \<open>A hash that is 0 on every content.\<close>

definition demo_zero_boot :: "(unit, string, unit, string list \<times> error list) boot_lib" where
  "demo_zero_boot = (demo_boot ''ab'')\<lparr>boot_Sum64 := \<lambda>_. 0\<rparr>"

theorem zero_hash_is_never_applied_witness:
  "run (static_handler (fst (NewStaticController ''m'' ''f'' demo_gvr demo_zero_boot ([], []))) (OnAdd ''f'' True))
     \<lparr>sw_lastStaticHash = 0, sw_env = ([], [])\<rparr> = (Normal (), \<lparr>sw_lastStaticHash = 0, sw_env = ([], [])\<rparr>)"
proof -
  have "readable demo_zero_boot ''f'' ''ab'' ([], [])" by (simp add: readable_def demo_zero_boot_def demo_boot_def)
  from zero_hash_is_never_applied [OF _ _ this, of _ _ "''m''" demo_gvr "OnAdd ''f'' True"] show ?thesis
    by (auto simp: demo_zero_boot_def NewStaticController_def NewFileInformerFactory_def)
qed

text \<open>A file of one-byte objects over the fake client.\<close>

definition demo_fake_boot :: "(unit, string, demo_fields, (demo_fields, unit) memory) boot_lib" where
  "demo_fake_boot =
     \<lparr>os_Open = (\<lambda>_. Return (Inr ())), os_Close = (\<lambda>_. Return None), io_ReadAll = (\<lambda>_. Return (Inr ''ab'')),
      boot_HandleError = (\<lambda>_. Return ()), boot_Sum64 = (\<lambda>s. of_nat (Suc (length s))),
      yaml_Decode = (\<lambda>r. case r of [] \<Rightarrow> (Inl io_EOF, []) | c # r' \<Rightarrow> (Inr (Some [c]), r')),
      json_Marshal = (\<lambda>ob. Inr (case ob of None \<Rightarrow> ''null'' | Some s \<Rightarrow> s)), o_GetNamespace = (\<lambda>_. ''ns''), o_GetName = (\<lambda>ob. ob),
      dc_Patch = fake_patch_client demo_fake_lib demo_upstream demo_nameOf demo_merge\<rparr>"

definition demo_fake_static :: "(unit, string, demo_fields, (demo_fields, unit) memory) StaticController" where
  "demo_fake_static = fst (NewStaticController ''m'' ''f'' demo_gvr demo_fake_boot demo_memory)"

lemma demo_fake_static_sel [simp]:
  "sc_lib demo_fake_static = demo_fake_boot" "sc_path demo_fake_static = ''f''" "sc_gvr demo_fake_static = demo_gvr"
  "BasicController_Name (sc_BasicController demo_fake_static) = ''m''"
  by (simp_all add: demo_fake_static_def NewStaticController_def NewBasicController_def BasicController_Name_def)

lemma demo_fake_good: "fake_good demo_fake_lib demo_nameOf demo_merge manager g ns nm nm"
  by (auto simp: fake_good_def applied_def demo_fake_lib_def demo_nameOf_def demo_merge_def demo_fields_of_def
      to_unstructured_def update_conv')


end
