(* ===== verification/Fake_Schema.thy ===== *)
theory Fake_Schema
  imports Crd_Types Fake_Client
begin

text \<open>
  The construction of the fake dynamic client (client/fake/fake.go): options, the parsing of
  custom resource definitions, their registration in the scheme, the dynamic scheme, the mapping
  from resources to list kinds, the schemas made from definitions, and the type converter.

  Schemes, REST mappers, the JSON and YAML codecs and the constructors of type converters are
  parameters. Code that can panic and has no other effect than its result is of the type
  \<open>outcome\<close>. The loops over Go maps take the order of the list that is given.
\<close>

section \<open>Code that can only panic\<close>

fun out_bind :: "'a outcome \<Rightarrow> ('a \<Rightarrow> 'b outcome) \<Rightarrow> 'b outcome" where
  "out_bind (Normal a) f = f a"
| "out_bind (Panicked m) f = Panicked m"

primrec out_fold :: "('a \<Rightarrow> 's \<Rightarrow> 's outcome) \<Rightarrow> 'a list \<Rightarrow> 's \<Rightarrow> 's outcome" where
  "out_fold f [] s = Normal s"
| "out_fold f (x # xs) s = out_bind (f x s) (out_fold f xs)"

lemma out_fold_Normal: "(\<And>x s. x \<in> set xs \<Longrightarrow> f x s = Normal (g x s)) \<Longrightarrow> out_fold f xs s = Normal (fold g xs s)"
  by (induction xs arbitrary: s) auto

section \<open>Schemes\<close>

record gvk =
  gvk_Group :: string
  gvk_Version :: string
  gvk_Kind :: string

datatype known_type = UnstructuredType | UnstructuredListType | StructType string

record 's scheme_lib =
  NewScheme :: 's
  AllKnownTypes :: "'s \<Rightarrow> gvk list"
  Recognizes :: "'s \<Rightarrow> gvk \<Rightarrow> bool"
  AddKnownTypeWithName :: "gvk \<Rightarrow> known_type \<Rightarrow> 's \<Rightarrow> 's outcome"
  RESTMapping :: "'s \<Rightarrow> string \<Rightarrow> string \<Rightarrow> string \<Rightarrow> error + gvr"

primrec mapping_loop :: "'s scheme_lib \<Rightarrow> 's \<Rightarrow> gvk list \<Rightarrow> (gvr, string) gomap \<Rightarrow> error + (gvr, string) gomap" where
  "mapping_loop S scheme [] gvrToListKind = Inr gvrToListKind"
| "mapping_loop S scheme (k # ks) gvrToListKind =
     (if \<not> HasSuffix (gvk_Kind k) ''List'' then mapping_loop S scheme ks gvrToListKind
      else
        (let singularGVK = \<lparr>gvk_Group = gvk_Group k, gvk_Version = gvk_Version k,
                            gvk_Kind = TrimSuffix (gvk_Kind k) ''List''\<rparr> in
         if \<not> Recognizes S scheme singularGVK then mapping_loop S scheme ks gvrToListKind
         else
           (case RESTMapping S scheme (gvk_Group singularGVK) (gvk_Kind singularGVK) (gvk_Version singularGVK) of
              Inl err \<Rightarrow> Inl err
            | Inr resource \<Rightarrow> mapping_loop S scheme ks (AList.update resource (gvk_Kind k) gvrToListKind))))"

definition buildGVRToListKindMapping :: "'s scheme_lib \<Rightarrow> 's \<Rightarrow> error + (gvr, string) gomap" where
  "buildGVRToListKindMapping S scheme = mapping_loop S scheme (AllKnownTypes S scheme) []"

definition metav1_builtin :: "gvk \<Rightarrow> bool" where
  "metav1_builtin k \<longleftrightarrow>
     gvk_Group k = [] \<and> gvk_Version k = ''v1'' \<and>
     (HasSuffix (gvk_Kind k) ''Options'' \<or> gvk_Kind k = ''Status'' \<or> gvk_Kind k = ''WatchEvent'' \<or>
      gvk_Kind k = ''InternalEvent'' \<or> Contains (gvk_Kind k) ''List'' \<and> \<not> HasSuffix (gvk_Kind k) ''List'')"

definition add_dynamic_type :: "'s scheme_lib \<Rightarrow> gvk \<Rightarrow> 's \<Rightarrow> 's outcome" where
  "add_dynamic_type S k dynamicScheme =
     (if metav1_builtin k then Normal dynamicScheme
      else if Recognizes S dynamicScheme k then Normal dynamicScheme
      else if HasSuffix (gvk_Kind k) ''List''
           then AddKnownTypeWithName S k UnstructuredListType dynamicScheme
           else AddKnownTypeWithName S k UnstructuredType dynamicScheme)"

definition createDynamicScheme :: "'s scheme_lib \<Rightarrow> 's \<Rightarrow> 's outcome" where
  "createDynamicScheme S originalScheme = out_fold (add_dynamic_type S) (AllKnownTypes S originalScheme) (NewScheme S)"

definition register_version ::
    "'s scheme_lib \<Rightarrow> 'z crd \<Rightarrow> 'z crd_version \<Rightarrow> 's \<times> (gvr, string) gomap \<Rightarrow> ('s \<times> (gvr, string) gomap) outcome" where
  "register_version S crd version st =
     (let k = \<lparr>gvk_Group = crd_Group crd, gvk_Version = cv_Name version, gvk_Kind = crd_NamesKind crd\<rparr>;
          listGVK = \<lparr>gvk_Group = crd_Group crd, gvk_Version = cv_Name version, gvk_Kind = crd_NamesKind crd @ ''List''\<rparr>;
          g = \<lparr>Group = crd_Group crd, Version = cv_Name version, Resource = crd_Plural crd\<rparr> in
      out_bind (if \<not> Recognizes S (fst st) k then AddKnownTypeWithName S k UnstructuredType (fst st) else Normal (fst st)) (\<lambda>s1.
      out_bind (if \<not> Recognizes S s1 listGVK then AddKnownTypeWithName S listGVK UnstructuredListType s1 else Normal s1) (\<lambda>s2.
      Normal (s2, AList.update g (crd_NamesKind crd @ ''List'') (snd st)))))"

definition registerCRDTypesWithScheme ::
    "'s scheme_lib \<Rightarrow> 'z crd list \<Rightarrow> 's \<times> (gvr, string) gomap \<Rightarrow> ('s \<times> (gvr, string) gomap) outcome" where
  "registerCRDTypesWithScheme S crds st =
     out_fold (\<lambda>crd. out_fold (register_version S crd) (crd_Versions crd)) crds st"

section \<open>Parsing of definitions\<close>

primrec parse_loop :: "(string \<Rightarrow> error + 'z crd) \<Rightarrow> string list \<Rightarrow> 'z crd list \<Rightarrow> error + 'z crd list" where
  "parse_loop yamlUnmarshal [] crds = Inr crds"
| "parse_loop yamlUnmarshal (d # documents) crds =
     (let doc = TrimSpace d in
      if doc = [] then parse_loop yamlUnmarshal documents crds
      else
        (case yamlUnmarshal doc of
           Inl err \<Rightarrow> Inl (Wrapped ''failed to unmarshal CRD document: '' err)
         | Inr crd \<Rightarrow>
             if crd_Kind crd \<noteq> ''CustomResourceDefinition'' \<or>
                (crd_APIVersion crd \<noteq> ''apiextensions.k8s.io/v1'' \<and> crd_APIVersion crd \<noteq> ''apiextensions.k8s.io/v1beta1'')
             then parse_loop yamlUnmarshal documents crds
             else parse_loop yamlUnmarshal documents (crds @ [crd])))"

definition parseCRDsFromBytes :: "(string \<Rightarrow> error + 'z crd) \<Rightarrow> string \<Rightarrow> error + 'z crd list" where
  "parseCRDsFromBytes yamlUnmarshal data = parse_loop yamlUnmarshal (Split data ''---'') []"

section \<open>Schemas\<close>

datatype extension = ExtString string | ExtMaps "(string, string) gomap list"

text \<open>\<open>spec.Schema\<close>: its extensions and properties (maps, possibly nil), its items (possibly nil, possibly
  without a single schema), and the rest.\<close>

datatype 'y schema =
  Schema
    (sc_Extensions: "(string \<times> extension) list option")
    (sc_Properties: "(string \<times> 'y schema) list option")
    (sc_Items: "'y schema option option")
    (sc_rest: 'y)

definition merge_extensions :: "'z jsonschema \<Rightarrow> (string, extension) gomap option \<Rightarrow> (string, extension) gomap option" where
  "merge_extensions crdSchema exts =
     (case XListType crdSchema of
        None \<Rightarrow> exts
      | Some listType \<Rightarrow>
          let es = (case exts of None \<Rightarrow> [] | Some es \<Rightarrow> es) in
          Some (if listType = ''map'' then
                  (let es' = AList.update ''x-kubernetes-patch-strategy'' (ExtString ''merge'') es in
                   case XListMapKeys crdSchema of
                     [] \<Rightarrow> es'
                   | key # _ \<Rightarrow> AList.update ''x-kubernetes-patch-merge-key'' (ExtString key) es')
                else es))"

fun processStrategicMergePatchAnnotations :: "'y schema \<Rightarrow> 'z jsonschema \<Rightarrow> 'y schema" where
  "processStrategicMergePatchAnnotations (Schema exts props items r) crdSchema =
     Schema (merge_extensions crdSchema exts)
       (case props of
          None \<Rightarrow> None
        | Some ps \<Rightarrow>
            Some (map (\<lambda>(propName, propSchema).
              (propName,
               case js_Properties crdSchema of
                 None \<Rightarrow> propSchema
               | Some crdProps \<Rightarrow>
                   (case map_of crdProps propName of
                      None \<Rightarrow> propSchema
                    | Some crdProp \<Rightarrow> processStrategicMergePatchAnnotations propSchema crdProp))) ps))
       (case items of
          Some (Some s) \<Rightarrow>
            (case js_Items crdSchema of
               Some (Some crdItem) \<Rightarrow> Some (Some (processStrategicMergePatchAnnotations s crdItem))
             | _ \<Rightarrow> items)
        | _ \<Rightarrow> items)
       r"

text \<open>A type converter: from objects to typed values and back.\<close>

record ('o, 'v) type_converter =
  ObjectToTyped :: "'o \<Rightarrow> error + 'v"
  TypedToObject :: "'v \<Rightarrow> error + 'o"

text \<open>A decoded JSON value, as far as the code looks into it.\<close>

datatype json = JsonMap "(string \<times> json) list" | JsonOther string

record ('y, 'z, 'o, 'v) schema_lib =
  js_Marshal :: "'z jsonschema \<Rightarrow> error + string"
  schema_Unmarshal :: "string \<Rightarrow> error + 'y schema"
  defaultKubernetesOpenAPISpec :: string
  os_ReadFile :: "string \<Rightarrow> error + string"
  swagger_Unmarshal :: "string \<Rightarrow> error + (string, json) gomap"
  def_Marshal :: "json \<Rightarrow> error + string"
  NewTypeConverter :: "(string, 'y schema) gomap \<Rightarrow> bool \<Rightarrow> error + ('o, 'v) type_converter"
  NewDeducedTypeConverter :: "('o, 'v) type_converter"

definition convertCRDSchemaToSpec ::
    "('y, 'z, 'o, 'v) schema_lib \<Rightarrow> 'z jsonschema \<Rightarrow> string \<Rightarrow> string \<Rightarrow> string \<Rightarrow> error + 'y schema" where
  "convertCRDSchemaToSpec L crdSchema grp version kind =
     (case js_Marshal L crdSchema of
        Inl err \<Rightarrow> Inl (Wrapped ''failed to marshal CRD schema: '' err)
      | Inr schemaBytes \<Rightarrow>
          (case schema_Unmarshal L schemaBytes of
             Inl err \<Rightarrow> Inl (Wrapped ''failed to unmarshal into spec.Schema: '' err)
           | Inr (Schema exts props items r) \<Rightarrow>
               let es = (case exts of None \<Rightarrow> [] | Some es \<Rightarrow> es);
                   es' = AList.update ''x-kubernetes-group-version-kind''
                     (ExtMaps [[(''group'', grp), (''version'', version), (''kind'', kind)]]) es in
               Inr (processStrategicMergePatchAnnotations (Schema (Some es') props items r) crdSchema)))"

primrec crd_versions_schemas ::
    "('y, 'z, 'o, 'v) schema_lib \<Rightarrow> 'z crd \<Rightarrow> 'z crd_version list \<Rightarrow> (string, 'y schema) gomap \<Rightarrow> error + (string, 'y schema) gomap" where
  "crd_versions_schemas L crd [] schemas = Inr schemas"
| "crd_versions_schemas L crd (version # vs) schemas =
     (case cv_Schema version of
        Some (Some crdSchema) \<Rightarrow>
          (case convertCRDSchemaToSpec L crdSchema (crd_Group crd) (cv_Name version) (crd_NamesKind crd) of
             Inl err \<Rightarrow> Inl (Wrapped (''failed to convert CRD '' @ crd_Name crd @ '' schema: '') err)
           | Inr sch \<Rightarrow>
               crd_versions_schemas L crd vs
                 (AList.update (crd_Group crd @ ''.'' @ cv_Name version @ ''.'' @ crd_NamesKind crd) sch schemas))
      | _ \<Rightarrow> crd_versions_schemas L crd vs schemas)"

primrec crds_schemas ::
    "('y, 'z, 'o, 'v) schema_lib \<Rightarrow> 'z crd list \<Rightarrow> (string, 'y schema) gomap \<Rightarrow> error + (string, 'y schema) gomap" where
  "crds_schemas L [] schemas = Inr schemas"
| "crds_schemas L (crd # crds) schemas =
     (case crd_versions_schemas L crd (crd_Versions crd) schemas of
        Inl err \<Rightarrow> Inl err
      | Inr schemas' \<Rightarrow> crds_schemas L crds schemas')"

definition generateCRDSchemas :: "('y, 'z, 'o, 'v) schema_lib \<Rightarrow> 'z crd list \<Rightarrow> error + (string, 'y schema) gomap" where
  "generateCRDSchemas L crds = crds_schemas L crds []"

section \<open>Type converters\<close>

record ('o, 'v) hybridTypeConverter =
  hy_openapiConverter :: "('o, 'v) type_converter"
  hy_deducedConverter :: "('o, 'v) type_converter"

definition hybrid_ObjectToTyped :: "('o, 'v) hybridTypeConverter \<Rightarrow> 'o \<Rightarrow> error + 'v" where
  "hybrid_ObjectToTyped h obj =
     (case ObjectToTyped (hy_openapiConverter h) obj of
        Inr typedVal \<Rightarrow> Inr typedVal
      | Inl _ \<Rightarrow> ObjectToTyped (hy_deducedConverter h) obj)"

definition hybrid_TypedToObject :: "('o, 'v) hybridTypeConverter \<Rightarrow> 'v \<Rightarrow> error + 'o" where
  "hybrid_TypedToObject h typedVal =
     (case TypedToObject (hy_openapiConverter h) typedVal of
        Inr obj \<Rightarrow> Inr obj
      | Inl _ \<Rightarrow> TypedToObject (hy_deducedConverter h) typedVal)"

definition hybrid_converter :: "('o, 'v) hybridTypeConverter \<Rightarrow> ('o, 'v) type_converter" where
  "hybrid_converter h = \<lparr>ObjectToTyped = hybrid_ObjectToTyped h, TypedToObject = hybrid_TypedToObject h\<rparr>"

text \<open>Definitions that do not convert are skipped.\<close>

primrec definitions_loop ::
    "('y, 'z, 'o, 'v) schema_lib \<Rightarrow> (string \<times> json) list \<Rightarrow> (string, 'y schema) gomap \<Rightarrow> (string, 'y schema) gomap" where
  "definitions_loop L [] openapiSpec = openapiSpec"
| "definitions_loop L (e # es) openapiSpec =
     (case def_Marshal L (snd e) of
        Inl _ \<Rightarrow> definitions_loop L es openapiSpec
      | Inr defBytes \<Rightarrow>
          (case schema_Unmarshal L defBytes of
             Inl _ \<Rightarrow> definitions_loop L es openapiSpec
           | Inr sch \<Rightarrow> definitions_loop L es (AList.update (fst e) sch openapiSpec)))"

definition createTypeConverterWithOpenAPISpec ::
    "('y, 'z, 'o, 'v) schema_lib \<Rightarrow> string \<Rightarrow> 'z crd list \<Rightarrow> error + ('o, 'v) type_converter" where
  "createTypeConverterWithOpenAPISpec L specPath crds =
     (case (if specPath = [] then Inr (defaultKubernetesOpenAPISpec L)
            else (case os_ReadFile L specPath of
                    Inl err \<Rightarrow> Inl (Wrapped (''failed to read OpenAPI schema file '' @ Quote specPath @ '': '') err)
                  | Inr bytes \<Rightarrow> Inr bytes)) of
        Inl err \<Rightarrow> Inl err
      | Inr schemaBytes \<Rightarrow>
          (case swagger_Unmarshal L schemaBytes of
             Inl err \<Rightarrow> Inl (Wrapped ''failed to unmarshal OpenAPI schema: '' err)
           | Inr swaggerDoc \<Rightarrow>
               (case map_of swaggerDoc ''definitions'' of
                  Some (JsonMap definitions) \<Rightarrow>
                    let openapiSpec = definitions_loop L definitions [] in
                    (case (if crds = [] then Inr openapiSpec
                           else (case generateCRDSchemas L crds of
                                   Inl err \<Rightarrow> Inl (Wrapped ''failed to generate CRD schemas: '' err)
                                 | Inr crdSchemas \<Rightarrow> Inr (fold (\<lambda>(n, sch) m. AList.update n sch m) crdSchemas openapiSpec))) of
                       Inl err \<Rightarrow> Inl err
                     | Inr spec \<Rightarrow> NewTypeConverter L spec False)
                | _ \<Rightarrow> Inl (Errorf ''OpenAPI schema missing definitions''))))"

definition createHybridTypeConverter ::
    "('y, 'z, 'o, 'v) schema_lib \<Rightarrow> string \<Rightarrow> 'z crd list \<Rightarrow> ('o, 'v) type_converter outcome" where
  "createHybridTypeConverter L specPath crds =
     (case createTypeConverterWithOpenAPISpec L specPath crds of
        Inl err \<Rightarrow>
          if specPath \<noteq> []
          then Panicked (''failed to create type converter with custom OpenAPI spec: '' @ error_text err)
          else Normal (NewDeducedTypeConverter L)
      | Inr openapiConverter \<Rightarrow>
          Normal (hybrid_converter \<lparr>hy_openapiConverter = openapiConverter, hy_deducedConverter = NewDeducedTypeConverter L\<rparr>))"

section \<open>The constructors\<close>

record ('z, 'u, 't) clientConfig =
  cc_crds :: "'z crd list"
  cc_crdBytes :: "string list"
  cc_gvrMappings :: "(gvr, string) gomap option"
  cc_openAPISpec :: string
  cc_objects :: "('u, 't) runtime_object list"

type_synonym ('z, 'u, 't) ClientOption = "('z, 'u, 't) clientConfig \<Rightarrow> ('z, 'u, 't) clientConfig"

definition WithCRDs :: "'z crd list \<Rightarrow> ('z, 'u, 't) ClientOption" where
  "WithCRDs crds c = c\<lparr>cc_crds := cc_crds c @ crds\<rparr>"

definition WithCRDBytes :: "string list \<Rightarrow> ('z, 'u, 't) ClientOption" where
  "WithCRDBytes crdData c = c\<lparr>cc_crdBytes := cc_crdBytes c @ crdData\<rparr>"

definition WithCustomGVRMappings :: "(gvr, string) gomap \<Rightarrow> ('z, 'u, 't) ClientOption" where
  "WithCustomGVRMappings mappings c =
     (let m = (case cc_gvrMappings c of None \<Rightarrow> [] | Some m \<Rightarrow> m) in
      c\<lparr>cc_gvrMappings := Some (fold (\<lambda>(g, listKind) m. AList.update g listKind m) mappings m)\<rparr>)"

definition WithOpenAPISpec :: "string \<Rightarrow> ('z, 'u, 't) ClientOption" where
  "WithOpenAPISpec specPath c = c\<lparr>cc_openAPISpec := specPath\<rparr>"

definition WithObjects :: "('u, 't) runtime_object list \<Rightarrow> ('z, 'u, 't) ClientOption" where
  "WithObjects objects c = c\<lparr>cc_objects := cc_objects c @ objects\<rparr>"

record ('s, 'y, 'z, 'u, 't, 'v) new_client_lib =
  nl_scheme :: "'s scheme_lib"
  nl_schema :: "('y, 'z, ('u, 't) runtime_object, 'v) schema_lib"
  nl_fake :: "('u, 't) fake_lib"
  yaml_Unmarshal :: "string \<Rightarrow> error + 'z crd"
  GetObjectKind :: "'t \<Rightarrow> gvk"
  ObjectKinds :: "'s \<Rightarrow> 't \<Rightarrow> error + gvk list"
  SetGroupVersionKind :: "gvk \<Rightarrow> 'u \<Rightarrow> 'u"

definition gvk_Empty :: "gvk \<Rightarrow> bool" where
  "gvk_Empty k \<longleftrightarrow> gvk_Group k = [] \<and> gvk_Version k = [] \<and> gvk_Kind k = []"

definition unstructured_object ::
    "('s, 'y, 'z, 'u, 't, 'v) new_client_lib \<Rightarrow> 's \<Rightarrow> ('u, 't) runtime_object \<Rightarrow> 'u outcome" where
  "unstructured_object N scheme obj =
     (case obj of
        UnstructuredObject u \<Rightarrow> Normal u
      | TypedObject t \<Rightarrow>
          (case fk_ToUnstructured (nl_fake N) t of
             Inl err \<Rightarrow> Panicked (''failed to convert object to unstructured: '' @ error_text err)
           | Inr u \<Rightarrow>
               let k = GetObjectKind N t in
               if gvk_Empty k then
                 (case ObjectKinds N scheme t of
                    Inl err \<Rightarrow> Panicked (''failed to get GVK for object: '' @ error_text err)
                  | Inr [] \<Rightarrow> Normal (SetGroupVersionKind N k u)
                  | Inr (k' # _) \<Rightarrow> Normal (SetGroupVersionKind N k' u))
               else Normal (SetGroupVersionKind N k u)))"

text \<open>What a new client is made of: the scheme, changed by the registration, for the field-managing
  tracker; the dynamic scheme, list kinds and objects for the upstream client; the type converter.\<close>

record ('s, 'u, 't, 'v) new_client =
  nc_scheme :: 's
  nc_dynamicScheme :: 's
  nc_gvrToListKind :: "(gvr, string) gomap"
  nc_typeConverter :: "(('u, 't) runtime_object, 'v) type_converter"
  nc_objects :: "'u list"

definition newFakeClientWithSpec ::
    "('s, 'y, 'z, 'u, 't, 'v) new_client_lib \<Rightarrow> 's \<Rightarrow> (gvr, string) gomap \<Rightarrow> string \<Rightarrow> 'z crd list \<Rightarrow>
     ('u, 't) runtime_object list \<Rightarrow> ('s, 'u, 't, 'v) new_client outcome" where
  "newFakeClientWithSpec N scheme gvrToListKind specPath crds objects =
     out_bind (if crds \<noteq> [] then registerCRDTypesWithScheme (nl_scheme N) crds (scheme, gvrToListKind)
               else Normal (scheme, gvrToListKind)) (\<lambda>(scheme, gvrToListKind).
     out_bind (createDynamicScheme (nl_scheme N) scheme) (\<lambda>dynamicScheme.
     out_bind (createHybridTypeConverter (nl_schema N) specPath crds) (\<lambda>typeConverter.
     out_bind (out_fold (\<lambda>obj us. out_bind (unstructured_object N scheme obj) (\<lambda>u. Normal (us @ [u]))) objects [])
       (\<lambda>unstructuredObjects.
         Normal \<lparr>nc_scheme = scheme, nc_dynamicScheme = dynamicScheme, nc_gvrToListKind = gvrToListKind,
                 nc_typeConverter = typeConverter, nc_objects = unstructuredObjects\<rparr>))))"

definition newFakeClient ::
    "('s, 'y, 'z, 'u, 't, 'v) new_client_lib \<Rightarrow> 's \<Rightarrow> (gvr, string) gomap \<Rightarrow> 'z crd list \<Rightarrow>
     ('u, 't) runtime_object list \<Rightarrow> ('s, 'u, 't, 'v) new_client outcome" where
  "newFakeClient N scheme gvrToListKind crds objects = newFakeClientWithSpec N scheme gvrToListKind [] crds objects"

definition parse_all_crds :: "(string \<Rightarrow> error + 'z crd) \<Rightarrow> string list \<Rightarrow> 'z crd list outcome" where
  "parse_all_crds yamlUnmarshal crdBytes =
     out_fold (\<lambda>bs allCRDs.
       case parseCRDsFromBytes yamlUnmarshal bs of
         Inl err \<Rightarrow> Panicked (''failed to parse CRDs from byte data: '' @ error_text err)
       | Inr crds \<Rightarrow> Normal (allCRDs @ crds)) crdBytes []"

definition NewClient ::
    "('s, 'y, 'z, 'u, 't, 'v) new_client_lib \<Rightarrow> 's \<Rightarrow> ('z, 'u, 't) ClientOption list \<Rightarrow> ('s, 'u, 't, 'v) new_client outcome" where
  "NewClient N scheme opts =
     (let config = fold (\<lambda>opt c. opt c) opts
        \<lparr>cc_crds = [], cc_crdBytes = [], cc_gvrMappings = None, cc_openAPISpec = [], cc_objects = []\<rparr> in
      out_bind (parse_all_crds (yaml_Unmarshal N) (cc_crdBytes config)) (\<lambda>parsed.
        let allCRDs = parsed @ cc_crds config in
        (case buildGVRToListKindMapping (nl_scheme N) scheme of
           Inl err \<Rightarrow> Panicked (''failed to build GVR to ListKind mapping: '' @ error_text err)
         | Inr autoDetectedMappings \<Rightarrow>
             let finalMappings =
               fold (\<lambda>(g, listKind) m. AList.update g listKind m) (case cc_gvrMappings config of None \<Rightarrow> [] | Some m \<Rightarrow> m)
                 (fold (\<lambda>(g, listKind) m. AList.update g listKind m) autoDetectedMappings []) in
             if cc_openAPISpec config \<noteq> []
             then newFakeClientWithSpec N scheme finalMappings (cc_openAPISpec config) allCRDs (cc_objects config)
             else newFakeClient N scheme finalMappings allCRDs (cc_objects config))))"

definition NewFakeDynamicClient ::
    "('s, 'y, 'z, 'u, 't, 'v) new_client_lib \<Rightarrow> 's \<Rightarrow> ('u, 't) runtime_object list \<Rightarrow> ('s, 'u, 't, 'v) new_client outcome" where
  "NewFakeDynamicClient N scheme objects = NewClient N scheme [WithObjects objects]"

definition NewFakeDynamicClientWithCustomListKinds ::
    "('s, 'y, 'z, 'u, 't, 'v) new_client_lib \<Rightarrow> 's \<Rightarrow> (gvr, string) gomap \<Rightarrow> ('u, 't) runtime_object list \<Rightarrow>
     ('s, 'u, 't, 'v) new_client outcome" where
  "NewFakeDynamicClientWithCustomListKinds N scheme gvrToListKind objects =
     NewClient N scheme [WithCustomGVRMappings gvrToListKind, WithObjects objects]"

section \<open>Annotations by path\<close>

text \<open>A place in a schema: the steps into properties and items that lead to it.\<close>

datatype schema_step = AtProperty string | AtItems

fun schema_at :: "schema_step list \<Rightarrow> 'y schema \<Rightarrow> 'y schema option" where
  "schema_at [] s = Some s"
| "schema_at (AtProperty n # p) s =
     (case sc_Properties s of None \<Rightarrow> None | Some ps \<Rightarrow> Option.bind (map_of ps n) (schema_at p))"
| "schema_at (AtItems # p) s = (case sc_Items s of Some (Some i) \<Rightarrow> schema_at p i | _ \<Rightarrow> None)"

fun jsonschema_at :: "schema_step list \<Rightarrow> 'z jsonschema \<Rightarrow> 'z jsonschema option" where
  "jsonschema_at [] c = Some c"
| "jsonschema_at (AtProperty n # p) c =
     (case js_Properties c of None \<Rightarrow> None | Some ps \<Rightarrow> Option.bind (map_of ps n) (jsonschema_at p))"
| "jsonschema_at (AtItems # p) c = (case js_Items c of Some (Some i) \<Rightarrow> jsonschema_at p i | _ \<Rightarrow> None)"

text \<open>A node of a schema after the processing, given the node of the definition at the same place.\<close>

definition processed :: "'y schema \<Rightarrow> 'z jsonschema option \<Rightarrow> 'y schema" where
  "processed s d = (case d of None \<Rightarrow> s | Some c \<Rightarrow> processStrategicMergePatchAnnotations s c)"

lemma processed_simps [simp]:
  "processed s None = s"
  "processed s (Some c) = processStrategicMergePatchAnnotations s c"
  by (simp_all add: processed_def)

lemma map_of_map_keyed: "map_of (map (\<lambda>(n, v). (n, f n v)) xs) k = map_option (f k) (map_of xs k)"
  by (induction xs) auto

lemma process_extensions [simp]:
  "sc_Extensions (processStrategicMergePatchAnnotations s c) = merge_extensions c (sc_Extensions s)"
  "sc_rest (processStrategicMergePatchAnnotations s c) = sc_rest s"
  by (cases s; simp)+

lemma process_properties:
  "sc_Properties (processStrategicMergePatchAnnotations s c) =
     map_option (map (\<lambda>(n, p). (n, processed p (jsonschema_at [AtProperty n] c)))) (sc_Properties s)"
  by (cases s) (auto simp: fun_eq_iff processed_def split: option.splits bind_splits)

lemma process_items:
  "sc_Items (processStrategicMergePatchAnnotations s c) =
     map_option (map_option (\<lambda>i. processed i (jsonschema_at [AtItems] c))) (sc_Items s)"
  by (cases s) (auto simp: processed_def split: option.splits)

declare processStrategicMergePatchAnnotations.simps [simp del]

lemma jsonschema_at_Cons: "jsonschema_at (x # p) c = Option.bind (jsonschema_at [x] c) (jsonschema_at p)"
  by (cases x) (auto split: option.splits bind_splits)

lemma schema_at_Cons: "schema_at (x # p) s = Option.bind (schema_at [x] s) (schema_at p)"
  by (cases x) (auto split: option.splits bind_splits)

lemma schema_at_one:
  "schema_at [x] (processStrategicMergePatchAnnotations s c) =
     map_option (\<lambda>i. processed i (jsonschema_at [x] c)) (schema_at [x] s)"
  by (cases x)
     (auto simp: process_properties process_items map_of_map_keyed simp del: jsonschema_at.simps
       split: option.splits bind_splits)

lemma schema_at_processed:
  "schema_at p (processed s d) = map_option (\<lambda>n. processed n (Option.bind d (jsonschema_at p))) (schema_at p s)"
proof (induction p arbitrary: s d)
  case Nil
  show ?case by (cases d) simp_all
next
  case (Cons x p)
  show ?case
  proof (cases d)
    case (Some c)
    then show ?thesis
      by (cases "schema_at [x] s")
         (simp_all add: schema_at_Cons [of x p] schema_at_one Cons jsonschema_at_Cons [of x p])
  qed (simp add: option.map_ident)
qed

lemma schema_at_process:
  "schema_at p (processStrategicMergePatchAnnotations s c) =
     map_option (\<lambda>n. processed n (jsonschema_at p c)) (schema_at p s)"
  using schema_at_processed [of p s "Some c"] by simp

lemma merge_extensions_lookup:
  "merge_extensions c exts =
     (if XListType c = None then exts
      else Some (let es = (case exts of None \<Rightarrow> [] | Some es \<Rightarrow> es) in
        if XListType c \<noteq> Some ''map'' then es
        else (let es' = AList.update ''x-kubernetes-patch-strategy'' (ExtString ''merge'') es in
              if XListMapKeys c = [] then es'
              else AList.update ''x-kubernetes-patch-merge-key'' (ExtString (hd (XListMapKeys c))) es')))"
  by (auto simp: merge_extensions_def Let_def split: option.splits list.splits)

text \<open>The value of an extension; a nil map has none.\<close>

definition extension_at :: "'y schema \<Rightarrow> string \<Rightarrow> extension option" where
  "extension_at s key = (case sc_Extensions s of None \<Rightarrow> None | Some es \<Rightarrow> map_of es key)"

lemma extension_at_process:
  "extension_at (processStrategicMergePatchAnnotations s c) key =
     (if XListType c = Some ''map'' \<and> key = ''x-kubernetes-patch-strategy'' then Some (ExtString ''merge'')
      else if XListType c = Some ''map'' \<and> XListMapKeys c \<noteq> [] \<and> key = ''x-kubernetes-patch-merge-key''
           then Some (ExtString (hd (XListMapKeys c)))
      else extension_at s key)"
  by (auto simp: extension_at_def merge_extensions_lookup update_conv' Let_def split: option.splits)

section \<open>What the registration does to schemes\<close>

text \<open>
  What the code relies on of \<open>runtime.Scheme\<close>: a scheme maps kinds to types; a new scheme is empty;
  \<open>AllKnownTypes\<close> lists the kinds; \<open>AddKnownTypeWithName\<close> registers a kind that is not known yet and has a
  version. (It panics for a kind without version and for a second type of the same kind.)
\<close>

definition scheme_laws :: "'s scheme_lib \<Rightarrow> ('s \<Rightarrow> gvk \<Rightarrow> known_type option) \<Rightarrow> bool" where
  "scheme_laws S types \<longleftrightarrow>
     types (NewScheme S) = Map.empty \<and>
     (\<forall>s. set (AllKnownTypes S s) = dom (types s)) \<and>
     (\<forall>s k. k \<in> dom (types s) \<longrightarrow> gvk_Version k \<noteq> []) \<and>
     (\<forall>s k. Recognizes S s k \<longleftrightarrow> types s k \<noteq> None) \<and>
     (\<forall>s k t. gvk_Version k \<noteq> [] \<and> types s k = None \<longrightarrow>
        (\<exists>s'. AddKnownTypeWithName S k t s = Normal s' \<and> types s' = (types s)(k \<mapsto> t)))"

text \<open>Registration of a kind unless it is known: the types of the result.\<close>

definition with_type :: "gvk \<Rightarrow> known_type \<Rightarrow> (gvk \<rightharpoonup> known_type) \<Rightarrow> (gvk \<rightharpoonup> known_type)" where
  "with_type k t m = (if m k = None then m(k \<mapsto> t) else m)"

definition dynamic_type :: "gvk \<Rightarrow> known_type" where
  "dynamic_type k = (if HasSuffix (gvk_Kind k) ''List'' then UnstructuredListType else UnstructuredType)"

lemma register_unless_known:
  assumes "scheme_laws S types" and "gvk_Version k \<noteq> []"
  obtains s' where
    "(if \<not> Recognizes S s k then AddKnownTypeWithName S k t s else Normal s) = Normal s'"
    and "types s' = with_type k t (types s)"
proof (cases "types s k")
  case None
  with assms obtain s' where "AddKnownTypeWithName S k t s = Normal s'" and "types s' = (types s)(k \<mapsto> t)"
    unfolding scheme_laws_def by blast
  with None assms(1) show thesis by (intro that [of s']) (simp_all add: scheme_laws_def with_type_def)
next
  case (Some t')
  with assms(1) show thesis by (intro that [of s]) (simp_all add: scheme_laws_def with_type_def)
qed

lemma add_dynamic_type_normal:
  assumes "scheme_laws S types" and "gvk_Version k \<noteq> []"
  obtains s' where "add_dynamic_type S k s = Normal s'"
    and "types s' = (if metav1_builtin k then types s else with_type k (dynamic_type k) (types s))"
proof -
  obtain s' where "(if \<not> Recognizes S s k then AddKnownTypeWithName S k (dynamic_type k) s else Normal s) = Normal s'"
    and "types s' = with_type k (dynamic_type k) (types s)"
    by (rule register_unless_known [OF assms])
  then show thesis
    using that by (cases "metav1_builtin k") (auto simp: add_dynamic_type_def dynamic_type_def split: if_splits)
qed

lemma dynamic_scheme_fold:
  assumes "scheme_laws S types" and "\<And>k. k \<in> set ks \<Longrightarrow> gvk_Version k \<noteq> []"
  shows "\<exists>d. out_fold (add_dynamic_type S) ks s = Normal d \<and>
    types d = (\<lambda>k. if types s k = None \<and> k \<in> set ks \<and> \<not> metav1_builtin k then Some (dynamic_type k) else types s k)"
  using assms(2)
proof (induction ks arbitrary: s)
  case (Cons k ks)
  obtain s' where s': "add_dynamic_type S k s = Normal s'"
    and t: "types s' = (if metav1_builtin k then types s else with_type k (dynamic_type k) (types s))"
    using add_dynamic_type_normal [OF assms(1)] Cons.prems by (metis list.set_intros(1))
  from Cons.IH [of s'] Cons.prems obtain d where "out_fold (add_dynamic_type S) ks s' = Normal d"
    and "types d = (\<lambda>k. if types s' k = None \<and> k \<in> set ks \<and> \<not> metav1_builtin k then Some (dynamic_type k) else types s' k)"
    by auto
  with s' show ?case
    by (auto simp: fun_eq_iff t with_type_def split: if_splits)
qed (simp add: fun_eq_iff)

lemma createDynamicScheme_types:
  assumes "scheme_laws S types"
  shows "\<exists>d. createDynamicScheme S s = Normal d \<and>
    types d = (\<lambda>k. if types s k = None \<or> metav1_builtin k then None else Some (dynamic_type k))"
proof -
  have "types (NewScheme S) = Map.empty" "set (AllKnownTypes S s) = dom (types s)"
    "\<And>k. k \<in> set (AllKnownTypes S s) \<Longrightarrow> gvk_Version k \<noteq> []"
    using assms by (auto simp: scheme_laws_def)
  with dynamic_scheme_fold [OF assms, of "AllKnownTypes S s" "NewScheme S"] show ?thesis
    by (auto simp: createDynamicScheme_def dom_def fun_eq_iff)
qed

text \<open>The kinds and the list kinds of a definition, version by version.\<close>

definition crd_gvk :: "string \<Rightarrow> 'z crd \<Rightarrow> 'z crd_version \<Rightarrow> gvk" where
  "crd_gvk suf crd v = \<lparr>gvk_Group = crd_Group crd, gvk_Version = cv_Name v, gvk_Kind = crd_NamesKind crd @ suf\<rparr>"

definition version_types :: "'z crd \<Rightarrow> 'z crd_version \<Rightarrow> (gvk \<rightharpoonup> known_type) \<Rightarrow> (gvk \<rightharpoonup> known_type)" where
  "version_types crd v m = with_type (crd_gvk ''List'' crd v) UnstructuredListType (with_type (crd_gvk [] crd v) UnstructuredType m)"

definition crd_types :: "'z crd list \<Rightarrow> (gvk \<rightharpoonup> known_type) \<Rightarrow> (gvk \<rightharpoonup> known_type)" where
  "crd_types crds m = fold (\<lambda>crd. fold (version_types crd) (crd_Versions crd)) crds m"

definition crd_mapping :: "'z crd \<Rightarrow> 'z crd_version \<Rightarrow> gvr \<times> string" where
  "crd_mapping crd v =
     (\<lparr>Group = crd_Group crd, Version = cv_Name v, Resource = crd_Plural crd\<rparr>, crd_NamesKind crd @ ''List'')"

definition crd_mappings :: "'z crd list \<Rightarrow> (gvr \<times> string) list" where
  "crd_mappings crds = concat (map (\<lambda>crd. map (crd_mapping crd) (crd_Versions crd)) crds)"

abbreviation put_all :: "('k \<times> 'v) list \<Rightarrow> ('k, 'v) gomap \<Rightarrow> ('k, 'v) gomap" where
  "put_all \<equiv> fold (\<lambda>(k, v) m. AList.update k v m)"

lemma map_of_put_all: "map_of (put_all xs m) = map_of m ++ map_of (rev xs)"
proof (induction xs arbitrary: m)
  case (Cons x xs)
  then show ?case by (cases x) (auto simp: update_conv' fun_eq_iff map_add_def split: option.splits)
qed simp

lemma map_of_put_all_ok: "gomap_ok xs \<Longrightarrow> map_of (put_all xs m) = map_of m ++ map_of xs"
  by (rule map_of_fold_update) (simp add: gomap_ok_def)

lemma register_version_normal:
  assumes "scheme_laws S types" and "cv_Name v \<noteq> []"
  shows "\<exists>s'. register_version S crd v (s, m) = Normal (s', put_all [crd_mapping crd v] m) \<and>
    types s' = version_types crd v (types s)"
proof -
  have ver: "gvk_Version (crd_gvk suf crd v) \<noteq> []" for suf using assms(2) by (simp add: crd_gvk_def)
  obtain s1 where s1: "(if \<not> Recognizes S s (crd_gvk [] crd v) then AddKnownTypeWithName S (crd_gvk [] crd v) UnstructuredType s
      else Normal s) = Normal s1" and t1: "types s1 = with_type (crd_gvk [] crd v) UnstructuredType (types s)"
    by (rule register_unless_known [OF assms(1) ver])
  obtain s2 where s2: "(if \<not> Recognizes S s1 (crd_gvk ''List'' crd v)
      then AddKnownTypeWithName S (crd_gvk ''List'' crd v) UnstructuredListType s1 else Normal s1) = Normal s2"
    and t2: "types s2 = with_type (crd_gvk ''List'' crd v) UnstructuredListType (types s1)"
    by (rule register_unless_known [OF assms(1) ver])
  have "register_version S crd v (s, m) =
      out_bind (if \<not> Recognizes S s (crd_gvk [] crd v) then AddKnownTypeWithName S (crd_gvk [] crd v) UnstructuredType s
        else Normal s) (\<lambda>s1.
      out_bind (if \<not> Recognizes S s1 (crd_gvk ''List'' crd v)
        then AddKnownTypeWithName S (crd_gvk ''List'' crd v) UnstructuredListType s1 else Normal s1) (\<lambda>s2.
      Normal (s2, put_all [crd_mapping crd v] m)))"
    unfolding register_version_def crd_gvk_def crd_mapping_def Let_def by simp
  also have "\<dots> = Normal (s2, put_all [crd_mapping crd v] m)"
    by (simp only: s1 s2 out_bind.simps)
  finally show ?thesis by (simp add: version_types_def t1 t2)
qed

lemma out_fold_scheme:
  assumes "\<And>x s m. x \<in> set xs \<Longrightarrow> \<exists>s'. f x (s, m) = Normal (s', put_all (g x) m) \<and> types s' = h x (types s)"
  shows "\<exists>s'. out_fold f xs (s, m) = Normal (s', put_all (concat (map g xs)) m) \<and> types s' = fold h xs (types s)"
  using assms
proof (induction xs arbitrary: s m)
  case (Cons x xs)
  obtain s' where "f x (s, m) = Normal (s', put_all (g x) m)" and "types s' = h x (types s)"
    using Cons.prems by (metis list.set_intros(1))
  with Cons.IH [of s' "put_all (g x) m"] Cons.prems show ?case by auto
qed simp

text \<open>A definition whose versions all have names.\<close>

definition versioned :: "'z crd \<Rightarrow> bool" where
  "versioned crd \<longleftrightarrow> (\<forall>v \<in> set (crd_Versions crd). cv_Name v \<noteq> [])"

lemma registerCRDTypesWithScheme_normal:
  assumes "scheme_laws S types" and "\<And>crd. crd \<in> set crds \<Longrightarrow> versioned crd"
  shows "\<exists>s'. registerCRDTypesWithScheme S crds (s, m) = Normal (s', put_all (crd_mappings crds) m) \<and>
    types s' = crd_types crds (types s)"
  unfolding registerCRDTypesWithScheme_def crd_mappings_def crd_types_def
proof (rule out_fold_scheme)
  fix crd s m
  assume "crd \<in> set crds"
  then have "cv_Name v \<noteq> []" if "v \<in> set (crd_Versions crd)" for v
    using assms(2) that by (auto simp: versioned_def)
  then have "\<exists>s'. out_fold (register_version S crd) (crd_Versions crd) (s, m)
      = Normal (s', put_all (concat (map (\<lambda>v. [crd_mapping crd v]) (crd_Versions crd))) m) \<and>
      types s' = fold (version_types crd) (crd_Versions crd) (types s)"
    by (intro out_fold_scheme register_version_normal [OF assms(1)])
  then show "\<exists>s'. out_fold (register_version S crd) (crd_Versions crd) (s, m)
      = Normal (s', put_all (map (crd_mapping crd) (crd_Versions crd)) m) \<and>
      types s' = fold (version_types crd) (crd_Versions crd) (types s)"
    by simp
qed

text \<open>Registered types are never replaced, and every kind and list kind of a definition is known.\<close>

lemma with_type_keeps: "m k' = Some t' \<Longrightarrow> with_type k t m k' = Some t'"
  by (auto simp: with_type_def)

lemma dom_with_type [simp]: "dom (with_type k t m) = insert k (dom m)"
  by (auto simp: with_type_def)

lemma fold_keeps: "(\<And>x m. x \<in> set xs \<Longrightarrow> m k = Some t \<Longrightarrow> f x m k = Some t) \<Longrightarrow> m k = Some t \<Longrightarrow> fold f xs m k = Some t"
  by (induction xs arbitrary: m) auto

lemma crd_types_keeps: "m k = Some t \<Longrightarrow> crd_types crds m k = Some t"
  unfolding crd_types_def
  by (rule fold_keeps) (auto intro!: fold_keeps simp: version_types_def with_type_keeps)

lemma dom_fold: "(\<And>x m. dom (f x m) = A x \<union> dom m) \<Longrightarrow> dom (fold f xs m) = (\<Union>x \<in> set xs. A x) \<union> dom m"
  by (induction xs arbitrary: m) auto

definition crd_kinds :: "'z crd list \<Rightarrow> gvk set" where
  "crd_kinds crds = (\<Union>crd \<in> set crds. \<Union>v \<in> set (crd_Versions crd). {crd_gvk [] crd v, crd_gvk ''List'' crd v})"

lemma dom_crd_types: "dom (crd_types crds m) = crd_kinds crds \<union> dom m"
  unfolding crd_types_def crd_kinds_def
  by (rule dom_fold, rule dom_fold) (auto simp: version_types_def)

section \<open>Schemas made from definitions\<close>

lemma schema_at_extensions:
  "schema_at p (Schema exts' props items r) =
     (if p = [] then Some (Schema exts' props items r) else schema_at p (Schema exts props items r))"
  by (cases p; cases "hd p") auto

lemma extension_at_Schema [simp]: "extension_at (Schema (Some es) props items r) key = map_of es key"
  by (simp add: extension_at_def)

lemma convertCRDSchemaToSpec_ok:
  assumes "js_Marshal L c = Inr bs" and "schema_Unmarshal L bs = Inr s"
  obtains es where
    "convertCRDSchemaToSpec L c grp version kind =
       Inr (processStrategicMergePatchAnnotations (Schema (Some es) (sc_Properties s) (sc_Items s) (sc_rest s)) c)"
    and "map_of es ''x-kubernetes-group-version-kind'' =
       Some (ExtMaps [[(''group'', grp), (''version'', version), (''kind'', kind)]])"
    and "\<And>x. x \<noteq> ''x-kubernetes-group-version-kind'' \<Longrightarrow> map_of es x = extension_at s x"
proof (cases s)
  case (Schema exts props items r)
  show thesis
    by (rule that [where es = "AList.update ''x-kubernetes-group-version-kind''
          (ExtMaps [[(''group'', grp), (''version'', version), (''kind'', kind)]]) (case exts of None \<Rightarrow> [] | Some es \<Rightarrow> es)"])
       (simp_all add: convertCRDSchemaToSpec_def assms Schema Let_def update_conv' extension_at_def split: option.split)
qed

text \<open>The extensions that a node of a definition asks for: a list keyed by map keys is merged by the first
  of them.\<close>

definition patch_extension :: "'z jsonschema option \<Rightarrow> string \<Rightarrow> extension option" where
  "patch_extension d x =
     (case d of
        None \<Rightarrow> None
      | Some c \<Rightarrow>
          if XListType c \<noteq> Some ''map'' then None
          else if x = ''x-kubernetes-patch-strategy'' then Some (ExtString ''merge'')
          else if x = ''x-kubernetes-patch-merge-key''
               then (case XListMapKeys c of [] \<Rightarrow> None | key # _ \<Rightarrow> Some (ExtString key))
          else None)"

lemma extension_at_processed:
  "extension_at (processed n d) x = (case patch_extension d x of None \<Rightarrow> extension_at n x | Some e \<Rightarrow> Some e)"
  by (cases d) (auto simp: patch_extension_def extension_at_process split: list.splits option.splits)

section \<open>Documents\<close>

text \<open>What one document of a file of definitions contributes.\<close>

definition parse_document :: "(string \<Rightarrow> error + 'z crd) \<Rightarrow> string \<Rightarrow> error + 'z crd list" where
  "parse_document yamlUnmarshal d =
     (if TrimSpace d = [] then Inr []
      else (case yamlUnmarshal (TrimSpace d) of
              Inl err \<Rightarrow> Inl (Wrapped ''failed to unmarshal CRD document: '' err)
            | Inr crd \<Rightarrow>
                Inr (if crd_Kind crd = ''CustomResourceDefinition'' \<and>
                        crd_APIVersion crd \<in> {''apiextensions.k8s.io/v1'', ''apiextensions.k8s.io/v1beta1''}
                     then [crd] else [])))"

text \<open>All results in order, or the first error.\<close>

fun collect :: "(error + 'a list) list \<Rightarrow> error + 'a list" where
  "collect [] = Inr []"
| "collect (Inl e # rs) = Inl e"
| "collect (Inr xs # rs) = (case collect rs of Inl e \<Rightarrow> Inl e | Inr ys \<Rightarrow> Inr (xs @ ys))"

lemma parse_loop_collect:
  "parse_loop y ds crds =
     (case collect (map (parse_document y) ds) of Inl e \<Rightarrow> Inl e | Inr ys \<Rightarrow> Inr (crds @ ys))"
  by (induction ds arbitrary: crds) (auto simp: parse_document_def Let_def split: sum.split)

text \<open>A document that does not contain the separator and does not end in one of its bytes.\<close>

definition separable :: "string \<Rightarrow> bool" where
  "separable d \<longleftrightarrow> \<not> Contains d ''---'' \<and> \<not> HasSuffix d ''-''"

lemma separable_Cons: "separable (c # d) \<Longrightarrow> separable d"
  unfolding separable_def HasSuffix_iff Contains_iff [of "''---''", simplified]
  by (metis append_Cons)

lemma Cut_dashes: "separable d \<Longrightarrow> Cut (d @ ''---'' @ t) ''---'' = Some (d, t)"
proof (induction d)
  case (Cons c d)
  have "\<not> HasPrefix ((c # d) @ ''---'' @ t) ''---''"
  proof
    assume "HasPrefix ((c # d) @ ''---'' @ t) ''---''"
    then have "c = CHR ''-''" and "d = [] \<or> d = ''-'' \<or> (\<exists>e. d = ''--'' @ e)"
      by (auto simp: HasPrefix_def numeral_eq_Suc take_Cons' Cons_eq_append_conv split: if_splits)
         (cases d rule: remdups_adj.cases; simp)+
    then show False
      using Cons.prems unfolding separable_def HasSuffix_iff Contains_iff [of "''---''", simplified]
      by (metis append_Cons append_Nil)
  qed
  with Cons.IH [OF separable_Cons [OF Cons.prems]] show ?case by simp
qed (simp add: HasPrefix_def)

lemma Split_dashes: "ds \<noteq> [] \<Longrightarrow> (\<And>d. d \<in> set ds \<Longrightarrow> separable d) \<Longrightarrow> Split (Join ds ''---'') ''---'' = ds"
proof (induction ds rule: induct_list012)
  case (2 d)
  then show ?case by (simp add: Split_no_sep separable_def)
next
  case (3 d e ds)
  then show ?case by (subst Split.simps) (simp add: Cut_dashes [simplified])
qed simp

section \<open>List kinds\<close>

definition singular :: "gvk \<Rightarrow> gvk" where
  "singular k =
     \<lparr>gvk_Group = gvk_Group k, gvk_Version = gvk_Version k, gvk_Kind = TrimSuffix (gvk_Kind k) ''List''\<rparr>"

text \<open>The list kinds found in a scheme, for a REST mapper that answers \<open>resource\<close>.\<close>

definition auto_mappings :: "'s scheme_lib \<Rightarrow> (gvk \<Rightarrow> gvr) \<Rightarrow> 's \<Rightarrow> (gvr \<times> string) list" where
  "auto_mappings S resource scheme =
     map (\<lambda>k. (resource (singular k), gvk_Kind k))
       (filter (\<lambda>k. HasSuffix (gvk_Kind k) ''List'' \<and> Recognizes S scheme (singular k)) (AllKnownTypes S scheme))"

lemma mapping_loop_ok:
  assumes "\<And>k. Recognizes S scheme k \<Longrightarrow> RESTMapping S scheme (gvk_Group k) (gvk_Kind k) (gvk_Version k) = Inr (resource k)"
  shows "mapping_loop S scheme ks m =
    Inr (put_all (map (\<lambda>k. (resource (singular k), gvk_Kind k))
      (filter (\<lambda>k. HasSuffix (gvk_Kind k) ''List'' \<and> Recognizes S scheme (singular k)) ks)) m)"
proof (induction ks arbitrary: m)
  case (Cons k ks)
  from Cons assms [of "singular k"] show ?case by (auto simp: Let_def singular_def)
qed simp

lemma buildGVRToListKindMapping_ok:
  assumes "\<And>k. Recognizes S scheme k \<Longrightarrow> RESTMapping S scheme (gvk_Group k) (gvk_Kind k) (gvk_Version k) = Inr (resource k)"
  shows "buildGVRToListKindMapping S scheme = Inr (put_all (auto_mappings S resource scheme) [])"
  unfolding buildGVRToListKindMapping_def auto_mappings_def by (rule mapping_loop_ok) (rule assms)

lemma out_fold_append:
  "map f xs = map Normal ys \<Longrightarrow> out_fold (\<lambda>x us. out_bind (f x) (\<lambda>u. Normal (us @ [u]))) xs us = Normal (us @ ys)"
  by (induction xs arbitrary: us ys) (auto simp: Cons_eq_map_conv)

section \<open>Properties\<close>

text \<open>C20: The schema made from a definition says at its root which kind it is for, and it has the places of
  the schema decoded from the definition. At every place, at any depth, where the definition has a list
  keyed by map keys, the schema asks for a merge by the first of the keys; all other extensions are the
  decoded ones.\<close>

theorem definition_annotations_at_every_depth:
  assumes "js_Marshal L c = Inr bs" and "schema_Unmarshal L bs = Inr s"
  shows "\<exists>s'. convertCRDSchemaToSpec L c grp version kind = Inr s' \<and>
    extension_at s' ''x-kubernetes-group-version-kind'' =
      Some (ExtMaps [[(''group'', grp), (''version'', version), (''kind'', kind)]]) \<and>
    (\<forall>p. schema_at p s = None \<longrightarrow> schema_at p s' = None) \<and>
    (\<forall>p n. schema_at p s = Some n \<longrightarrow>
      (\<exists>n'. schema_at p s' = Some n' \<and>
        (\<forall>x. p \<noteq> [] \<or> x \<noteq> ''x-kubernetes-group-version-kind'' \<longrightarrow>
          extension_at n' x =
            (case patch_extension (jsonschema_at p c) x of None \<Rightarrow> extension_at n x | Some e \<Rightarrow> Some e))))"
proof -
  obtain es where conv: "convertCRDSchemaToSpec L c grp version kind =
       Inr (processStrategicMergePatchAnnotations (Schema (Some es) (sc_Properties s) (sc_Items s) (sc_rest s)) c)"
    and es: "map_of es ''x-kubernetes-group-version-kind'' =
       Some (ExtMaps [[(''group'', grp), (''version'', version), (''kind'', kind)]])"
       "\<And>x. x \<noteq> ''x-kubernetes-group-version-kind'' \<Longrightarrow> map_of es x = extension_at s x"
    by (rule convertCRDSchemaToSpec_ok [OF assms]) blast
  have at: "schema_at p (Schema (Some es) (sc_Properties s) (sc_Items s) (sc_rest s)) =
      (if p = [] then Some (Schema (Some es) (sc_Properties s) (sc_Items s) (sc_rest s)) else schema_at p s)" for p
    using schema_at_extensions [of p "Some es" "sc_Properties s" "sc_Items s" "sc_rest s" "sc_Extensions s"] by simp
  have root: "patch_extension (Some c) ''x-kubernetes-group-version-kind'' = None"
    by (simp add: patch_extension_def)
  show ?thesis
    unfolding conv
    by (intro exI conjI, rule refl)
       (auto simp: schema_at_process at extension_at_processed extension_at_processed [of _ "Some c", simplified] es root
         split: if_splits option.splits)
qed

text \<open>A file of definitions whose documents are joined by three dashes gives the definitions of the
  documents in their order, blank documents and other objects left out, or the error of the first document
  that does not decode. The documents must not contain three dashes and not end in a dash.\<close>

theorem documents_are_parsed_in_order:
  assumes "docs \<noteq> []" and "\<And>d. d \<in> set docs \<Longrightarrow> separable d"
  shows "parseCRDsFromBytes y (Join docs ''---'') = collect (map (parse_document y) docs)"
  using Split_dashes [OF assms]
  by (simp add: parseCRDsFromBytes_def parse_loop_collect split: sum.split)

text \<open>The configuration that the options make.\<close>

definition configured :: "('z, 'u, 't) ClientOption list \<Rightarrow> ('z, 'u, 't) clientConfig" where
  "configured opts = fold (\<lambda>opt c. opt c) opts
     \<lparr>cc_crds = [], cc_crdBytes = [], cc_gvrMappings = None, cc_openAPISpec = [], cc_objects = []\<rparr>"

lemma NewClient_with_spec:
  "NewClient N scheme opts =
     out_bind (parse_all_crds (yaml_Unmarshal N) (cc_crdBytes (configured opts))) (\<lambda>parsed.
       case buildGVRToListKindMapping (nl_scheme N) scheme of
         Inl err \<Rightarrow> Panicked (''failed to build GVR to ListKind mapping: '' @ error_text err)
       | Inr auto \<Rightarrow>
           newFakeClientWithSpec N scheme
             (put_all (case cc_gvrMappings (configured opts) of None \<Rightarrow> [] | Some m \<Rightarrow> m) (put_all auto []))
             (cc_openAPISpec (configured opts)) (parsed @ cc_crds (configured opts)) (cc_objects (configured opts)))"
proof -
  define config where "config = configured opts"
  show ?thesis
    unfolding NewClient_def configured_def [symmetric] config_def [symmetric]
    by (cases "parse_all_crds (yaml_Unmarshal N) (cc_crdBytes config)"; cases "buildGVRToListKindMapping (nl_scheme N) scheme")
       (simp_all add: newFakeClient_def Let_def)
qed

text \<open>Objects that can be made unstructured in every scheme that knows what the given types do.\<close>

definition convertible ::
    "('s, 'y, 'z, 'u, 't, 'v) new_client_lib \<Rightarrow> ('s \<Rightarrow> gvk \<Rightarrow> known_type option) \<Rightarrow> (gvk \<rightharpoonup> known_type) \<Rightarrow>
     ('u, 't) runtime_object list \<Rightarrow> bool" where
  "convertible N types known objs \<longleftrightarrow>
     (\<forall>s. known \<subseteq>\<^sub>m types s \<longrightarrow> (\<exists>us. map (unstructured_object N s) objs = map Normal us))"

lemma newFakeClientWithSpec_normal:
  assumes laws: "scheme_laws (nl_scheme N) types" and "\<And>crd. crd \<in> set crds \<Longrightarrow> versioned crd"
    and conv: "createHybridTypeConverter (nl_schema N) spec crds = Normal converter"
    and objs: "convertible N types (types scheme) objs"
  shows "\<exists>c. newFakeClientWithSpec N scheme m spec crds objs = Normal c \<and>
    types (nc_scheme c) = crd_types crds (types scheme) \<and>
    types (nc_dynamicScheme c) =
      (\<lambda>k. if crd_types crds (types scheme) k = None \<or> metav1_builtin k then None else Some (dynamic_type k)) \<and>
    map_of (nc_gvrToListKind c) = map_of m ++ map_of (rev (crd_mappings crds)) \<and>
    nc_typeConverter c = converter \<and>
    map (unstructured_object N (nc_scheme c)) objs = map Normal (nc_objects c)"
proof -
  obtain s' where reg: "registerCRDTypesWithScheme (nl_scheme N) crds (scheme, m) = Normal (s', put_all (crd_mappings crds) m)"
    and types: "types s' = crd_types crds (types scheme)"
    using registerCRDTypesWithScheme_normal [OF laws assms(2)] by blast
  then have guarded: "(if crds \<noteq> [] then registerCRDTypesWithScheme (nl_scheme N) crds (scheme, m) else Normal (scheme, m))
      = Normal (s', put_all (crd_mappings crds) m)"
    by (cases "crds = []") (simp_all add: registerCRDTypesWithScheme_def crd_mappings_def)
  obtain d where dyn: "createDynamicScheme (nl_scheme N) s' = Normal d"
    and dtypes: "types d = (\<lambda>k. if types s' k = None \<or> metav1_builtin k then None else Some (dynamic_type k))"
    using createDynamicScheme_types [OF laws] by blast
  have "types scheme \<subseteq>\<^sub>m types s'"
    by (auto simp: map_le_def types dom_def intro: crd_types_keeps [symmetric])
  then obtain us where us: "map (unstructured_object N s') objs = map Normal us"
    using objs by (auto simp: convertible_def)
  show ?thesis
    unfolding newFakeClientWithSpec_def guarded
    by (simp add: dyn conv out_fold_append [OF us] types dtypes us map_of_put_all)
qed


section \<open>Witnesses\<close>

text \<open>A scheme as a list of kinds and types; kinds without version are not in it.\<close>

type_synonym demo_scheme = "(gvk \<times> known_type) list"

definition demo_types :: "demo_scheme \<Rightarrow> gvk \<Rightarrow> known_type option" where
  "demo_types s = map_of (filter (\<lambda>(k, _). gvk_Version k \<noteq> []) s)"

definition demo_scheme_lib :: "demo_scheme scheme_lib" where
  "demo_scheme_lib =
     \<lparr>NewScheme = [], AllKnownTypes = (\<lambda>s. map fst (filter (\<lambda>(k, _). gvk_Version k \<noteq> []) s)),
      Recognizes = (\<lambda>s k. demo_types s k \<noteq> None),
      AddKnownTypeWithName = (\<lambda>k t s. if gvk_Version k = [] then Panicked ''version is required'' else Normal ((k, t) # s)),
      RESTMapping = (\<lambda>s grp kind ver. Inr \<lparr>Group = grp, Version = ver, Resource = kind @ ''s''\<rparr>)\<rparr>"

lemma demo_scheme_laws: "scheme_laws demo_scheme_lib demo_types"
  unfolding scheme_laws_def demo_scheme_lib_def
  by (auto simp: demo_types_def dom_map_of_conv_image_fst)

definition demo_js :: "unit jsonschema" where
  "demo_js = JSONSchemaProps None [] (Some [(''ports'', JSONSchemaProps (Some ''map'') [''port'', ''protocol''] None None ())]) None ()"

definition demo_schema :: "unit schema" where
  "demo_schema = Schema None (Some [(''ports'', Schema None None None ()), (''size'', Schema None None None ())]) None ()"

definition demo_schema_lib :: "(unit, unit, (demo_fields, unit) runtime_object, unit) schema_lib" where
  "demo_schema_lib =
     \<lparr>js_Marshal = (\<lambda>_. Inr ''ports''), schema_Unmarshal = (\<lambda>_. Inr demo_schema), defaultKubernetesOpenAPISpec = [],
      os_ReadFile = (\<lambda>_. Inl os_ErrNotExist), swagger_Unmarshal = (\<lambda>_. Inr [(''definitions'', JsonMap [])]),
      def_Marshal = (\<lambda>_. Inr []), NewTypeConverter = (\<lambda>_ _. Inl (External ''unsupported'')),
      NewDeducedTypeConverter = \<lparr>ObjectToTyped = (\<lambda>_. Inr ()), TypedToObject = (\<lambda>_. Inl (External ''unsupported''))\<rparr>\<rparr>"

definition demo_definition :: "string \<Rightarrow> unit crd" where
  "demo_definition nm = \<lparr>crd_Kind = ''CustomResourceDefinition'', crd_APIVersion = ''apiextensions.k8s.io/v1'', crd_Name = nm,
     crd_ResourceVersion = [], crd_Group = ''g'', crd_NamesKind = nm, crd_Plural = nm @ ''s'',
     crd_Versions = [\<lparr>cv_Name = ''v1'', cv_Served = True, cv_Schema = Some (Some demo_js)\<rparr>]\<rparr>"

definition demo_yaml :: "string \<Rightarrow> error + unit crd" where
  "demo_yaml d = (if d = ''bad'' then Inl (External ''yaml'') else Inr (demo_definition d))"

definition demo_new_client_lib :: "(demo_scheme, unit, unit, demo_fields, unit, unit) new_client_lib" where
  "demo_new_client_lib =
     \<lparr>nl_scheme = demo_scheme_lib, nl_schema = demo_schema_lib, nl_fake = demo_fake_lib, yaml_Unmarshal = demo_yaml,
      GetObjectKind = (\<lambda>_. \<lparr>gvk_Group = [], gvk_Version = [], gvk_Kind = []\<rparr>), ObjectKinds = (\<lambda>_ _. Inr []),
      SetGroupVersionKind = (\<lambda>_ u. u)\<rparr>"

theorem definition_annotations_at_every_depth_witness:
  "\<exists>s' n. convertCRDSchemaToSpec demo_schema_lib demo_js ''g'' ''v1'' ''Gear'' = Inr s' \<and>
     schema_at [AtProperty ''ports''] s' = Some n \<and> extension_at n ''x-kubernetes-patch-merge-key'' = Some (ExtString ''port'')"
proof -
  let ?p = "[AtProperty ''ports'']"
  have lib: "js_Marshal demo_schema_lib demo_js = Inr ''ports''" "schema_Unmarshal demo_schema_lib ''ports'' = Inr demo_schema"
    by (simp_all add: demo_schema_lib_def)
  have n: "schema_at ?p demo_schema = Some (Schema None None None ())"
    by (simp add: demo_schema_def)
  obtain s' where conv: "convertCRDSchemaToSpec demo_schema_lib demo_js ''g'' ''v1'' ''Gear'' = Inr s'"
    and places: "\<forall>p n. schema_at p demo_schema = Some n \<longrightarrow>
      (\<exists>n'. schema_at p s' = Some n' \<and>
        (\<forall>x. p \<noteq> [] \<or> x \<noteq> ''x-kubernetes-group-version-kind'' \<longrightarrow>
          extension_at n' x =
            (case patch_extension (jsonschema_at p demo_js) x of None \<Rightarrow> extension_at n x | Some e \<Rightarrow> Some e)))"
    using definition_annotations_at_every_depth [OF lib, of "''g''" "''v1''" "''Gear''"] by blast
  from places [rule_format, OF n] conv show ?thesis by (auto simp: demo_js_def patch_extension_def)
qed

theorem documents_are_parsed_in_order_witness:
  "parseCRDsFromBytes demo_yaml '' Gear --- Wheel --- '' = Inr [demo_definition ''Gear'', demo_definition ''Wheel'']"
proof -
  have sep: "separable d" if "d \<in> set ['' Gear '', '' Wheel '', '' '']" for d
    using that by (auto simp: separable_def Contains_def HasSuffix_def HasPrefix_def)
  have "collect (map (parse_document demo_yaml) ['' Gear '', '' Wheel '', '' '']) = Inr [demo_definition ''Gear'', demo_definition ''Wheel'']"
    by (simp add: parse_document_def TrimSpace_def is_space_def demo_yaml_def demo_definition_def)
  with documents_are_parsed_in_order [of "['' Gear '', '' Wheel '', '' '']" demo_yaml, OF _ sep] show ?thesis
    by simp
qed


end
