(* ===== verification/Fake_Queue.thy ===== *)
theory Fake_Queue
  imports Queue Handler
begin

text \<open>
  The recording fake of the queue controls (queue/fake/zz_generated.go). Its world is the struct
  together with whatever the stubs work on. A function value in a stub field is a code pointer \<open>'f\<close>,
  and \<open>stub_code\<close> says what calling it does; a nil function is \<open>None\<close>.

  The section of a method between the lock and the unlock of its mutex is one atomic step: every
  access to the fields of a method takes its mutex, and the record of invocations, which methods
  share, is only appended to per method name.
\<close>

datatype invocation_arg = ErrorArg "error option" | DurationArg int

record 'f FakeInterface =
  DoneStub :: "'f option"
  doneArgsForCall :: "unit list"
  ErrorStub :: "'f option"
  errorArgsForCall :: "unit list"
  errorReturns :: "error option"
  errorReturnsOnCall :: "(int, error option) gomap option"
  RequeueStub :: "'f option"
  requeueArgsForCall :: "unit list"
  RequeueAPIErrStub :: "'f option"
  requeueAPIErrArgsForCall :: "error option list"
  RequeueAfterStub :: "'f option"
  requeueAfterArgsForCall :: "int list"
  RequeueErrStub :: "'f option"
  requeueErrArgsForCall :: "error option list"
  invocations :: "(string, invocation_arg list list) gomap option"

type_synonym ('f, 'x) fake_world = "'f FakeInterface \<times> 'x"

record ('f, 'x) stub_code =
  call :: "'f \<Rightarrow> (unit, ('f, 'x) fake_world) proc"
  call_result :: "'f \<Rightarrow> (error option, ('f, 'x) fake_world) proc"
  call_error :: "'f \<Rightarrow> error option \<Rightarrow> (unit, ('f, 'x) fake_world) proc"
  call_duration :: "'f \<Rightarrow> int \<Rightarrow> (unit, ('f, 'x) fake_world) proc"

definition new_fake :: "'f FakeInterface" where
  "new_fake = \<lparr>DoneStub = None, doneArgsForCall = [], ErrorStub = None, errorArgsForCall = [], errorReturns = None,
     errorReturnsOnCall = None, RequeueStub = None, requeueArgsForCall = [], RequeueAPIErrStub = None,
     requeueAPIErrArgsForCall = [], RequeueAfterStub = None, requeueAfterArgsForCall = [], RequeueErrStub = None,
     requeueErrArgsForCall = [], invocations = None\<rparr>"

definition recordInvocation :: "string \<Rightarrow> invocation_arg list \<Rightarrow> 'f FakeInterface \<Rightarrow> 'f FakeInterface" where
  "recordInvocation key args fake =
     (let invs = (case invocations fake of None \<Rightarrow> [] | Some m \<Rightarrow> m);
          calls = (case map_of invs key of None \<Rightarrow> [] | Some cs \<Rightarrow> cs) in
      fake\<lparr>invocations := Some (AList.update key (calls @ [args]) invs)\<rparr>)"

text \<open>A locked section, and one that only writes.\<close>

definition locked :: "('f FakeInterface \<Rightarrow> 'a \<times> 'f FakeInterface) \<Rightarrow> ('a, ('f, 'x) fake_world) proc" where
  "locked f = act (\<lambda>(fake, x). case f fake of (a, fake') \<Rightarrow> (a, (fake', x)))"

definition write_fake :: "('f FakeInterface \<Rightarrow> 'f FakeInterface) \<Rightarrow> (unit, ('f, 'x) fake_world) proc" where
  "write_fake f = locked (\<lambda>fake. ((), f fake))"

definition read_fake :: "('f FakeInterface \<Rightarrow> 'a) \<Rightarrow> ('a, ('f, 'x) fake_world) proc" where
  "read_fake f = gets (\<lambda>(fake, x). f fake)"

text \<open>\<open>if stub != nil { fake.DoneStub() }\<close>: the guard tests the stub read under the lock, the call reads the
  field again, without the lock; calling a nil function panics.\<close>

definition call_stub ::
    "'f option \<Rightarrow> ('f FakeInterface \<Rightarrow> 'f option) \<Rightarrow> ('f \<Rightarrow> (unit, ('f, 'x) fake_world) proc) \<Rightarrow>
     (unit, ('f, 'x) fake_world) proc" where
  "call_stub stub field invoke =
     (if stub = None then Return ()
      else bind (read_fake field) (\<lambda>g.
        case g of None \<Rightarrow> Panic ''invalid memory address or nil pointer dereference'' | Some f \<Rightarrow> invoke f))"

definition Fake_Done :: "('f, 'x) stub_code \<Rightarrow> (unit, ('f, 'x) fake_world) proc" where
  "Fake_Done C =
     bind (locked (\<lambda>fake. (DoneStub fake,
       recordInvocation ''Done'' [] (fake\<lparr>doneArgsForCall := doneArgsForCall fake @ [()]\<rparr>)))) (\<lambda>stub.
     call_stub stub DoneStub (call C))"

definition DoneCallCount :: "(nat, ('f, 'x) fake_world) proc" where
  "DoneCallCount = read_fake (\<lambda>fake. length (doneArgsForCall fake))"

definition DoneCalls :: "'f option \<Rightarrow> (unit, ('f, 'x) fake_world) proc" where
  "DoneCalls stub = write_fake (\<lambda>fake. fake\<lparr>DoneStub := stub\<rparr>)"

definition Fake_Error :: "('f, 'x) stub_code \<Rightarrow> (error option, ('f, 'x) fake_world) proc" where
  "Fake_Error C =
     bind (locked (\<lambda>fake.
       ((case errorReturnsOnCall fake of None \<Rightarrow> None | Some m \<Rightarrow> map_of m (int (length (errorArgsForCall fake))),
         ErrorStub fake, errorReturns fake),
        recordInvocation ''Error'' [] (fake\<lparr>errorArgsForCall := errorArgsForCall fake @ [()]\<rparr>)))) (\<lambda>(ret, stub, fakeReturns).
     case stub of
       Some f \<Rightarrow> call_result C f
     | None \<Rightarrow> (case ret of Some result1 \<Rightarrow> Return result1 | None \<Rightarrow> Return fakeReturns))"

definition ErrorCallCount :: "(nat, ('f, 'x) fake_world) proc" where
  "ErrorCallCount = read_fake (\<lambda>fake. length (errorArgsForCall fake))"

definition ErrorCalls :: "'f option \<Rightarrow> (unit, ('f, 'x) fake_world) proc" where
  "ErrorCalls stub = write_fake (\<lambda>fake. fake\<lparr>ErrorStub := stub\<rparr>)"

definition ErrorReturns :: "error option \<Rightarrow> (unit, ('f, 'x) fake_world) proc" where
  "ErrorReturns result1 = write_fake (\<lambda>fake. fake\<lparr>ErrorStub := None, errorReturns := result1\<rparr>)"

definition ErrorReturnsOnCall :: "int \<Rightarrow> error option \<Rightarrow> (unit, ('f, 'x) fake_world) proc" where
  "ErrorReturnsOnCall i result1 =
     write_fake (\<lambda>fake.
       let m = (case errorReturnsOnCall fake of None \<Rightarrow> [] | Some m \<Rightarrow> m) in
       fake\<lparr>ErrorStub := None, errorReturnsOnCall := Some (AList.update i result1 m)\<rparr>)"

definition Fake_Requeue :: "('f, 'x) stub_code \<Rightarrow> (unit, ('f, 'x) fake_world) proc" where
  "Fake_Requeue C =
     bind (locked (\<lambda>fake. (RequeueStub fake,
       recordInvocation ''Requeue'' [] (fake\<lparr>requeueArgsForCall := requeueArgsForCall fake @ [()]\<rparr>)))) (\<lambda>stub.
     call_stub stub RequeueStub (call C))"

definition RequeueCallCount :: "(nat, ('f, 'x) fake_world) proc" where
  "RequeueCallCount = read_fake (\<lambda>fake. length (requeueArgsForCall fake))"

definition RequeueCalls :: "'f option \<Rightarrow> (unit, ('f, 'x) fake_world) proc" where
  "RequeueCalls stub = write_fake (\<lambda>fake. fake\<lparr>RequeueStub := stub\<rparr>)"

definition Fake_RequeueAPIErr :: "('f, 'x) stub_code \<Rightarrow> error option \<Rightarrow> (unit, ('f, 'x) fake_world) proc" where
  "Fake_RequeueAPIErr C arg1 =
     bind (locked (\<lambda>fake. (RequeueAPIErrStub fake,
       recordInvocation ''RequeueAPIErr'' [ErrorArg arg1]
         (fake\<lparr>requeueAPIErrArgsForCall := requeueAPIErrArgsForCall fake @ [arg1]\<rparr>)))) (\<lambda>stub.
     call_stub stub RequeueAPIErrStub (\<lambda>f. call_error C f arg1))"

definition RequeueAPIErrCallCount :: "(nat, ('f, 'x) fake_world) proc" where
  "RequeueAPIErrCallCount = read_fake (\<lambda>fake. length (requeueAPIErrArgsForCall fake))"

definition RequeueAPIErrCalls :: "'f option \<Rightarrow> (unit, ('f, 'x) fake_world) proc" where
  "RequeueAPIErrCalls stub = write_fake (\<lambda>fake. fake\<lparr>RequeueAPIErrStub := stub\<rparr>)"

text \<open>\<open>xs[i]\<close>: an index out of range panics.\<close>

definition nth_or_panic :: "'a list \<Rightarrow> int \<Rightarrow> ('a, 'w) proc" where
  "nth_or_panic xs i =
     (if 0 \<le> i \<and> nat i < length xs then Return (xs ! nat i) else Panic ''index out of range'')"

definition RequeueAPIErrArgsForCall :: "int \<Rightarrow> (error option, ('f, 'x) fake_world) proc" where
  "RequeueAPIErrArgsForCall i = bind (read_fake requeueAPIErrArgsForCall) (\<lambda>args. nth_or_panic args i)"

definition Fake_RequeueAfter :: "('f, 'x) stub_code \<Rightarrow> int \<Rightarrow> (unit, ('f, 'x) fake_world) proc" where
  "Fake_RequeueAfter C arg1 =
     bind (locked (\<lambda>fake. (RequeueAfterStub fake,
       recordInvocation ''RequeueAfter'' [DurationArg arg1]
         (fake\<lparr>requeueAfterArgsForCall := requeueAfterArgsForCall fake @ [arg1]\<rparr>)))) (\<lambda>stub.
     call_stub stub RequeueAfterStub (\<lambda>f. call_duration C f arg1))"

definition RequeueAfterCallCount :: "(nat, ('f, 'x) fake_world) proc" where
  "RequeueAfterCallCount = read_fake (\<lambda>fake. length (requeueAfterArgsForCall fake))"

definition RequeueAfterCalls :: "'f option \<Rightarrow> (unit, ('f, 'x) fake_world) proc" where
  "RequeueAfterCalls stub = write_fake (\<lambda>fake. fake\<lparr>RequeueAfterStub := stub\<rparr>)"

definition RequeueAfterArgsForCall :: "int \<Rightarrow> (int, ('f, 'x) fake_world) proc" where
  "RequeueAfterArgsForCall i = bind (read_fake requeueAfterArgsForCall) (\<lambda>args. nth_or_panic args i)"

definition Fake_RequeueErr :: "('f, 'x) stub_code \<Rightarrow> error option \<Rightarrow> (unit, ('f, 'x) fake_world) proc" where
  "Fake_RequeueErr C arg1 =
     bind (locked (\<lambda>fake. (RequeueErrStub fake,
       recordInvocation ''RequeueErr'' [ErrorArg arg1]
         (fake\<lparr>requeueErrArgsForCall := requeueErrArgsForCall fake @ [arg1]\<rparr>)))) (\<lambda>stub.
     call_stub stub RequeueErrStub (\<lambda>f. call_error C f arg1))"

definition RequeueErrCallCount :: "(nat, ('f, 'x) fake_world) proc" where
  "RequeueErrCallCount = read_fake (\<lambda>fake. length (requeueErrArgsForCall fake))"

definition RequeueErrCalls :: "'f option \<Rightarrow> (unit, ('f, 'x) fake_world) proc" where
  "RequeueErrCalls stub = write_fake (\<lambda>fake. fake\<lparr>RequeueErrStub := stub\<rparr>)"

definition RequeueErrArgsForCall :: "int \<Rightarrow> (error option, ('f, 'x) fake_world) proc" where
  "RequeueErrArgsForCall i = bind (read_fake requeueErrArgsForCall) (\<lambda>args. nth_or_panic args i)"

definition Invocations :: "((string, invocation_arg list list) gomap, ('f, 'x) fake_world) proc" where
  "Invocations = read_fake (\<lambda>fake.
     fold (\<lambda>(key, value) m. AList.update key value m) (case invocations fake of None \<Rightarrow> [] | Some m \<Rightarrow> m) [])"

text \<open>\<open>var _ queue.Interface = new(FakeInterface)\<close>.\<close>

definition Fake_iface :: "('f, 'x) stub_code \<Rightarrow> ('f, 'x) fake_world queue_iface" where
  "Fake_iface C =
     \<lparr>qDone = Fake_Done C, qRequeueAfter = Fake_RequeueAfter C, qRequeue = Fake_Requeue C,
      qRequeueErr = Fake_RequeueErr C, qRequeueAPIErr = Fake_RequeueAPIErr C, qError = Fake_Error C\<rparr>"

section \<open>What the fake records\<close>

datatype queue_call =
    CallDone
  | CallRequeue
  | CallRequeueAfter int
  | CallRequeueErr "error option"
  | CallRequeueAPIErr "error option"
  | CallError

fun perform :: "'w queue_iface \<Rightarrow> queue_call \<Rightarrow> (unit, 'w) proc" where
  "perform q CallDone = qDone q"
| "perform q CallRequeue = qRequeue q"
| "perform q (CallRequeueAfter d) = qRequeueAfter q d"
| "perform q (CallRequeueErr e) = qRequeueErr q e"
| "perform q (CallRequeueAPIErr e) = qRequeueAPIErr q e"
| "perform q CallError = bind (qError q) (\<lambda>_. Return ())"

primrec perform_all :: "'w queue_iface \<Rightarrow> queue_call list \<Rightarrow> (unit, 'w) proc" where
  "perform_all q [] = Return ()"
| "perform_all q (c # cs) = andthen (perform q c) (perform_all q cs)"

fun call_name :: "queue_call \<Rightarrow> string" where
  "call_name CallDone = ''Done''"
| "call_name CallRequeue = ''Requeue''"
| "call_name (CallRequeueAfter d) = ''RequeueAfter''"
| "call_name (CallRequeueErr e) = ''RequeueErr''"
| "call_name (CallRequeueAPIErr e) = ''RequeueAPIErr''"
| "call_name CallError = ''Error''"

fun call_args :: "queue_call \<Rightarrow> invocation_arg list" where
  "call_args (CallRequeueAfter d) = [DurationArg d]"
| "call_args (CallRequeueErr e) = [ErrorArg e]"
| "call_args (CallRequeueAPIErr e) = [ErrorArg e]"
| "call_args _ = []"

text \<open>The calls a fake has recorded, and what its fields are then; stubs and configured results may be
  any.\<close>

definition records :: "'f FakeInterface \<Rightarrow> queue_call list \<Rightarrow> bool" where
  "records fake cs \<longleftrightarrow>
     length (doneArgsForCall fake) = length (filter ((=) CallDone) cs) \<and>
     length (errorArgsForCall fake) = length (filter ((=) CallError) cs) \<and>
     length (requeueArgsForCall fake) = length (filter ((=) CallRequeue) cs) \<and>
     requeueAfterArgsForCall fake = concat (map (\<lambda>c. case c of CallRequeueAfter d \<Rightarrow> [d] | _ \<Rightarrow> []) cs) \<and>
     requeueErrArgsForCall fake = concat (map (\<lambda>c. case c of CallRequeueErr e \<Rightarrow> [e] | _ \<Rightarrow> []) cs) \<and>
     requeueAPIErrArgsForCall fake = concat (map (\<lambda>c. case c of CallRequeueAPIErr e \<Rightarrow> [e] | _ \<Rightarrow> []) cs) \<and>
     (\<forall>key. (case invocations fake of None \<Rightarrow> None | Some m \<Rightarrow> map_of m key) =
        (case filter (\<lambda>c. call_name c = key) cs of [] \<Rightarrow> None | cs' \<Rightarrow> Some (map call_args cs')))"

text \<open>The change of the record that a call makes.\<close>

fun note_call :: "queue_call \<Rightarrow> 'f FakeInterface \<Rightarrow> 'f FakeInterface" where
  "note_call CallDone fake = fake\<lparr>doneArgsForCall := doneArgsForCall fake @ [()]\<rparr>"
| "note_call CallRequeue fake = fake\<lparr>requeueArgsForCall := requeueArgsForCall fake @ [()]\<rparr>"
| "note_call (CallRequeueAfter d) fake = fake\<lparr>requeueAfterArgsForCall := requeueAfterArgsForCall fake @ [d]\<rparr>"
| "note_call (CallRequeueErr e) fake = fake\<lparr>requeueErrArgsForCall := requeueErrArgsForCall fake @ [e]\<rparr>"
| "note_call (CallRequeueAPIErr e) fake = fake\<lparr>requeueAPIErrArgsForCall := requeueAPIErrArgsForCall fake @ [e]\<rparr>"
| "note_call CallError fake = fake\<lparr>errorArgsForCall := errorArgsForCall fake @ [()]\<rparr>"

definition noted :: "queue_call \<Rightarrow> 'f FakeInterface \<Rightarrow> 'f FakeInterface" where
  "noted c fake = recordInvocation (call_name c) (call_args c) (note_call c fake)"

definition no_stubs :: "'f FakeInterface \<Rightarrow> bool" where
  "no_stubs fake \<longleftrightarrow> DoneStub fake = None \<and> ErrorStub fake = None \<and> RequeueStub fake = None \<and>
     RequeueAPIErrStub fake = None \<and> RequeueAfterStub fake = None \<and> RequeueErrStub fake = None"

lemmas fake_method_defs = Fake_iface_def Fake_Done_def Fake_Requeue_def Fake_RequeueAfter_def Fake_RequeueErr_def
  Fake_RequeueAPIErr_def Fake_Error_def locked_def write_fake_def read_fake_def call_stub_def

lemma run_perform:
  assumes "no_stubs fake"
  shows "run (perform (Fake_iface C) c) (fake, x) = (Normal (), (noted c fake, x))"
  using assms
  by (cases c) (simp_all add: fake_method_defs no_stubs_def noted_def split: option.split)

lemma invocations_note_call [simp]: "invocations (note_call c fake) = invocations fake"
  by (cases c) simp_all

lemma recordInvocation_lookup:
  "(case invocations (recordInvocation key args fake) of None \<Rightarrow> None | Some m \<Rightarrow> map_of m k) =
     (let old = (case invocations fake of None \<Rightarrow> None | Some m \<Rightarrow> map_of m k) in
      if k = key then Some ((case old of None \<Rightarrow> [] | Some cs \<Rightarrow> cs) @ [args]) else old)"
  by (auto simp: recordInvocation_def Let_def update_conv' split: option.split)

lemma recordInvocation_sel [simp]:
  "doneArgsForCall (recordInvocation key args fake) = doneArgsForCall fake"
  "errorArgsForCall (recordInvocation key args fake) = errorArgsForCall fake"
  "requeueArgsForCall (recordInvocation key args fake) = requeueArgsForCall fake"
  "requeueAfterArgsForCall (recordInvocation key args fake) = requeueAfterArgsForCall fake"
  "requeueErrArgsForCall (recordInvocation key args fake) = requeueErrArgsForCall fake"
  "requeueAPIErrArgsForCall (recordInvocation key args fake) = requeueAPIErrArgsForCall fake"
  "no_stubs (recordInvocation key args fake) = no_stubs fake"
  by (simp_all add: recordInvocation_def Let_def no_stubs_def)

lemma no_stubs_noted: "no_stubs fake \<Longrightarrow> no_stubs (noted c fake)"
  by (cases c) (simp_all add: noted_def no_stubs_def recordInvocation_def Let_def)

lemma records_noted:
  assumes "records fake cs"
  shows "records (noted c fake) (cs @ [c])"
proof -
  have "(case invocations (noted c fake) of None \<Rightarrow> None | Some m \<Rightarrow> map_of m key) =
      (case filter (\<lambda>c. call_name c = key) (cs @ [c]) of [] \<Rightarrow> None | cs' \<Rightarrow> Some (map call_args cs'))" for key
    using assms unfolding noted_def recordInvocation_lookup records_def
    by (auto simp: Let_def split: list.split)
  with assms show ?thesis
    unfolding records_def by (cases c) (simp_all add: noted_def)
qed

lemma run_perform_all:
  assumes "no_stubs fake" and "records fake cs"
  shows "\<exists>fake'. run (perform_all (Fake_iface C) cs') (fake, x) = (Normal (), (fake', x)) \<and>
    no_stubs fake' \<and> records fake' (cs @ cs')"
  using assms
proof (induction cs' arbitrary: fake cs)
  case (Cons c cs')
  from Cons.IH [OF no_stubs_noted [OF Cons.prems(1)] records_noted [OF Cons.prems(2)]]
  show ?case by (simp add: run_perform [OF Cons.prems(1)])
qed simp

lemma records_new_fake: "records new_fake []" "no_stubs new_fake"
  by (simp_all add: records_def new_fake_def no_stubs_def)

section \<open>Properties\<close>

text \<open>Whatever is called on a new fake without stubs, in whatever order, returns, and is recorded: the counts,
  the arguments by method, and the invocations by name are those of the calls, in their order.\<close>

theorem fake_records_all_calls:
  "\<exists>fake. run (perform_all (Fake_iface C) cs) (new_fake, x) = (Normal (), (fake, x)) \<and> records fake cs"
  using run_perform_all [OF records_new_fake(2,1), of C cs x] by auto

text \<open>Replacing a stub while the method runs. A test that resets the stub of \<open>Done\<close> to nil while another
  goroutine calls \<open>Done\<close> can make that call panic, although both take the lock: the stub that was
  tested is not the one that is called.\<close>

theorem reset_stub_races_with_done:
  assumes "DoneStub fake = Some f"
  shows "fst (run (interleave [0, 1, 0] [Fake_Done C, DoneCalls None]) (fake, x)) =
    Panicked ''invalid memory address or nil pointer dereference''"
  using assms
  by (simp add: Fake_Done_def DoneCalls_def locked_def write_fake_def read_fake_def call_stub_def act_def gets_def)

section \<open>Witnesses\<close>

definition demo_stubs :: "(unit, unit) stub_code" where
  "demo_stubs = \<lparr>call = (\<lambda>_. Return ()), call_result = (\<lambda>_. Return None), call_error = (\<lambda>_ _. Return ()),
     call_duration = (\<lambda>_ _. Return ())\<rparr>"

theorem reset_stub_races_with_done_witness:
  "fst (run (interleave [0, 1, 0] [Fake_Done demo_stubs, DoneCalls None]) (new_fake\<lparr>DoneStub := Some ()\<rparr>, ())) =
    Panicked ''invalid memory address or nil pointer dereference''"
  using reset_stub_races_with_done [of "new_fake\<lparr>DoneStub := Some ()\<rparr>" "()" demo_stubs "()"] by simp

end
