(* ===== verification/Client_Config.thy ===== *)
theory Client_Config
  imports Prelude
begin

text \<open>
  The package \<open>client\<close> (client/rest.go): the switch for the client's own rate limiting. The record holds the
  two fields of \<open>rest.Config\<close> that the function sets; all others stay as they are and are left to an
  extension of the record. The 32-bit float \<open>QPS\<close> is an integer here, the only value written is -1.
\<close>

record rest_config =
  rc_QPS :: int
  rc_Burst :: int

definition DisableClientSideRateLimiting :: "'a rest_config_scheme \<Rightarrow> 'a rest_config_scheme" where
  "DisableClientSideRateLimiting restConfig = restConfig\<lparr>rc_Burst := 2000, rc_QPS := - 1\<rparr>"

text \<open>A client made from the configuration has no rate limiter of its own (client-go makes one for a
  positive rate only, after replacing a rate of zero by its default), and the switch can be used again.\<close>

lemma rate_limiting_disabled:
  "rc_QPS (DisableClientSideRateLimiting c) < 0" "rest_config.more (DisableClientSideRateLimiting c) = rest_config.more c"
  "DisableClientSideRateLimiting (DisableClientSideRateLimiting c) = DisableClientSideRateLimiting c"
  by (simp_all add: DisableClientSideRateLimiting_def)

end
