(* ===== verification/Mage_Exec.thy ===== *)
theory Mage_Exec
  imports Go_Library
begin

text \<open>
  The helpers of the build scripts that run commands (magefiles/util.go): options, \<open>ExecSh\<close>, \<open>RunSh\<close> and the
  functions over them.

  The function that \<open>ExecSh\<close> returns keeps the variables it captures: the command, which it overwrites, and
  the slice of arguments, whose array it may overwrite through the slice it appends to. They are a
  record beside the world. The run of a process, the environment, the reports of the mage library on a
  finished process and the growth of slices are parameters.
\<close>

section \<open>Expansion of variables\<close>

definition isShellSpecialVar :: "char \<Rightarrow> bool" where
  "isShellSpecialVar c \<longleftrightarrow> c \<in> set ''*#$@!?-0123456789''"

definition isAlphaNum :: "char \<Rightarrow> bool" where
  "isAlphaNum c \<longleftrightarrow> c \<in> set ''_0123456789abcdefghijklmnopqrstuvwxyzABCDEFGHIJKLMNOPQRSTUVWXYZ''"

text \<open>The name at the start of the text after a dollar sign, and the number of bytes to consume: a byte
  in braces, a name in braces, one special byte, or a sequence of letters, digits and underscores.\<close>

definition getShellName :: "string \<Rightarrow> string \<times> nat" where
  "getShellName s =
     (case s of
        [] \<Rightarrow> ([], 0)
      | c # r \<Rightarrow>
          if c = CHR ''{'' then
            (if 2 \<le> length r \<and> isShellSpecialVar (r ! 0) \<and> r ! 1 = CHR ''}'' then (take 1 r, 3)
             else if CHR ''}'' \<in> set r then
               (let n = takeWhile (\<lambda>x. x \<noteq> CHR ''}'') r in if n = [] then ([], 2) else (n, length n + 2))
             else ([], 1))
          else if isShellSpecialVar c then ([c], 1)
          else (let n = takeWhile isAlphaNum s in (n, length n)))"

function os_Expand :: "string \<Rightarrow> (string \<Rightarrow> string) \<Rightarrow> string" where
  "os_Expand [] f = []"
| "os_Expand (c # s) f =
     (if c = CHR ''$'' \<and> s \<noteq> [] then
        (case getShellName s of (n, w) \<Rightarrow>
          (if n = [] \<and> 0 < w then [] else if n = [] then [c] else f n) @ os_Expand (drop w s) f)
      else c # os_Expand s f)"
  by pat_completeness auto
termination
  by (relation "measure (\<lambda>(s, f). length s)") auto

lemma os_Expand_plain: "CHR ''$'' \<notin> set s \<Longrightarrow> os_Expand s f = s"
  by (induction s) auto

declare os_Expand.simps(2) [simp del]

section \<open>Options\<close>

text \<open>A stream: nil, one of the standard streams, or a writer of the caller.\<close>

datatype stream = NilStream | StdStream nat | Writer string

text \<open>The slice of arguments: its elements, or nil, and its capacity.\<close>

record runOptions =
  ro_cmd :: string
  ro_args :: "string list option"
  ro_cap :: nat
  ro_dir :: string
  ro_env :: "(string, string) gomap option"
  ro_stderr :: stream
  ro_stdout :: stream

type_synonym RunOpt = "runOptions \<Rightarrow> runOptions"

definition os_Stdout :: stream where "os_Stdout = StdStream 1"

definition os_Stderr :: stream where "os_Stderr = StdStream 2"

definition WithV :: RunOpt where
  "WithV options = options\<lparr>ro_stdout := os_Stdout, ro_stderr := os_Stderr\<rparr>"

definition WithEnv :: "(string, string) gomap \<Rightarrow> RunOpt" where
  "WithEnv env options =
     (let m = (case ro_env options of None \<Rightarrow> [] | Some m \<Rightarrow> m) in
      options\<lparr>ro_env := Some (fold (\<lambda>(k, v) m. AList.update k v m) env m)\<rparr>)"

definition WithStderr :: "stream \<Rightarrow> RunOpt" where
  "WithStderr w options = options\<lparr>ro_stderr := w\<rparr>"

definition WithStdout :: "stream \<Rightarrow> RunOpt" where
  "WithStdout w options = options\<lparr>ro_stdout := w\<rparr>"

definition WithDir :: "string \<Rightarrow> RunOpt" where
  "WithDir dir options = options\<lparr>ro_dir := dir\<rparr>"

text \<open>\<open>append\<close> to a slice with \<open>xs\<close> elements and capacity \<open>cap\<close>: the elements and the capacity of the result,
  which has a new array when the old one is too small.\<close>

definition slice_append :: "(nat \<Rightarrow> nat \<Rightarrow> nat) \<Rightarrow> string list \<Rightarrow> nat \<Rightarrow> string list \<Rightarrow> string list \<times> nat" where
  "slice_append grow xs cap ys =
     (xs @ ys, if length xs + length ys \<le> cap then cap else grow cap (length xs + length ys))"

definition WithArgs :: "(nat \<Rightarrow> nat \<Rightarrow> nat) \<Rightarrow> string list \<Rightarrow> RunOpt" where
  "WithArgs grow args options =
     (let (xs, cap) = (case ro_args options of None \<Rightarrow> ([], length args) | Some xs \<Rightarrow> (xs, ro_cap options));
          (xs', cap') = slice_append grow xs cap args in
      options\<lparr>ro_args := Some xs', ro_cap := cap'\<rparr>)"

definition Tool :: RunOpt where
  "Tool options = WithV (WithDir ''magefiles'' options)"

section \<open>Running commands\<close>

record exec_cmd =
  ec_path :: string
  ec_args :: "string list"
  ec_env :: "string list"
  ec_dir :: string
  ec_stderr :: stream
  ec_stdout :: stream

record 'w mage_lib =
  mg_Verbose :: bool
  os_Getenv :: "string \<Rightarrow> string"
  os_Environ :: "string list"
  cmd_Run :: "exec_cmd \<Rightarrow> (error option, 'w) proc"
  sh_CmdRan :: "error option \<Rightarrow> bool"
  sh_ExitStatus :: "error option \<Rightarrow> int"
  mg_Fatalf :: "int \<Rightarrow> string \<Rightarrow> error"
  LookPath :: "string \<Rightarrow> (bool, 'w) proc"
  sh_Run :: "string list \<Rightarrow> (error option, 'w) proc"
  slice_grow :: "nat \<Rightarrow> nat \<Rightarrow> nat"

definition mage_run ::
    "'w mage_lib \<Rightarrow> string \<Rightarrow> (string, string) gomap \<Rightarrow> stream \<Rightarrow> stream \<Rightarrow> string \<Rightarrow> string list \<Rightarrow>
     (bool \<times> int \<times> error option, 'w) proc" where
  "mage_run L dir env stdout stderr cmd args =
     bind (cmd_Run L \<lparr>ec_path = cmd, ec_args = args, ec_env = os_Environ L @ map (\<lambda>(k, v). k @ ''='' @ v) env,
                      ec_dir = dir, ec_stderr = stderr, ec_stdout = stdout\<rparr>) (\<lambda>err.
       Return (sh_CmdRan L err, sh_ExitStatus L err, err))"

text \<open>The variables that the returned function captures and writes.\<close>

record captured =
  cap_cmd :: string
  cap_args :: "string list"

definition env_of :: "runOptions \<Rightarrow> (string, string) gomap" where
  "env_of opts = (case ro_env opts of None \<Rightarrow> [] | Some m \<Rightarrow> m)"

definition args_of :: "runOptions \<Rightarrow> string list" where
  "args_of opts = (case ro_args opts of None \<Rightarrow> [] | Some xs \<Rightarrow> xs)"

definition expand :: "'w mage_lib \<Rightarrow> runOptions \<Rightarrow> string \<Rightarrow> string" where
  "expand L opts s = (case map_of (env_of opts) s of Some s2 \<Rightarrow> s2 | None \<Rightarrow> os_Getenv L s)"

text \<open>\<open>%d\<close>.\<close>

fun nat_digits :: "nat \<Rightarrow> string" where
  "nat_digits n = (if n < 10 then [hex_digit n] else nat_digits (n div 10) @ [hex_digit (n mod 10)])"

definition int_text :: "int \<Rightarrow> string" where
  "int_text i = (if i < 0 then ''-'' @ nat_digits (nat (- i)) else nat_digits (nat i))"

text \<open>The options that \<open>ExecSh\<close> works with.\<close>

definition exec_options :: "'w mage_lib \<Rightarrow> string \<Rightarrow> RunOpt list \<Rightarrow> runOptions" where
  "exec_options L cmd options =
     (let opts = fold (\<lambda>opt o'. opt o') options
        \<lparr>ro_cmd = cmd, ro_args = None, ro_cap = 0, ro_dir = [], ro_env = None, ro_stderr = NilStream, ro_stdout = NilStream\<rparr> in
      if ro_stdout opts = NilStream \<and> mg_Verbose L then opts\<lparr>ro_stdout := os_Stdout\<rparr> else opts)"

text \<open>The function that \<open>ExecSh\<close> returns. The appended slice shares the array of the captured one when it
  fits, and then the expansion of its elements overwrites the captured arguments.\<close>

definition exec_function ::
    "'w mage_lib \<Rightarrow> runOptions \<Rightarrow> string list \<Rightarrow> (bool \<times> error option, captured \<times> 'w) proc" where
  "exec_function L opts args =
     bind (act (\<lambda>(v, w).
       let cmd = os_Expand (cap_cmd v) (expand L opts);
           finalArgs = map (\<lambda>a. os_Expand a (expand L opts)) (cap_args v @ args);
           shared = (length (cap_args v) + length args \<le> ro_cap opts) in
       ((cmd, finalArgs),
        (\<lparr>cap_cmd = cmd, cap_args = (if shared then take (length (cap_args v)) finalArgs else cap_args v)\<rparr>, w)))) (\<lambda>(cmd, finalArgs).
     bind (embed snd (\<lambda>w vw. (fst vw, w))
             (mage_run L (ro_dir opts) (env_of opts) (ro_stdout opts) (ro_stderr opts) cmd finalArgs)) (\<lambda>(ran, code, err).
     Return
       (case err of
          None \<Rightarrow> (ran, None)
        | Some e \<Rightarrow>
            if ran then (ran, Some (mg_Fatalf L code
              (''running '' @ [CHR 0x22] @ cmd @ '' '' @ Join args '' '' @ [CHR 0x22] @ '' failed with exit code '' @ int_text code)))
            else (ran, Some (Errorf
              (''failed to run '' @ [CHR 0x22] @ cmd @ '' '' @ Join args '' '' @ '': '' @ error_text e @ [CHR 0x22]))))))"

definition ExecSh ::
    "'w mage_lib \<Rightarrow> string \<Rightarrow> RunOpt list \<Rightarrow>
     captured \<times> (string list \<Rightarrow> (bool \<times> error option, captured \<times> 'w) proc)" where
  "ExecSh L cmd options =
     (let opts = exec_options L cmd options in
      (\<lparr>cap_cmd = cmd, cap_args = args_of opts\<rparr>, exec_function L opts))"

text \<open>Code with a local variable that is dropped at the end.\<close>

primrec with_local :: "('a, 's \<times> 'w) proc \<Rightarrow> 's \<Rightarrow> ('a, 'w) proc" where
  "with_local (Return a) = (\<lambda>s. Return a)"
| "with_local (Panic m) = (\<lambda>s. Panic m)"
| "with_local (Step u k) = (\<lambda>s. Step (\<lambda>w. snd (u (s, w))) (\<lambda>w. with_local (k (s, w)) (fst (u (s, w)))))"

lemma run_with_local [simp]: "run (with_local p s) w = (case run p (s, w) of (r, (s', w')) \<Rightarrow> (r, w'))"
  by (induction p arbitrary: s w) simp_all

definition RunSh :: "'w mage_lib \<Rightarrow> string \<Rightarrow> RunOpt list \<Rightarrow> captured \<times> (string list \<Rightarrow> (error option, captured \<times> 'w) proc)" where
  "RunSh L cmd options =
     (case ExecSh L cmd options of (v, f) \<Rightarrow> (v, \<lambda>args. bind (f args) (\<lambda>(ran, err). Return err)))"

text \<open>\<open>RunSh(cmd, options...)(args...)\<close>: the function is made, called once and dropped.\<close>

definition RunSh_once :: "'w mage_lib \<Rightarrow> string \<Rightarrow> RunOpt list \<Rightarrow> string list \<Rightarrow> (error option, 'w) proc" where
  "RunSh_once L cmd options args = (case RunSh L cmd options of (v, f) \<Rightarrow> with_local (f args) v)"

definition hasBinary :: "'w mage_lib \<Rightarrow> string \<Rightarrow> (bool, 'w) proc" where
  "hasBinary L binaryName = LookPath L binaryName"

definition goCmdForTests :: "'w mage_lib \<Rightarrow> (string, 'w) proc" where
  "goCmdForTests L = bind (hasBinary L ''richgo'') (\<lambda>b. Return (if b then ''richgo'' else ''go''))"

definition goDirTest :: "'w mage_lib \<Rightarrow> string \<Rightarrow> string \<Rightarrow> string list \<Rightarrow> (error option, 'w) proc" where
  "goDirTest L dir path args =
     (let testArgs = [''test'', ''-failfast'', ''-count=1''] @ args in
      bind (goCmdForTests L) (\<lambda>cmd.
        RunSh_once L cmd [WithV, WithDir dir, WithArgs (slice_grow L) testArgs] [path]))"

definition goTest :: "'w mage_lib \<Rightarrow> string \<Rightarrow> string list \<Rightarrow> (error option, 'w) proc" where
  "goTest L path args = goDirTest L ''.'' path args"

definition checkDocker :: "'w mage_lib \<Rightarrow> (error option, 'w) proc" where
  "checkDocker L =
     bind (hasBinary L ''docker'') (\<lambda>b.
       if \<not> b then Return (Some (Errorf ''docker must be installed to run e2e tests''))
       else bind (sh_Run L [''docker'', ''ps'']) (\<lambda>err.
         if err = None \<or> sh_ExitStatus L err = 0 then Return None else Return err))"

definition goModules :: "string list" where
  "goModules = [''.'', ''magefiles'']"

definition Deps_Tidy :: "'w mage_lib \<Rightarrow> (error option, 'w) proc" where
  "Deps_Tidy L = for_err (\<lambda>m. RunSh_once L ''go'' [WithDir m] [''mod'', ''tidy'']) goModules"

section \<open>The command that runs\<close>

text \<open>The process a call starts, and the result it makes of how the process ended.\<close>

definition exec_request :: "'w mage_lib \<Rightarrow> runOptions \<Rightarrow> captured \<Rightarrow> string list \<Rightarrow> exec_cmd" where
  "exec_request L opts v args =
     \<lparr>ec_path = os_Expand (cap_cmd v) (expand L opts),
      ec_args = map (\<lambda>a. os_Expand a (expand L opts)) (cap_args v @ args),
      ec_env = os_Environ L @ map (\<lambda>(k, x). k @ ''='' @ x) (env_of opts), ec_dir = ro_dir opts,
      ec_stderr = ro_stderr opts, ec_stdout = ro_stdout opts\<rparr>"

definition exec_result :: "'w mage_lib \<Rightarrow> string \<Rightarrow> string list \<Rightarrow> error option \<Rightarrow> bool \<times> error option" where
  "exec_result L cmd args err =
     (sh_CmdRan L err,
      map_option (\<lambda>e.
        if sh_CmdRan L err then mg_Fatalf L (sh_ExitStatus L err)
          (''running '' @ [CHR 0x22] @ cmd @ '' '' @ Join args '' '' @ [CHR 0x22] @ '' failed with exit code '' @
           int_text (sh_ExitStatus L err))
        else Errorf (''failed to run '' @ [CHR 0x22] @ cmd @ '' '' @ Join args '' '' @ '': '' @ error_text e @ [CHR 0x22])) err)"

text \<open>The captured variables after a call.\<close>

definition after_call :: "'w mage_lib \<Rightarrow> runOptions \<Rightarrow> captured \<Rightarrow> string list \<Rightarrow> captured" where
  "after_call L opts v args =
     \<lparr>cap_cmd = os_Expand (cap_cmd v) (expand L opts),
      cap_args = (if length (cap_args v) + length args \<le> ro_cap opts
                  then map (\<lambda>a. os_Expand a (expand L opts)) (cap_args v) else cap_args v)\<rparr>"

lemma run_exec_function:
  "run (exec_function L opts args) (v, w) =
     (case run (cmd_Run L (exec_request L opts v args)) w of
        (Normal err, w') \<Rightarrow>
          (Normal (exec_result L (os_Expand (cap_cmd v) (expand L opts)) args err), (after_call L opts v args, w'))
      | (Panicked m, w') \<Rightarrow> (Panicked m, (after_call L opts v args, w')))"
  by (simp add: exec_function_def run_embed mage_run_def exec_request_def exec_result_def after_call_def Let_def
      split: prod.split outcome.split option.split)

lemma exec_request_stable:
  assumes "CHR ''$'' \<notin> set (os_Expand (cap_cmd v) (expand L opts))"
    and "\<And>a. a \<in> set (cap_args v) \<Longrightarrow> CHR ''$'' \<notin> set (os_Expand a (expand L opts))"
  shows "exec_request L opts (after_call L opts v args) args' = exec_request L opts v args'"
    and "os_Expand (cap_cmd (after_call L opts v args)) (expand L opts) = os_Expand (cap_cmd v) (expand L opts)"
  using assms by (simp_all add: exec_request_def after_call_def os_Expand_plain)

section \<open>Properties\<close>

text \<open>A function made by \<open>ExecSh\<close> can be called again as long as the expanded command and the expanded
  arguments of its options have no dollar sign: whatever the first call was given and however its process
  ended, a second call starts the same process and gives the same result as it would have without the
  first.\<close>

theorem exec_function_is_repeatable:
  assumes "CHR ''$'' \<notin> set (os_Expand (cap_cmd v) (expand L opts))"
    and "\<And>a. a \<in> set (cap_args v) \<Longrightarrow> CHR ''$'' \<notin> set (os_Expand a (expand L opts))"
    and "run (exec_function L opts args) (v, w) = (r, (v', w'))"
  shows "map_prod id snd (run (exec_function L opts args') (v', w')) = map_prod id snd (run (exec_function L opts args') (v, w'))"
proof -
  have "v' = after_call L opts v args"
    using assms(3) by (simp add: run_exec_function split: prod.splits outcome.splits)
  with exec_request_stable [OF assms(1,2)] show ?thesis
    by (simp add: run_exec_function split: prod.split outcome.split)
qed

text \<open>Otherwise it expands again what it has expanded before. A command whose variable stands for a text
  with a dollar sign starts that text as a command in the first call, and its expansion in the second;
  the same holds for the arguments of the options when the call adds none.\<close>

theorem exec_function_expands_again:
  assumes "run (exec_function L opts []) (v, w) = (r, (v', w'))" and "length (cap_args v) \<le> ro_cap opts"
  shows "exec_request L opts v' [] = exec_request L opts
    \<lparr>cap_cmd = os_Expand (cap_cmd v) (expand L opts), cap_args = map (\<lambda>a. os_Expand a (expand L opts)) (cap_args v)\<rparr> []"
proof -
  have "v' = after_call L opts v []"
    using assms(1) by (simp add: run_exec_function split: prod.splits outcome.splits)
  with assms(2) show ?thesis by (simp add: after_call_def)
qed

section \<open>Witnesses\<close>

text \<open>A library that records the commands it is asked to run.\<close>

definition demo_mage :: "exec_cmd list mage_lib" where
  "demo_mage = \<lparr>mg_Verbose = False,
     os_Getenv = (\<lambda>s. if s = ''TOOL'' then ''$LINTER'' else if s = ''LINTER'' then ''lint'' else []), os_Environ = [],
     cmd_Run = (\<lambda>c. act (\<lambda>l. (None, l @ [c]))), sh_CmdRan = (\<lambda>e. e = None), sh_ExitStatus = (\<lambda>_. 0),
     mg_Fatalf = (\<lambda>_. Errorf), LookPath = (\<lambda>_. Return True), sh_Run = (\<lambda>_. Return None), slice_grow = (\<lambda>_ n. n)\<rparr>"

definition demo_options :: runOptions where
  "demo_options = exec_options demo_mage ''$TOOL'' [WithArgs (slice_grow demo_mage) [''$LINTER'']]"

lemma demo_options_eq:
  "demo_options = \<lparr>ro_cmd = ''$TOOL'', ro_args = Some [''$LINTER''], ro_cap = 1, ro_dir = [], ro_env = None,
     ro_stderr = NilStream, ro_stdout = NilStream\<rparr>"
  by (simp add: demo_options_def exec_options_def WithArgs_def slice_append_def demo_mage_def)

lemmas demo_expand = os_Expand.simps demo_options_eq expand_def env_of_def demo_mage_def getShellName_def isShellSpecialVar_def isAlphaNum_def

theorem exec_function_is_repeatable_witness:
  "map ec_path (snd (snd (run (andthen (exec_function demo_mage demo_options []) (exec_function demo_mage demo_options [''x'']))
     (\<lparr>cap_cmd = ''$LINTER'', cap_args = []\<rparr>, [])))) = [''lint'', ''lint'']"
proof -
  let ?v = "\<lparr>cap_cmd = ''$LINTER'', cap_args = []\<rparr>"
  have e: "os_Expand ''$LINTER'' (expand demo_mage demo_options) = ''lint''" by (simp add: demo_expand)
  obtain r v' w' where first: "run (exec_function demo_mage demo_options []) (?v, []) = (r, (v', w'))" and r: "\<exists>x. r = Normal x"
    and w': "map ec_path w' = [''lint'']"
    by (simp add: run_exec_function demo_mage_def [THEN arg_cong [of _ _ cmd_Run]] exec_request_def e)
  have "map_prod id snd (run (exec_function demo_mage demo_options [''x'']) (v', w')) =
      map_prod id snd (run (exec_function demo_mage demo_options [''x'']) (?v, w'))"
    by (rule exec_function_is_repeatable [OF _ _ first]) (simp_all add: e)
  then have "snd (snd (run (exec_function demo_mage demo_options [''x'']) (v', w'))) =
      snd (snd (run (exec_function demo_mage demo_options [''x'']) (?v, w')))"
    by (metis snd_map_prod)
  with first r w' show ?thesis
    by (auto simp: run_exec_function demo_mage_def [THEN arg_cong [of _ _ cmd_Run]] exec_request_def e)
qed

theorem exec_function_expands_again_witness:
  "map ec_path (snd (snd (run (andthen (exec_function demo_mage demo_options []) (exec_function demo_mage demo_options []))
     (\<lparr>cap_cmd = ''$TOOL'', cap_args = [''$LINTER'']\<rparr>, [])))) = [''$LINTER'', ''lint'']"
proof -
  let ?v = "\<lparr>cap_cmd = ''$TOOL'', cap_args = [''$LINTER'']\<rparr>"
  have e: "os_Expand ''$TOOL'' (expand demo_mage demo_options) = ''$LINTER''"
    "os_Expand ''$LINTER'' (expand demo_mage demo_options) = ''lint''" by (simp_all add: demo_expand)
  obtain r v' w' where first: "run (exec_function demo_mage demo_options []) (?v, []) = (r, (v', w'))" and r: "\<exists>x. r = Normal x"
    and w': "map ec_path w' = [''$LINTER'']"
    by (simp add: run_exec_function demo_mage_def [THEN arg_cong [of _ _ cmd_Run]] exec_request_def e)
  have "exec_request demo_mage demo_options v' [] = exec_request demo_mage demo_options
      \<lparr>cap_cmd = ''$LINTER'', cap_args = [''lint'']\<rparr> []"
    using exec_function_expands_again [OF first] by (simp add: e demo_options_eq [THEN arg_cong [of _ _ ro_cap]])
  with first r w' show ?thesis
    by (auto simp: run_exec_function demo_mage_def [THEN arg_cong [of _ _ cmd_Run]] exec_request_def e)
qed

end
