(* ===== verification/Mage_Targets.thy ===== *)
theory Mage_Targets
  imports Mage_Exec
begin

text \<open>
  The targets of the build scripts (magefiles/gen.go, test.go, lint.go and alias.go) and the cluster they test
  against (\<open>provisionKind\<close> in magefiles/util.go). The kind library, the removal of files, printing, the
  working directory, \<open>sh.RunV\<close> and \<open>mg.Deps\<close> (which runs the named functions that have not run before and
  panics when one of them fails) are parameters. A method of a target namespace is named by its type and
  its name.
\<close>

section \<open>The test cluster\<close>

record kind_config =
  kc_WaitForReady :: int
  kc_Kind :: string
  kc_APIVersion :: string
  kc_Nodes :: "string list"

record 'w kind_lib =
  kind_List :: "(error + string list, 'w) proc"
  kind_Create :: "string \<Rightarrow> kind_config \<Rightarrow> (error option, 'w) proc"
  kind_ExportKubeConfig :: "string \<Rightarrow> string \<Rightarrow> bool \<Rightarrow> (error option, 'w) proc"
  kind_Delete :: "string \<Rightarrow> string \<Rightarrow> (error option, 'w) proc"
  kind_CollectLogs :: "string \<Rightarrow> string \<Rightarrow> (error option, 'w) proc"
  os_Remove :: "string \<Rightarrow> (error option, 'w) proc"

text \<open>The functions that \<open>provisionKind\<close> returns.\<close>

definition kubeconfig_of :: "string \<Rightarrow> string" where
  "kubeconfig_of nm = nm @ ''.kubeconfig''"

definition deprovision :: "'w kind_lib \<Rightarrow> string \<Rightarrow> (error option, 'w) proc" where
  "deprovision K nm =
     bind (kind_Delete K nm (kubeconfig_of nm)) (\<lambda>err.
       if err \<noteq> None then Return err
       else
         bind (os_Remove K (kubeconfig_of nm)) (\<lambda>err.
           if err \<noteq> None then Return err else Return None))"

definition exportLogs :: "'w kind_lib \<Rightarrow> string \<Rightarrow> string \<Rightarrow> (error option, 'w) proc" where
  "exportLogs K nm dir = kind_CollectLogs K nm dir"

definition cluster_config :: kind_config where
  "cluster_config =
     \<lparr>kc_WaitForReady = 5 * 60 * 1000000000, kc_Kind = ''Cluster'', kc_APIVersion = ''kind.x-k8s.io/v1alpha4'',
      kc_Nodes = [''control-plane'']\<rparr>"

type_synonym 'w provisioned =
  "string \<times> (error option, 'w) proc \<times> (string \<Rightarrow> (error option, 'w) proc) \<times> error option"

definition provisionKind :: "'w kind_lib \<Rightarrow> string \<Rightarrow> ('w provisioned, 'w) proc" where
  "provisionKind K nm =
     (let result = (\<lambda>err. Return (kubeconfig_of nm, deprovision K nm, exportLogs K nm, err)) in
      bind (kind_List K) (\<lambda>r.
        case r of
          Inl err \<Rightarrow> result (Some err)
        | Inr existing \<Rightarrow>
            if nm \<in> set existing then bind (kind_ExportKubeConfig K nm (kubeconfig_of nm) False) result
            else
              bind (kind_Create K nm cluster_config) (\<lambda>err.
                case err of
                  Some e \<Rightarrow> result (Some (Wrapped ''failed to create kind controller: '' e))
                | None \<Rightarrow>
                    bind (kind_ExportKubeConfig K nm (kubeconfig_of nm) False) (\<lambda>err.
                      case err of
                        Some e \<Rightarrow> result (Some (Wrapped ''failed to export kubeconfig: '' e))
                      | None \<Rightarrow> result None))))"

section \<open>Targets\<close>

record 'w target_lib =
  tl_mage :: "'w mage_lib"
  tl_kind :: "'w kind_lib"
  fmt_Println :: "string \<Rightarrow> (unit, 'w) proc"
  os_Getwd :: "(error + string, 'w) proc"
  sh_RunV :: "string list \<Rightarrow> (error option, 'w) proc"
  mg_Deps :: "(string \<times> (error option, 'w) proc) list \<Rightarrow> (unit, 'w) proc"

type_synonym 'w target = "(error option, 'w) proc"

definition Gen_Go :: "'w target_lib \<Rightarrow> 'w target" where
  "Gen_Go T = andthen (fmt_Println T ''generating go'') (sh_RunV T [''go'', ''generate'', ''./...''])"

definition Gen_All :: "'w target_lib \<Rightarrow> 'w target" where
  "Gen_All T = andthen (mg_Deps T [(''Gen.Go'', Gen_Go T)]) (Return None)"

definition docker_dep :: "'w target_lib \<Rightarrow> string \<times> (error option, 'w) proc" where
  "docker_dep T = (''checkDocker'', checkDocker (tl_mage T))"

definition Test_Unit :: "'w target_lib \<Rightarrow> 'w target" where
  "Test_Unit T = andthen (fmt_Println T ''running unit tests'') (goTest (tl_mage T) ''./...'' [])"

definition Test_Integration :: "'w target_lib \<Rightarrow> 'w target" where
  "Test_Integration T =
     andthen (mg_Deps T [docker_dep T])
       (bind (provisionKind (tl_kind T) ''controller-idioms-e2e'') (\<lambda>(_, _, _, err).
         if err \<noteq> None then Return err
         else goTest (tl_mage T) ''./...'' [''-tags'', ''e2e'', ''-timeout'', ''15m'']))"

definition Test_All :: "'w target_lib \<Rightarrow> 'w target" where
  "Test_All T =
     andthen (mg_Deps T [(''Test.Unit'', Test_Unit T), (''Test.Integration'', Test_Integration T)]) (Return None)"

definition Lint_Yaml :: "'w target_lib \<Rightarrow> 'w target" where
  "Lint_Yaml T =
     andthen (mg_Deps T [docker_dep T])
       (bind (os_Getwd T) (\<lambda>r.
         case r of
           Inl err \<Rightarrow> Return (Some err)
         | Inr cwd \<Rightarrow>
             sh_RunV T [''docker'', ''run'', ''--rm'', ''-v'', cwd @ '':/src:ro'',
               ''cytopia/yamllint:1'', ''-c'', ''/src/.yamllint'', ''/src'']))"

definition Lint_Markdown :: "'w target_lib \<Rightarrow> 'w target" where
  "Lint_Markdown T =
     andthen (mg_Deps T [docker_dep T])
       (bind (os_Getwd T) (\<lambda>r.
         case r of
           Inl err \<Rightarrow> Return (Some err)
         | Inr cwd \<Rightarrow>
             sh_RunV T [''docker'', ''run'', ''--rm'', ''-v'', cwd @ '':/src:ro'',
               ''ghcr.io/igorshubovych/markdownlint-cli:v0.34.0'', ''--config'', ''/src/.markdownlint.yaml'', ''/src'']))"

definition Lint_Extra :: "'w target_lib \<Rightarrow> 'w target" where
  "Lint_Extra T =
     andthen (mg_Deps T [(''Lint.Markdown'', Lint_Markdown T), (''Lint.Yaml'', Lint_Yaml T)]) (Return None)"

definition Lint_Gofumpt :: "'w target_lib \<Rightarrow> 'w target" where
  "Lint_Gofumpt T =
     andthen (fmt_Println T ''formatting go'')
       (RunSh_once (tl_mage T) ''go'' [Tool] [''run'', ''mvdan.cc/gofumpt'', ''-l'', ''-w'', ''..''])"

definition Lint_Go :: "'w target_lib \<Rightarrow> 'w target" where
  "Lint_Go T =
     bind (Gen_All T) (\<lambda>err.
       if err \<noteq> None then Return err
       else andthen (mg_Deps T [(''Lint.Gofumpt'', Lint_Gofumpt T)]) (Return None))"

definition Lint_All :: "'w target_lib \<Rightarrow> 'w target" where
  "Lint_All T = andthen (mg_Deps T [(''Lint.Go'', Lint_Go T), (''Lint.Extra'', Lint_Extra T)]) (Return None)"

definition Aliases :: "'w target_lib \<Rightarrow> (string, 'w target) gomap" where
  "Aliases T = [(''test'', Test_Unit T), (''generate'', Gen_All T), (''lint'', Lint_All T)]"

section \<open>Properties\<close>

text \<open>What the test cluster relies on: \<open>clusters\<close> are the names that a successful listing gives, a
  successful creation adds a name, a successful deletion removes it, and listing, the export of a
  configuration and the removal of a file leave them alone.\<close>

definition provider_ok :: "'w kind_lib \<Rightarrow> ('w \<Rightarrow> string set) \<Rightarrow> bool" where
  "provider_ok K clusters \<longleftrightarrow>
     (\<forall>w. clusters (snd (run (kind_List K) w)) = clusters w \<and>
          (\<forall>names. fst (run (kind_List K) w) = Normal (Inr names) \<longrightarrow> set names = clusters w)) \<and>
     (\<forall>w nm c. fst (run (kind_Create K nm c) w) = Normal None \<longrightarrow>
        clusters (snd (run (kind_Create K nm c) w)) = insert nm (clusters w)) \<and>
     (\<forall>w nm f. fst (run (kind_Delete K nm f) w) = Normal None \<longrightarrow>
        clusters (snd (run (kind_Delete K nm f) w)) = clusters w - {nm}) \<and>
     (\<forall>w nm f b. clusters (snd (run (kind_ExportKubeConfig K nm f b) w)) = clusters w) \<and>
     (\<forall>w f. clusters (snd (run (os_Remove K f) w)) = clusters w)"

text \<open>Provisioning the test cluster. When \<open>provisionKind\<close> reports no error the cluster is there, and
  no other cluster was touched; a call for a cluster that is there creates none; and the
  function it returns removes the cluster when it reports no error.\<close>

theorem provision_creates_cluster_once:
  assumes "provider_ok K clusters"
    and "run (provisionKind K nm) w = (Normal (f, remove, logs, None), w')"
  shows "clusters w' = insert nm (clusters w) \<and> f = nm @ ''.kubeconfig'' \<and>
    (nm \<in> clusters w \<longrightarrow> run (provisionKind (K\<lparr>kind_Create := g\<rparr>) nm) w =
       (Normal (f, deprovision (K\<lparr>kind_Create := g\<rparr>) nm, exportLogs (K\<lparr>kind_Create := g\<rparr>) nm, None), w')) \<and>
    (\<forall>w'' w3. run remove w'' = (Normal None, w3) \<longrightarrow> clusters w3 = clusters w'' - {nm})"
proof -
  note ok = assms(1) [unfolded provider_ok_def]
  from assms(2) obtain names w1 where list: "run (kind_List K) w = (Normal (Inr names), w1)"
    by (auto simp: provisionKind_def Let_def split: prod.splits outcome.splits sum.splits)
  from ok list have w1: "clusters w1 = clusters w" "set names = clusters w" by (metis fst_conv snd_conv)+
  have f: "f = nm @ ''.kubeconfig''" "remove = deprovision K nm"
    using assms(2) list
    by (auto simp: provisionKind_def kubeconfig_of_def Let_def split: prod.splits outcome.splits option.splits if_splits)
  have "clusters w' = insert nm (clusters w)"
  proof (cases "nm \<in> clusters w")
    case True
    with assms(2) list w1 have "w' = snd (run (kind_ExportKubeConfig K nm (kubeconfig_of nm) False) w1)"
      by (auto simp: provisionKind_def Let_def split: prod.splits outcome.splits)
    with ok True w1 show ?thesis by auto
  next
    case False
    with assms(2) list w1 obtain w2 where "run (kind_Create K nm cluster_config) w1 = (Normal None, w2)"
      "w' = snd (run (kind_ExportKubeConfig K nm (kubeconfig_of nm) False) w2)"
      by (auto simp: provisionKind_def Let_def split: prod.splits outcome.splits option.splits)
    with ok w1 show ?thesis by (metis fst_conv snd_conv)
  qed
  moreover have "run (provisionKind (K\<lparr>kind_Create := g\<rparr>) nm) w =
       (Normal (f, deprovision (K\<lparr>kind_Create := g\<rparr>) nm, exportLogs (K\<lparr>kind_Create := g\<rparr>) nm, None), w')"
    if "nm \<in> clusters w"
    using that assms(2) list w1
    by (auto simp: provisionKind_def Let_def split: prod.splits outcome.splits)
  moreover have "clusters w3 = clusters w2 - {nm}" if "run remove w2 = (Normal None, w3)" for w2 w3
  proof -
    from that obtain w4 where "run (kind_Delete K nm (kubeconfig_of nm)) w2 = (Normal None, w4)"
      "w3 = snd (run (os_Remove K (kubeconfig_of nm)) w4)"
      by (auto simp: f deprovision_def split: prod.splits outcome.splits if_splits)
    with ok show ?thesis by (metis fst_conv snd_conv)
  qed
  ultimately show ?thesis using f by blast
qed

section \<open>Witnesses\<close>

text \<open>A provider that keeps the names of its clusters.\<close>

definition demo_kind :: "string list kind_lib" where
  "demo_kind =
     \<lparr>kind_List = gets Inr, kind_Create = (\<lambda>nm _. andthen (modify (List.insert nm)) (Return None)),
      kind_ExportKubeConfig = (\<lambda>_ _ _. Return None),
      kind_Delete = (\<lambda>nm _. andthen (modify (removeAll nm)) (Return None)),
      kind_CollectLogs = (\<lambda>_ _. Return None), os_Remove = (\<lambda>_. Return None)\<rparr>"

theorem provision_creates_cluster_once_witness:
  "run (provisionKind (demo_kind\<lparr>kind_Create := (\<lambda>_ _. Panic ''created'')\<rparr>) ''e2e'') [''e2e'', ''dev''] =
     (Normal (''e2e.kubeconfig'', deprovision (demo_kind\<lparr>kind_Create := (\<lambda>_ _. Panic ''created'')\<rparr>) ''e2e'',
        exportLogs (demo_kind\<lparr>kind_Create := (\<lambda>_ _. Panic ''created'')\<rparr>) ''e2e'', None), [''e2e'', ''dev''])"
proof -
  have "provider_ok demo_kind set" by (auto simp: provider_ok_def demo_kind_def)
  moreover have "run (provisionKind demo_kind ''e2e'') [''e2e'', ''dev''] =
      (Normal (''e2e.kubeconfig'', deprovision demo_kind ''e2e'', exportLogs demo_kind ''e2e'', None), [''e2e'', ''dev''])"
    by (simp add: provisionKind_def demo_kind_def kubeconfig_of_def)
  ultimately show ?thesis using provision_creates_cluster_once by fastforce
qed

end
