(* ===== verification/Spec2Isabelle.thy ===== *)
theory Spec2Isabelle
  imports Handler Typed_Context Middleware Queue Cache_Keys Controller Worker_Pool Hash Typed Component Finalizer
    Adopt Conditions Pause Healthz Manager Metrics Bootstrap Bootstrap_Crds File_Informer Informer_Concurrency Static
    Fake_Client Fake_Schema Fake_Queue Client_Config Mage_Exec Mage_Targets
begin

text \<open>
  A model and a verification of controller-idioms, a Go library of building blocks for Kubernetes
  controllers. This theory imports the whole development and holds the properties that span several
  components.

  \<^bold>\<open>The program.\<close> A controller (manager/controller.go) takes keys from a rate-limited workqueue, splits
  them (cachekeys/keys.go) and calls a sync function with queue controls (queue/controls.go) in the
  context (typedctx/context.go). The sync function is normally a chain or a parallel composition of
  handlers (handler/*.go), possibly wrapped in middleware (middleware/*.go). Ready-made handlers
  keep a computed object in the cluster (component/*.go), add finalizers (finalizer/*.go), adopt
  existing objects (adopt/*.go) and pause resources (pause/pause.go, over the conditions of
  conditions/conditions.go). They read the cluster through typed views of informer caches held in a
  registry (typed/*.go) and compare objects by hash (hash/*.go). A manager (manager/manager.go)
  starts and cancels a set of controllers and serves their health checks (healthz/handler.go);
  a collector reports condition metrics (metrics/condition_metrics.go). At startup a program installs
  its custom resource definitions (bootstrap/crds.go) and applies the objects of a file
  (bootstrap/resource.go); the static controller (static/controller.go) does so again whenever an
  informer on that file (fileinformer/file_informer.go) reports a change. For tests there are a
  dynamic client with server-side apply (client/fake/fake.go) and a recording fake of the queue
  controls (queue/fake/zz_generated.go). The build scripts (magefiles/*.go) run external commands.

  \<^bold>\<open>How the code is modelled.\<close> Theory \<open>Prelude\<close> holds the semantic base. Code with effects is a
  \<open>proc\<close>: a tree of atomic steps on a world, ending in a value or a panic; \<open>run\<close> executes it without
  interruption and keeps the effects made before a panic, \<open>deferred\<close> is \<open>defer\<close>. Because the steps are
  kept, goroutines interleave (\<open>interleave\<close> in \<open>Handler\<close>, \<open>calls_step\<close> in \<open>Concurrency\<close>, \<open>system_step\<close> in
  \<open>Manager\<close>), and \<open>rg_safe\<close> is a rely-guarantee argument for one piece of code beside others. Code that has to
  wait takes its step only when it need not wait any longer; run alone it stops as \<open>blocked\<close>. Callbacks and code outside the
  repository (client-go, apimachinery, hash functions, the API server) are parameters: arbitrary
  \<open>proc\<close>s or functions, about which a theorem assumes only what its hypotheses say. A Go \<open>error\<close>
  result is an \<open>error option\<close> or a sum, a panic is a value, a Go map is an association list whose
  iteration order is an argument (\<open>range_order\<close>), a pointer whose aliasing matters is an address into a
  heap in the world. Structs are records, with the names of the source where Isabelle allows it and
  a prefix for methods (\<open>Set_Union\<close> is \<open>Set.Union\<close>).

  \<^bold>\<open>Theories.\<close>
  \<^item> \<open>Handler\<close>: handlers, builders, \<open>Chain\<close> and \<open>Parallel\<close>. A chain of stages equals the sequential
    composition of its stages, a parallel handler under any schedule equals some interleaving of its
    children followed by the next handler; the locale \<open>builder_composer\<close> is what middleware
    relies on, interpreted for both composers.
  \<^item> \<open>Typed_Context\<close>: the three kinds of context keys; the locale \<open>settable_context\<close> is the interface
    of a key that handlers use, interpreted for each kind.
  \<^item> \<open>Middleware\<close>: wrapping of composers, the logging middleware, sync ids.
  \<^item> \<open>Queue\<close>: queue controls and retry classification; the locale \<open>queue_control\<close> is the contract of
    the controls, interpreted for \<open>Operations\<close> here and for the controller's own closures in
    \<open>Controller\<close>.
  \<^item> \<open>Cache_Keys\<close>: building and splitting of keys, with the round trip.
  \<^item> \<open>Controller\<close>: \<open>processNext\<close>, the work loop and \<open>Start\<close>. \<open>startWorker\<close> has fuel: the number of rounds; a
    round always ends, and the result says whether the loop ended by itself. Rounds beyond the number
    of keys in the queue are enough when the queue has been shut down.
  \<^item> \<open>Worker_Pool\<close>: the workers of one controller interleave step by step; for a workqueue that hands out no
    key in progress, no two of them have the same key.
  \<^item> \<open>Hash\<close>: hashers and hash sets; the locale \<open>hash_set\<close> specifies sets by their partial map from
    hashes to objects, \<open>object_hasher\<close> is the contract of a hasher.
  \<^item> \<open>Typed\<close>: registry, indexers, listers, conversions; the locale \<open>factory_registry\<close> is the contract
    of the registry.
  \<^item> \<open>Component\<close>: listing of components and the ensure handler, with convergence on a cluster that
    does what it is told, proved in \<open>object_hasher\<close>.
  \<^item> \<open>Finalizer\<close>: get-modify-write of finalizers with another writer in between, and the handler over
    the locale \<open>object_context\<close>.
  \<^item> \<open>Adopt\<close>: the adoption handler refines an abstract plan of patches.
  \<^item> \<open>Conditions\<close>, \<open>Pause\<close>: conditions of resources in a heap, the pause handlers as a gate.
  \<^item> \<open>Healthz\<close>, \<open>Manager\<close>: the health endpoint, and the manager as an inductive step relation over its clients
    and the goroutines of its errgroup (\<open>group_step\<close>), with an invariant over all interleavings and a measure
    of the work left that bounds every shutdown.
  \<^item> \<open>Concurrency\<close>: waiting, critical sections, and the locale \<open>mutex\<close>: goroutines whose calls are critical
    sections of one mutex refine a serial execution of the calls, exclude each other, and never
    deadlock.
  \<^item> \<open>Metrics\<close>: the collector with its 16-bit counters, and the descriptions its metrics fit.
  \<^item> \<open>Go_Library\<close>, \<open>Crd_Types\<close>: more of the Go standard library, assertions over \<open>proc\<close> (\<open>triple\<close>, \<open>keeps\<close>),
    code on a part of the world (\<open>embed\<close>), and the type of custom resource definitions.
  \<^item> \<open>Bootstrap\<close>: \<open>ResourceFromFile\<close>. The loop over the documents has as fuel one more than the length of
    the file, which is enough for every decoder that consumes input (\<open>consuming\<close>). The locale
    \<open>apply_client\<close> is what it relies on in a client; \<open>Fake_Client\<close> interprets it.
  \<^item> \<open>Bootstrap_Crds\<close>: reading, creating or updating of definitions, and the wait until they are served,
    for helpers that retry and poll as documented.
  \<^item> \<open>File_Informer\<close>: factory and informers in a heap, with their locks. A call that needs a lock that is
    taken stops as \<open>blocked\<close>; the calls of a history run one after the other. The state invariant holds
    after every history, and the event loop refines the effects of its inputs.
  \<^item> \<open>Informer_Concurrency\<close>: the mutex of the factory interprets \<open>mutex\<close>, so concurrent calls of its methods are
    atomic; and the race between the start of an informer and the addition of a handler.
  \<^item> \<open>Static\<close>: the static controller over the two, and over the fake client.
  \<^item> \<open>Fake_Client\<close>: apply, patch, the reactor and the delegated methods over two object trackers.
  \<^item> \<open>Fake_Schema\<close>: options and constructors of the fake client, parsing and registration of definitions,
    schemas by path, type converters. Code that can only panic is an \<open>outcome\<close>.
  \<^item> \<open>Fake_Queue\<close>: the recording fake.
  \<^item> \<open>Mage_Exec\<close>: the command runner of the build scripts, with the variables its functions capture.
  \<^item> \<open>Mage_Targets\<close>, \<open>Client_Config\<close>: the build targets with the provisioning of the test cluster, and the switch
    for client-side rate limiting.

  \<^bold>\<open>Bounds.\<close> Hashes and counters are words of 64 and 16 bits, durations are integers with the 64-bit
  wrap-around of the one multiplication written out. Strings are lists of bytes; \<open>Quote\<close> covers ASCII.
  Schedules and fuel are universally quantified in the theorems.

  \<^bold>\<open>Not modelled.\<close> Log calls; the interleaving of the event loop of an informer with other
  calls; the HTTP handler of the debug endpoints; the decoder that the fake client
  hands to its tracker; the interface declarations, which the records of operations stand for; and
  tools.go and magefiles/tools.go, which only import tools.
\<close>

section \<open>A controller that runs a chain of handlers\<close>

definition chain_sync ::
    "(string \<times> ('e, ('q, 'x) ctl_world) stage_body) list \<Rightarrow> ('d goctx \<Rightarrow> gvr \<Rightarrow> string \<Rightarrow> string \<Rightarrow> 'e) \<Rightarrow>
     'd goctx \<Rightarrow> gvr \<Rightarrow> string \<Rightarrow> string \<Rightarrow> ('q, 'x, unit) ctl" where
  "chain_sync bs prep ctx g namespace nm =
     bind (Builder_Handler (Chain (stages_builder bs)) ''sync'') (\<lambda>h. ContextHandler h (prep ctx g namespace nm))"

lemma chain_sync_stages: "chain_sync bs prep ctx g namespace nm = run_stages (map snd bs) (prep ctx g namespace nm)"
  using Chain_stages [of bs "[NoopHandler]"] by (auto simp: chain_sync_def Builder_Handler_def)

text \<open>The context in which the work loop calls the sync function.\<close>

definition loop_context ::
    "api_errors \<Rightarrow> (('q, 'x) ctl_world queue_iface, 'd) gotype \<Rightarrow>
     ('q, 'd, 'x) OwnedResourceController \<Rightarrow> 'd goctx \<Rightarrow> string \<Rightarrow> 'd goctx" where
  "loop_context api T c ctx key =
     Key_WithValue T (orc_ops c) ctx (Operations_iface api (ctl_ops (orc_queue c) key))"

section \<open>A pause handler in a chain\<close>

text \<open>The builder that puts the pause handler in front of what follows in a chain.\<close>

definition pause_builder ::
    "meta_lib \<Rightarrow> ('x, int) pp \<Rightarrow> (addr, 'd) gotype \<Rightarrow> ('x pause_world queue_iface, 'd) gotype \<Rightarrow>
     ('d, 'x) PauseHandler \<Rightarrow> ('d goctx, 'x pause_world) builder" where
  "pause_builder M now TO T p next =
     bind (MustOne next) (\<lambda>n.
       Return (NewHandler (PauseHandler_Handle M now TO T
         (NewPauseContextHandler (ph_ctrls p) (ph_PausedLabelKey p) (ph_Object p) (ph_PatchStatus p) (ContextHandler n))) ''pause''))"

lemma pause_chain:
  "\<exists>h. Chain (pause_builder M now TO T p # stages_builder bs) next = Return h \<and>
     ContextHandler h = PauseHandler_Handle M now TO T (p\<lparr>ph_Next := run_stages (map snd bs)\<rparr>)"
proof -
  obtain n where n: "chain_loop (rev (stages_builder bs)) NoopHandler = Return n"
    "ContextHandler n = run_stages (map snd bs)"
    using Chain_stages [of bs "next"] by (auto simp: Chain_def)
  have "NewPauseContextHandler (ph_ctrls p) (ph_PausedLabelKey p) (ph_Object p) (ph_PatchStatus p) f = p\<lparr>ph_Next := f\<rparr>" for f
    by (cases p) (simp add: NewPauseContextHandler_def)
  with n show ?thesis
    by (simp add: Chain_def chain_loop_append pause_builder_def MustOne_def)
qed

section \<open>Properties\<close>

text \<open>C28: the work loop of a controller whose sync function is a chain of handlers. The stages of the
  chain run in order, in a context that carries the key's queue controls, until one stops; then the
  key is forgotten and marked done and the loop goes on. When a stage panics, the later stages do
  not run and the panic leaves the loop, but the key is marked done all the same, and not
  forgotten.\<close>

theorem chained_controller_processes_key:
  assumes get: "wq_Get (orc_queue c) (cw_queue w) = ((key, False), q)"
    and split: "SplitGVRMetaNamespaceKey parseArg splitMeta key = (Some g, namespace, nm, None)"
    and sync: "orc_sync c = chain_sync bs prep"
    and stages: "run (run_stages (map snd bs) (prep (loop_context api T c ctx key) g namespace nm))
       (sync_start q w) = (r, w1)"
  shows "run (processNext api parseArg splitMeta T c ctx) w =
     (case r of
        Normal _ \<Rightarrow> (Normal True, w1\<lparr>cw_key_done := True,
          cw_queue := wq_Done (orc_queue c) key (wq_Forget (orc_queue c) key (cw_queue w1))\<rparr>)
      | Panicked msg \<Rightarrow> (Panicked msg, w1\<lparr>cw_queue := wq_Done (orc_queue c) key (cw_queue w1)\<rparr>))"
proof (cases r)
  case (Normal u)
  with stages have "run (sync_run api T c ctx key g namespace nm) (sync_start q w) = (Normal (), w1)"
    by (simp add: sync_run_def sync chain_sync_stages loop_context_def)
  from run_processNext_synced [OF get split this] Normal show ?thesis by simp
next
  case (Panicked msg)
  with get split stages show ?thesis
    by (simp add: processNext_def sync chain_sync_stages loop_context_def sync_start_def new_key_context_def)
qed

text \<open>C15: a pause handler in front of a chain of stages. A resource with the pause label reaches none of
  the stages: with the condition it is done, without it it gets the condition, is patched, and is done or
  requeued. An unlabelled resource without the condition goes through the stages in order; one
  with the condition loses it and goes through the stages only when the patch succeeded.\<close>

theorem paused_resource_reaches_no_stage:
  assumes "meta_ok M" and "\<And>w. run now w = (Normal time, w)"
    and "Defaulting_Value TO (ph_Object p) ctx = a" "a \<noteq> zero_val TO"
    and "Key_Value T (ph_ctrls p) ctx = Some q"
    and "res_Status (pw_heap w a) \<noteq> None"
  shows "\<exists>h. Chain (pause_builder M now TO T p # stages_builder bs) next = Return h \<and>
     (if IsPaused (pw_heap w a) (ph_PausedLabelKey p)
      then if FindStatusCondition M (pw_heap w a) ConditionTypePaused \<noteq> None
        then run (ContextHandler h ctx) w = run (qDone q) w
        else \<exists>r c. IsPaused r (ph_PausedLabelKey p) \<and>
          FindStatusCondition M r ConditionTypePaused = Some c \<and> Reason c = ''PausedByLabel'' \<and>
          run (ContextHandler h ctx) w =
          run (bind (ph_PatchStatus p ctx a) (\<lambda>err. if err \<noteq> None then qRequeueAPIErr q err else qDone q))
            (w\<lparr>pw_heap := (pw_heap w)(a := r)\<rparr>)
      else if FindStatusCondition M (pw_heap w a) ConditionTypePaused = None
        then run (ContextHandler h ctx) w = run (run_stages (map snd bs) ctx) w
        else \<exists>r. \<not> IsPaused r (ph_PausedLabelKey p) \<and> FindStatusCondition M r ConditionTypePaused = None \<and>
          run (ContextHandler h ctx) w =
          run (bind (ph_PatchStatus p ctx a) (\<lambda>err. if err \<noteq> None then qRequeueAPIErr q err else run_stages (map snd bs) ctx))
            (w\<lparr>pw_heap := (pw_heap w)(a := r)\<rparr>))"
proof -
  let ?p = "p\<lparr>ph_Next := run_stages (map snd bs)\<rparr>"
  obtain h where "Chain (pause_builder M now TO T p # stages_builder bs) next = Return h"
    and h: "ContextHandler h = PauseHandler_Handle M now TO T ?p"
    using pause_chain by blast
  moreover have fields: "ph_Object ?p = ph_Object p" "ph_ctrls ?p = ph_ctrls p" "ph_PausedLabelKey ?p = ph_PausedLabelKey p"
    "ph_PatchStatus ?p = ph_PatchStatus p" "ph_Next ?p = run_stages (map snd bs)" by simp_all
  moreover note pause_gate [where p = ?p, unfolded fields, OF assms]
  ultimately show ?thesis by (intro exI [of _ h] conjI) (assumption, simp only: h)
qed

section \<open>Witnesses\<close>

text \<open>A chain of two stages: the first requeues the key and stops, the second would panic.\<close>

definition demo_stages ::
    "(string \<times> ((string list \<times> nat, unit) ctl_world queue_iface goctx, (string list \<times> nat, unit) ctl_world) stage_body) list" where
  "demo_stages =
     [(''requeue'', \<lambda>ctx. bind (OpsCtx_Requeue demo_iface_type NewQueueOperationsCtx ctx) (\<lambda>_. Return None)),
      (''unreachable'', \<lambda>_. Panic ''not reached'')]"

definition demo_chained ::
    "(string list \<times> nat, (string list \<times> nat, unit) ctl_world queue_iface, unit) OwnedResourceController" where
  "demo_chained = demo_controller\<lparr>orc_sync := chain_sync demo_stages (\<lambda>ctx _ _ _. ctx)\<rparr>"

theorem chained_controller_processes_key_witness:
  "\<exists>w'. run (processNext (demo_api 0) demo_parse demo_split_meta demo_iface_type demo_chained [])
     (demo_world ''r.v1.g::ns/a'') = (Normal True, w') \<and> cw_queue w' = ([''r.v1.g::ns/a''], 0)"
proof -
  let ?w = "demo_world ''r.v1.g::ns/a''" and ?g = "\<lparr>Group = ''g'', Version = ''v1'', Resource = ''r''\<rparr>"
  have get: "wq_Get (orc_queue demo_chained) (cw_queue ?w) = ((''r.v1.g::ns/a'', False), ([], 0))"
    by (simp add: demo_chained_def demo_controller_def NewOwnedResourceController_def demo_world_def demo_queue_def)
  have split: "SplitGVRMetaNamespaceKey demo_parse demo_split_meta ''r.v1.g::ns/a'' = (Some ?g, ''ns'', ''a'', None)"
    by (simp add: SplitGVRMetaNamespaceKey_def HasPrefix_def demo_parse_def demo_split_meta_def)
  have sync: "orc_sync demo_chained = chain_sync demo_stages (\<lambda>ctx _ _ _. ctx)" by (simp add: demo_chained_def)
  obtain w1 where w1: "run (run_stages (map snd demo_stages) (loop_context (demo_api 0) demo_iface_type demo_chained [] ''r.v1.g::ns/a''))
      (sync_start ([], 0) ?w) = (Normal (), w1)" and "cw_queue w1 = ([''r.v1.g::ns/a''], Suc 0)"
    by (simp add: demo_stages_def loop_context_def demo_chained_def demo_controller_def NewOwnedResourceController_def OpsCtx_Requeue_def
        Key_MustValue_def Key_Value_def Key_WithValue_def type_assert_def demo_iface_type_def
        operations_defs ctl_defs demo_queue_def sync_start_def demo_world_def)
  with chained_controller_processes_key [OF get split sync w1] show ?thesis
    by (simp add: demo_chained_def demo_controller_def NewOwnedResourceController_def demo_queue_def)
qed

text \<open>A labelled resource in front of a stage that would panic.\<close>

theorem paused_resource_reaches_no_stage_witness:
  "\<exists>h w'. Chain (pause_builder demo_meta (Return 0) demo_obj_type demo_ctrls_type (demo_pause None) #
       stages_builder [(''unreachable'', \<lambda>_. Panic ''not reached'')]) [] = Return h \<and>
     run (ContextHandler h demo_pause_ctx) (demo_pause_world (Some [(''pause'', [])])) = (Normal (), w')"
proof -
  let ?w = "demo_pause_world (Some [(''pause'', [])])" and ?p = "demo_pause None"
  have reads: "Defaulting_Value demo_obj_type (ph_Object ?p) demo_pause_ctx = 7"
      "Key_Value demo_ctrls_type (ph_ctrls ?p) demo_pause_ctx = Some demo_pause_ctrls"
    and now: "\<And>w :: nat pause_world. run (Return 0) w = (Normal 0, w)"
    by (simp_all add: demo_pause_reads demo_pause_fields)
  have status: "res_Status (pw_heap ?w 7) \<noteq> None" by (simp add: demo_world_resource)
  from paused_resource_reaches_no_stage [OF demo_meta_ok now reads(1) demo_pause_reads(2) reads(2) status,
      of "[(''unreachable'', \<lambda>_. Panic ''not reached'')]" "[]"]
  show ?thesis by (auto simp: demo_pause_fields demo_world_resource demo_verdicts)
qed

end
